(* ===== verification/Prelude.thy ===== *)
theory Prelude
  imports
    Main
    "HOL-Library.AList"
    "HOL-Library.Char_ord"
    "HOL-Library.List_Lexorder"
    "HOL-Library.Product_Lexorder"
    "HOL-Library.Sublist"
begin

text \<open>
  What the components share: exceptions as values, the rows of a relational table as a list
  with the two primitives the SQL statements of the program reduce to (update where, count
  where), Python dictionaries as association lists in insertion order, bounded queues, and
  the lemmas about them that carry the component proofs.

  A Python call that may raise is a value of type \<open>'a outcome\<close>, that is \<open>exn + 'a\<close>: \<open>Inl\<close> is
  the raised exception, with its class name and its message, \<open>Inr\<close> the returned value.
  Instants are integers (microseconds since the epoch, in UTC).
\<close>

named_theorems row_simps "rewriting of rows under the update primitives"
named_theorems handler_defs "definitions of the handlers of a component"

subsection \<open>Exceptions as values\<close>

datatype exn = Exn (exn_type: string) (exn_str: string)

type_synonym 'a outcome = "exn + 'a"
type_synonym instant = int

abbreviation value_error :: "string \<Rightarrow> 'a outcome" where
  "value_error m \<equiv> Inl (Exn ''ValueError'' m)"

abbreviation runtime_error :: "string \<Rightarrow> 'a outcome" where
  "runtime_error m \<equiv> Inl (Exn ''RuntimeError'' m)"

abbreviation type_error :: "string \<Rightarrow> 'a outcome" where
  "type_error m \<equiv> Inl (Exn ''TypeError'' m)"

text \<open>
  The exceptions that are \<^verbatim>\<open>BaseException\<close> but not \<^verbatim>\<open>Exception\<close>: a handler written
  \<^verbatim>\<open>except Exception\<close> does not catch them.
\<close>

definition is_plain_exception :: "exn \<Rightarrow> bool" where
  "is_plain_exception e \<longleftrightarrow>
     exn_type e \<notin> {''CancelledError'', ''KeyboardInterrupt'', ''SystemExit'', ''GeneratorExit''}"

text \<open>\<^verbatim>\<open>except OSError\<close> catches the class and its subclasses.\<close>

definition is_os_error :: "exn \<Rightarrow> bool" where
  "is_os_error e \<longleftrightarrow> exn_type e \<in> {''OSError'', ''FileNotFoundError'', ''FileExistsError'', ''PermissionError'',
     ''IsADirectoryError'', ''NotADirectoryError'', ''ConnectionError'', ''ConnectionRefusedError'', ''ConnectionResetError'',
     ''BrokenPipeError'', ''TimeoutError'', ''InterruptedError'', ''BlockingIOError'', ''ChildProcessError'', ''ProcessLookupError''}"

definition opt_or :: "'a option \<Rightarrow> 'a \<Rightarrow> 'a" where
  "opt_or x d = (case x of None \<Rightarrow> d | Some v \<Rightarrow> v)"

lemma opt_or_simps [simp]: "opt_or None d = d" "opt_or (Some v) d = v"
  by (simp_all add: opt_or_def)

subsection \<open>Rows of a table\<close>

definition update_where :: "('r \<Rightarrow> bool) \<Rightarrow> ('r \<Rightarrow> 'r) \<Rightarrow> 'r list \<Rightarrow> 'r list" where
  "update_where p f rows = map (\<lambda>r. if p r then f r else r) rows"

definition count_where :: "('r \<Rightarrow> bool) \<Rightarrow> 'r list \<Rightarrow> nat" where
  "count_where p rows = length (filter p rows)"

definition limit_rows :: "int \<Rightarrow> 'r list \<Rightarrow> 'r list" where
  "limit_rows n rows = (if n < 0 then rows else take (nat n) rows)"

lemma update_where_Nil [simp]: "update_where p f [] = []"
  by (simp add: update_where_def)

lemma update_where_Cons [simp]:
  "update_where p f (r # rs) = (if p r then f r else r) # update_where p f rs"
  by (simp add: update_where_def)

lemma count_where_Nil [simp]: "count_where p [] = 0"
  by (simp add: count_where_def)

lemma count_where_Cons [simp]:
  "count_where p (r # rs) = (if p r then Suc (count_where p rs) else count_where p rs)"
  by (simp add: count_where_def)

lemma length_update_where [simp]: "length (update_where p f rows) = length rows"
  by (simp add: update_where_def)

lemma set_update_where: "set (update_where p f rows) = (\<lambda>r. if p r then f r else r) ` set rows"
  by (simp add: update_where_def)

lemma update_where_id: "(\<And>r. r \<in> set rows \<Longrightarrow> \<not> p r) \<Longrightarrow> update_where p f rows = rows"
  by (induction rows) auto

lemma map_update_where_same [row_simps]:
  "(\<And>r. g (f r) = g r) \<Longrightarrow> map g (update_where p f rows) = map g rows"
  by (induction rows) auto

lemma count_where_0_iff: "count_where p rows = 0 \<longleftrightarrow> (\<forall>r\<in>set rows. \<not> p r)"
  by (simp add: count_where_def filter_empty_conv)

lemma count_where_cong:
  "(\<And>r. r \<in> set rows \<Longrightarrow> p r = q r) \<Longrightarrow> count_where p rows = count_where q rows"
  by (induction rows) auto

lemma find_update_where_key:
  assumes "\<And>r. key (f r) = key r"
  shows "find (\<lambda>r. key r = k) (update_where p f rows) =
         map_option (\<lambda>r. if p r then f r else r) (find (\<lambda>r. key r = k) rows)"
  using assms by (induction rows) auto

lemma find_Some_in: "find p rows = Some r \<Longrightarrow> r \<in> set rows \<and> p r"
  by (induction rows) (auto split: if_splits)

lemma find_None_all: "find p rows = None \<Longrightarrow> \<forall>r\<in>set rows. \<not> p r"
  by (induction rows) (auto split: if_splits)

lemma find_append:
  "find p (xs @ ys) = (case find p xs of None \<Rightarrow> find p ys | Some r \<Rightarrow> Some r)"
  by (induction xs) auto

lemma find_key_unique:
  assumes "distinct (map key rows)" and "r \<in> set rows" and "key r = k"
  shows "find (\<lambda>r. key r = k) rows = Some r"
  using assms by (induction rows) force+

text \<open>Where \<open>key\<close> is unique, the row count of an update by key is 0 or 1.\<close>

lemma count_where_key:
  assumes "distinct (map key rows)"
  shows "count_where (\<lambda>r. key r = k \<and> q r) rows =
         (case find (\<lambda>r. key r = k) rows of None \<Rightarrow> 0 | Some r \<Rightarrow> if q r then 1 else 0)"
  using assms
proof (induction rows)
  case Nil
  then show ?case by simp
next
  case (Cons a rows)
  have none: "key a = k \<Longrightarrow> count_where (\<lambda>r. key r = k \<and> q r) rows = 0"
    using Cons.prems by (auto simp: count_where_0_iff image_iff)
  show ?case
    using Cons.IH Cons.prems none by auto
qed

lemma count_where_key_le1:
  "distinct (map key rows) \<Longrightarrow> count_where (\<lambda>r. key r = k \<and> q r) rows \<le> 1"
  by (simp add: count_where_key split: option.split)

text \<open>
  How a table may evolve: rows keep their place and their key, only rows that satisfy \<open>p\<close>
  change, and new rows are appended.
\<close>

definition rows_evolve :: "('r \<Rightarrow> bool) \<Rightarrow> ('r \<Rightarrow> 'k) \<Rightarrow> 'r list \<Rightarrow> 'r list \<Rightarrow> bool" where
  "rows_evolve p key xs ys \<longleftrightarrow>
     (\<exists>f new. ys = map f xs @ new \<and> (\<forall>x. \<not> p x \<longrightarrow> f x = x) \<and> (\<forall>x. key (f x) = key x))"

lemma rows_evolve_refl [intro, simp]: "rows_evolve p key xs xs"
  unfolding rows_evolve_def by (rule exI [of _ id]) simp

lemma rows_evolve_update:
  assumes "\<And>x. q x \<Longrightarrow> p x" and "\<And>x. key (f x) = key x"
  shows "rows_evolve p key xs (update_where q f xs)"
  unfolding rows_evolve_def update_where_def
  by (rule exI [of _ "\<lambda>r. if q r then f r else r"]) (use assms in auto)

lemma rows_evolve_append: "rows_evolve p key xs (xs @ new)"
  unfolding rows_evolve_def by (rule exI [of _ id]) simp

lemma rows_evolve_trans:
  assumes "rows_evolve p key xs ys" and "rows_evolve p key ys zs"
  shows "rows_evolve p key xs zs"
proof -
  obtain f a where f: "ys = map f xs @ a" "\<forall>x. \<not> p x \<longrightarrow> f x = x" "\<forall>x. key (f x) = key x"
    using assms(1) unfolding rows_evolve_def by blast
  obtain g b where g: "zs = map g ys @ b" "\<forall>x. \<not> p x \<longrightarrow> g x = x" "\<forall>x. key (g x) = key x"
    using assms(2) unfolding rows_evolve_def by blast
  have "zs = map (g \<circ> f) xs @ (map g a @ b)" using f(1) g(1) by simp
  moreover have "\<forall>x. \<not> p x \<longrightarrow> (g \<circ> f) x = x" using f(2) g(2) by simp
  moreover have "\<forall>x. key ((g \<circ> f) x) = key x" using f(3) g(3) by simp
  ultimately show ?thesis unfolding rows_evolve_def by blast
qed

lemma rows_evolve_final:
  "rows_evolve p key xs ys \<Longrightarrow> x \<in> set xs \<Longrightarrow> \<not> p x \<Longrightarrow> x \<in> set ys"
  unfolding rows_evolve_def by force

lemma rows_evolve_key: "rows_evolve p key xs ys \<Longrightarrow> k \<in> key ` set xs \<Longrightarrow> k \<in> key ` set ys"
  by (auto simp: rows_evolve_def image_Un image_image)

lemma rows_evolve_weaken:
  "rows_evolve p key xs ys \<Longrightarrow> (\<And>x. p x \<Longrightarrow> q x) \<Longrightarrow> rows_evolve q key xs ys"
  unfolding rows_evolve_def by blast

subsection \<open>Dictionaries and bounded queues\<close>

text \<open>
  A Python \<^verbatim>\<open>dict\<close> is an association list without repeated keys; \<open>AList.update\<close> replaces a
  value in place and appends a new key, \<open>AList.delete\<close> is \<^verbatim>\<open>pop(key, None)\<close>.
\<close>

abbreviation dict_set :: "'k \<Rightarrow> 'v \<Rightarrow> ('k \<times> 'v) list \<Rightarrow> ('k \<times> 'v) list" where
  "dict_set \<equiv> AList.update"

abbreviation dict_pop :: "'k \<Rightarrow> ('k \<times> 'v) list \<Rightarrow> ('k \<times> 'v) list" where
  "dict_pop \<equiv> AList.delete"

lemma map_of_dict_set [simp]: "map_of (dict_set k v d) = (map_of d)(k \<mapsto> v)"
  by (rule update_conv')

lemma map_of_dict_pop [simp]: "map_of (dict_pop k d) = (map_of d)(k := None)"
  by (rule delete_conv')

lemma set_dict_set: "set (dict_set k v d) \<subseteq> insert (k, v) (set d)"
  by (induction d) auto

lemma distinct_dict_set [intro]:
  "distinct (map fst d) \<Longrightarrow> distinct (map fst (dict_set k v d))"
  by (rule distinct_update)

lemma distinct_dict_pop [intro]:
  "distinct (map fst d) \<Longrightarrow> distinct (map fst (dict_pop k d))"
  by (rule distinct_delete)

text \<open>\<^verbatim>\<open>asyncio.Queue.put_nowait\<close>: \<open>None\<close> stands for \<^verbatim>\<open>QueueFull\<close>.\<close>

definition put_nowait :: "nat \<Rightarrow> 'a list \<Rightarrow> 'a \<Rightarrow> 'a list option" where
  "put_nowait capacity q x = (if length q < capacity then Some (q @ [x]) else None)"

lemma put_nowait_bound: "put_nowait n q x = Some q' \<Longrightarrow> length q' \<le> n"
  by (auto simp: put_nowait_def split: if_splits)

end
