(* ===== verification/Py_String.thy ===== *)
theory Py_String
  imports Prelude
begin

text \<open>
  The part of Python's string library the program calls. A Python string is a \<open>string\<close>, one
  \<open>char\<close> per code point: the model covers the code points below 256 (Latin-1), and every
  predicate below is Python's on that range (so \<^verbatim>\<open>isdigit\<close> holds of the superscript digits, as
  in Python, and \<^verbatim>\<open>strip\<close> removes U+0085 and U+00A0). The one case folding that leaves the
  range, U+00B5, is left unchanged.
\<close>

abbreviation ord :: "char \<Rightarrow> nat" where
  "ord c \<equiv> of_char c"

definition is_py_space :: "char \<Rightarrow> bool" where
  "is_py_space c \<longleftrightarrow> (9 \<le> ord c \<and> ord c \<le> 13) \<or> (28 \<le> ord c \<and> ord c \<le> 32) \<or>
     ord c = 133 \<or> ord c = 160"

definition is_ascii_digit :: "char \<Rightarrow> bool" where
  "is_ascii_digit c \<longleftrightarrow> 48 \<le> ord c \<and> ord c \<le> 57"

definition is_digit_char :: "char \<Rightarrow> bool" where
  "is_digit_char c \<longleftrightarrow> is_ascii_digit c \<or> ord c = 178 \<or> ord c = 179 \<or> ord c = 185"

text \<open>The regular-expression class of word characters (letters, digits, underscore).\<close>

definition is_word_char :: "char \<Rightarrow> bool" where
  "is_word_char c \<longleftrightarrow> is_ascii_digit c \<or> (65 \<le> ord c \<and> ord c \<le> 90) \<or> ord c = 95 \<or>
     (97 \<le> ord c \<and> ord c \<le> 122) \<or> ord c \<in> {170, 178, 179, 181, 185, 186, 188, 189, 190} \<or>
     (192 \<le> ord c \<and> ord c \<noteq> 215 \<and> ord c \<noteq> 247)"

definition lower_char :: "char \<Rightarrow> char" where
  "lower_char c = (if (65 \<le> ord c \<and> ord c \<le> 90) \<or> (192 \<le> ord c \<and> ord c \<le> 222 \<and> ord c \<noteq> 215)
     then char_of (ord c + 32) else c)"

definition py_lower :: "string \<Rightarrow> string" where
  "py_lower s = map lower_char s"

definition py_casefold :: "string \<Rightarrow> string" where
  "py_casefold s = concat (map (\<lambda>c. if ord c = 223 then ''ss'' else [lower_char c]) s)"

definition py_lstrip :: "string \<Rightarrow> string" where
  "py_lstrip s = dropWhile is_py_space s"

definition py_rstrip :: "string \<Rightarrow> string" where
  "py_rstrip s = rev (dropWhile is_py_space (rev s))"

definition py_strip :: "string \<Rightarrow> string" where
  "py_strip s = py_rstrip (py_lstrip s)"

text \<open>\<^verbatim>\<open>s.rstrip(chars)\<close> and \<^verbatim>\<open>s.replace(old, new)\<close> for one character.\<close>

definition rstrip_chars :: "char list \<Rightarrow> string \<Rightarrow> string" where
  "rstrip_chars cs s = rev (dropWhile (\<lambda>c. c \<in> set cs) (rev s))"

definition replace_char :: "char \<Rightarrow> string \<Rightarrow> string \<Rightarrow> string" where
  "replace_char old new s = concat (map (\<lambda>c. if c = old then new else [c]) s)"

definition py_isdigit :: "string \<Rightarrow> bool" where
  "py_isdigit s \<longleftrightarrow> s \<noteq> [] \<and> list_all is_digit_char s"

text \<open>
  \<^verbatim>\<open>int(s)\<close> for a string of digit characters: a superscript digit is no decimal digit, and a
  text of more than 4300 digits is refused; both raise \<^verbatim>\<open>ValueError\<close>.
\<close>

definition digits_value :: "string \<Rightarrow> nat" where
  "digits_value s = foldl (\<lambda>n c. 10 * n + (ord c - 48)) 0 s"

definition py_int_of_digits :: "string \<Rightarrow> nat outcome" where
  "py_int_of_digits s =
     (if \<not> list_all is_ascii_digit s then value_error ''invalid literal for int() with base 10''
      else if 4300 < length s then value_error ''Exceeds the limit (4300 digits) for integer string conversion''
      else Inr (digits_value s))"

text \<open>\<^verbatim>\<open>s.partition(c)\<close> for a one-character separator, and \<^verbatim>\<open>sep.join(parts)\<close>.\<close>

definition py_partition :: "char \<Rightarrow> string \<Rightarrow> string \<times> string \<times> string" where
  "py_partition c s =
     (case dropWhile (\<lambda>x. x \<noteq> c) s of
        [] \<Rightarrow> (s, [], [])
      | d # rest \<Rightarrow> (takeWhile (\<lambda>x. x \<noteq> c) s, [d], rest))"

fun py_join :: "string \<Rightarrow> string list \<Rightarrow> string" where
  "py_join sep [] = []"
| "py_join sep [x] = x"
| "py_join sep (x # xs) = x @ sep @ py_join sep xs"

definition is_line_break :: "char \<Rightarrow> bool" where
  "is_line_break c \<longleftrightarrow> (10 \<le> ord c \<and> ord c \<le> 13) \<or> (28 \<le> ord c \<and> ord c \<le> 30) \<or> ord c = 133"

text \<open>
  \<^verbatim>\<open>s.splitlines(keepends=True)\<close>: the accumulator holds the current line in reverse; a carriage
  return followed by a line feed ends one line.
\<close>

fun split_keepends :: "string \<Rightarrow> string \<Rightarrow> string list" where
  "split_keepends acc [] = (if acc = [] then [] else [rev acc])"
| "split_keepends acc (c # cs) =
     (if \<not> is_line_break c then split_keepends (c # acc) cs
      else if ord c = 13
      then (case cs of
              d # ds \<Rightarrow> if ord d = 10 then rev (d # c # acc) # split_keepends [] ds
                        else rev (c # acc) # split_keepends [] cs
            | [] \<Rightarrow> [rev (c # acc)])
      else rev (c # acc) # split_keepends [] cs)"

definition splitlines_keepends :: "string \<Rightarrow> string list" where
  "splitlines_keepends s = split_keepends [] s"

definition drop_line_break :: "string \<Rightarrow> string" where
  "drop_line_break l = rev (dropWhile is_line_break (rev l))"

definition py_splitlines :: "string \<Rightarrow> string list" where
  "py_splitlines s = map drop_line_break (splitlines_keepends s)"

text \<open>Decimal text of an integer, as \<^verbatim>\<open>str\<close> prints it.\<close>

fun show_nat :: "nat \<Rightarrow> string" where
  "show_nat n = (if n < 10 then [char_of (48 + n)] else show_nat (n div 10) @ [char_of (48 + n mod 10)])"

declare show_nat.simps [simp del]

definition show_int :: "int \<Rightarrow> string" where
  "show_int i = (if i < 0 then CHR ''-'' # show_nat (nat (- i)) else show_nat (nat i))"

end
