(* ===== verification/Py_Json.thy ===== *)
theory Py_Json
  imports Py_String
begin

text \<open>
  JSON values as \<^verbatim>\<open>json.loads\<close> returns them, with the operations the program applies: \<^verbatim>\<open>dict.get\<close>,
  the \<^verbatim>\<open>isinstance\<close> tests, truth values, and \<^verbatim>\<open>json.dumps\<close> without ASCII escaping. Python's
  \<open>None\<close> is \<open>JNull\<close>, which \<^verbatim>\<open>dict.get\<close> also returns for a missing key. A float keeps its text:
  the program never computes with one.
\<close>

datatype json =
    JNull
  | JBool bool
  | JInt int
  | JFloat string
  | JStr string
  | JArr "json list"
  | JObj "(string \<times> json) list"

type_synonym json_object = "(string \<times> json) list"

definition jget :: "json_object \<Rightarrow> string \<Rightarrow> json" where
  "jget d k = (case map_of d k of None \<Rightarrow> JNull | Some v \<Rightarrow> v)"

definition has_key :: "json_object \<Rightarrow> string \<Rightarrow> bool" where
  "has_key d k \<longleftrightarrow> map_of d k \<noteq> None"

fun as_str :: "json \<Rightarrow> string option" where
  "as_str (JStr s) = Some s"
| "as_str _ = None"

fun as_obj :: "json \<Rightarrow> json_object option" where
  "as_obj (JObj d) = Some d"
| "as_obj _ = None"

fun as_arr :: "json \<Rightarrow> json list option" where
  "as_arr (JArr xs) = Some xs"
| "as_arr _ = None"

text \<open>\<^verbatim>\<open>isinstance(v, str) and v\<close>: the string, when it is not empty.\<close>

fun nonempty_str :: "json \<Rightarrow> string option" where
  "nonempty_str (JStr s) = (if s = [] then None else Some s)"
| "nonempty_str _ = None"

text \<open>A value that cannot be a dictionary key or a set element (\<^verbatim>\<open>TypeError: unhashable\<close>).\<close>

fun unhashable :: "json \<Rightarrow> bool" where
  "unhashable (JArr _) = True"
| "unhashable (JObj _) = True"
| "unhashable _ = False"

subsection \<open>JSON-RPC identifiers\<close>

text \<open>An integer or a string; Python's Booleans are integers, and are refused explicitly.\<close>

datatype rpc_id = IdInt int | IdStr string

fun valid_id :: "json \<Rightarrow> rpc_id option" where
  "valid_id (JInt i) = Some (IdInt i)"
| "valid_id (JStr s) = Some (IdStr s)"
| "valid_id _ = None"

fun id_json :: "rpc_id \<Rightarrow> json" where
  "id_json (IdInt i) = JInt i"
| "id_json (IdStr s) = JStr s"

lemma valid_id_json [simp]: "valid_id (id_json i) = Some i"
  by (cases i) auto

lemma valid_id_Some: "valid_id j = Some i \<longleftrightarrow> j = id_json i"
  by (cases j; cases i) auto

subsection \<open>Serialisation\<close>

definition hex_digit :: "nat \<Rightarrow> char" where
  "hex_digit n = (if n < 10 then char_of (48 + n) else char_of (87 + n))"

definition escape_char :: "char \<Rightarrow> string" where
  "escape_char c =
     (if c = CHR ''\<newline>'' then [CHR 0x5C, CHR ''n'']
      else if c = CHR 0x22 then [CHR 0x5C, CHR 0x22]
      else if c = CHR 0x5C then [CHR 0x5C, CHR 0x5C]
      else if c = CHR 0x0D then [CHR 0x5C, CHR ''r'']
      else if c = CHR 0x09 then [CHR 0x5C, CHR ''t'']
      else if c = CHR 0x0C then [CHR 0x5C, CHR ''f'']
      else if c = CHR 0x08 then [CHR 0x5C, CHR ''b'']
      else if ord c < 32
      then [CHR 0x5C, CHR ''u'', CHR ''0'', CHR ''0'', hex_digit (ord c div 16), hex_digit (ord c mod 16)]
      else [c])"

definition dumps_str :: "string \<Rightarrow> string" where
  "dumps_str s = [CHR 0x22] @ concat (map escape_char s) @ [CHR 0x22]"

fun dumps_id :: "rpc_id \<Rightarrow> string" where
  "dumps_id (IdInt i) = show_int i"
| "dumps_id (IdStr s) = dumps_str s"

fun dumps :: "string \<Rightarrow> string \<Rightarrow> json \<Rightarrow> string" where
  "dumps isep ksep JNull = ''null''"
| "dumps isep ksep (JBool b) = (if b then ''true'' else ''false'')"
| "dumps isep ksep (JInt i) = show_int i"
| "dumps isep ksep (JFloat t) = t"
| "dumps isep ksep (JStr s) = dumps_str s"
| "dumps isep ksep (JArr xs) = ''['' @ py_join isep (map (dumps isep ksep) xs) @ '']''"
| "dumps isep ksep (JObj kvs) =
     ''{'' @ py_join isep (map (\<lambda>(k, v). dumps_str k @ ksep @ dumps isep ksep v) kvs) @ ''}''"

subsection \<open>The serialised identifier determines the identifier\<close>

lemma ord_char_of [simp]: "n < 256 \<Longrightarrow> ord (char_of (n :: nat)) = n"
  by (simp add: of_char_of)

lemma digits_value_snoc: "digits_value (xs @ [c]) = 10 * digits_value xs + (ord c - 48)"
  by (simp add: digits_value_def)

lemma digits_value_show_nat [simp]: "digits_value (show_nat n) = n"
proof (induction n rule: show_nat.induct)
  case (1 n)
  show ?case
  proof (cases "n < 10")
    case True
    then show ?thesis by (simp add: show_nat.simps [of n] digits_value_def)
  next
    case False
    then have "digits_value (show_nat n) = 10 * (n div 10) + n mod 10"
      using 1 by (simp add: show_nat.simps [of n] digits_value_snoc)
    then show ?thesis by simp
  qed
qed

lemma show_nat_inj: "show_nat m = show_nat n \<longleftrightarrow> m = n"
  by (metis digits_value_show_nat)

lemma show_nat_digits: "c \<in> set (show_nat n) \<Longrightarrow> is_ascii_digit c"
proof (induction n rule: show_nat.induct)
  case (1 n)
  then show ?case
    by (auto simp: show_nat.simps [of n] is_ascii_digit_def split: if_splits)
qed

lemma show_nat_nonempty [simp]: "show_nat n \<noteq> []"
  by (simp add: show_nat.simps [of n])

lemma show_int_inj: "show_int i = show_int j \<longleftrightarrow> i = j"
proof -
  have minus: "show_nat m \<noteq> CHR ''-'' # s" for m s
  proof
    assume "show_nat m = CHR ''-'' # s"
    then have "is_ascii_digit (CHR ''-'')" using show_nat_digits [of "CHR ''-''" m] by simp
    then show False by (simp add: is_ascii_digit_def)
  qed
  show ?thesis
    using minus minus [symmetric] by (auto simp: show_int_def show_nat_inj)
qed

lemma ord_hex_digit: "n < 16 \<Longrightarrow> ord (hex_digit n) = (if n < 10 then 48 + n else 87 + n)"
  by (simp add: hex_digit_def)

lemma hex_digit_inj:
  assumes "m < 16" and "n < 16"
  shows "hex_digit m = hex_digit n \<longleftrightarrow> m = n"
proof
  assume "hex_digit m = hex_digit n"
  then have "ord (hex_digit m) = ord (hex_digit n)" by simp
  then have "(if m < 10 then 48 + m else 87 + m) = (if n < 10 then 48 + n else 87 + n)"
    by (simp only: ord_hex_digit [OF assms(1)] ord_hex_digit [OF assms(2)])
  then show "m = n" by (auto split: if_splits)
qed simp

text \<open>
  The escapes form a prefix code: a string of escapes can be read back in one way only.
\<close>

lemma ord_inj: "ord c = ord d \<longleftrightarrow> c = d"
  by (metis char_of_char)

lemma hex_pair_inj:
  assumes "ord c < 32" and "ord d < 32"
    and "hex_digit (ord c div 16) = hex_digit (ord d div 16)"
    and "hex_digit (ord c mod 16) = hex_digit (ord d mod 16)"
  shows "c = d"
proof -
  have "ord c div 16 = ord d div 16" "ord c mod 16 = ord d mod 16"
    using assms by (auto simp: hex_digit_inj)
  then have "ord c = ord d" by (metis div_mult_mod_eq)
  then show ?thesis by (simp add: ord_inj)
qed

lemma escape_char_prefix_code:
  "escape_char c @ x = escape_char d @ y \<Longrightarrow> c = d \<and> x = y"
  by (simp add: escape_char_def split: if_splits) (auto intro: hex_pair_inj)

lemma escape_char_not_quote: "escape_char c @ x \<noteq> CHR 0x22 # y"
  by (simp add: escape_char_def split: if_splits)

lemma escape_string_inj:
  "concat (map escape_char s) @ CHR 0x22 # x = concat (map escape_char t) @ CHR 0x22 # y \<Longrightarrow>
   s = t"
proof (induction s arbitrary: t)
  case Nil
  then show ?case by (cases t) (auto simp: escape_char_not_quote [symmetric])
next
  case (Cons c s)
  show ?case
  proof (cases t)
    case Nil
    with Cons.prems show ?thesis by (simp add: escape_char_not_quote)
  next
    case (Cons d t')
    with Cons.prems have "escape_char c @ concat (map escape_char s) @ CHR 0x22 # x =
      escape_char d @ concat (map escape_char t') @ CHR 0x22 # y" by simp
    then have "c = d" "concat (map escape_char s) @ CHR 0x22 # x =
      concat (map escape_char t') @ CHR 0x22 # y" by (blast dest: escape_char_prefix_code)+
    with Cons.IH Cons show ?thesis by blast
  qed
qed

lemma dumps_str_inj: "dumps_str s = dumps_str t \<longleftrightarrow> s = t"
  using escape_string_inj [of s "[]" t "[]"] by (auto simp: dumps_str_def)

lemma show_int_not_quote: "show_int i \<noteq> CHR 0x22 # s"
proof
  assume "show_int i = CHR 0x22 # s"
  then have "CHR 0x22 \<in> set (show_nat (nat (- i))) \<or> CHR 0x22 \<in> set (show_nat (nat i))"
    by (auto simp: show_int_def split: if_splits)
  then have "is_ascii_digit (CHR 0x22)" using show_nat_digits by blast
  then show False by (simp add: is_ascii_digit_def)
qed

lemma dumps_id_inj: "dumps_id a = dumps_id b \<longleftrightarrow> a = b"
  using show_int_not_quote show_int_not_quote [symmetric]
  by (cases a; cases b) (auto simp: show_int_inj dumps_str_inj, auto simp: dumps_str_def)

end
