(* ===== verification/Redaction.thy ===== *)
theory Redaction
  imports Py_String
begin

text \<open>
  \<^verbatim>\<open>core/redaction.py\<close>: the two substitutions that replace secrets in a text. Each regular
  expression is a matcher at one position, and \<^verbatim>\<open>re.sub\<close> is the left-to-right scan over the
  non-overlapping matches; the flag \<open>pw\<close> says that the character before the position is a word
  character, which is what the word boundary at the start of both expressions tests.

  Both expressions are deterministic: the keywords are no prefixes of each other, and white
  space, the separator and the value are disjoint classes at their borders, so a greedy
  matcher without backtracking finds what Python's matcher finds.
\<close>

definition secret_keywords :: "string list" where
  "secret_keywords = [''password'', ''passwd'', ''pwd'', ''token'', ''secret'',
     ''api_key'', ''api-key'', ''apikey'', ''access_token'', ''access-token'', ''accesstoken'']"

definition redacted_mark :: string where
  "redacted_mark = ''[REDACTED]''"

definition is_value_char :: "char \<Rightarrow> bool" where
  "is_value_char c \<longleftrightarrow> \<not> is_py_space c \<and> c \<noteq> CHR '','' \<and> c \<noteq> CHR '';''"

text \<open>A keyword, compared without regard to case, at the start of the text.\<close>

definition match_keyword :: "string \<Rightarrow> string \<Rightarrow> (string \<times> string) option" where
  "match_keyword k s =
     (if py_lower (take (length k) s) = k then Some (take (length k) s, drop (length k) s) else None)"

fun match_keywords :: "string list \<Rightarrow> string \<Rightarrow> (string \<times> string) option" where
  "match_keywords [] s = None"
| "match_keywords (k # ks) s =
     (case match_keyword k s of Some r \<Rightarrow> Some r | None \<Rightarrow> match_keywords ks s)"

definition span_spaces :: "string \<Rightarrow> string \<times> string" where
  "span_spaces s = (takeWhile is_py_space s, dropWhile is_py_space s)"

text \<open>
  \<^verbatim>\<open>_KEY_VALUE_SECRET\<close> at one position: what groups 1 and 2 match, and group 3 with the rest.
\<close>

definition match_kv :: "string \<Rightarrow> (string \<times> string \<times> string) option" where
  "match_kv s =
     (case match_keywords secret_keywords s of
        None \<Rightarrow> None
      | Some (key, s1) \<Rightarrow>
          (case span_spaces s1 of (w1, s2) \<Rightarrow>
            (case s2 of
               [] \<Rightarrow> None
             | c # s3 \<Rightarrow>
                 if c = CHR '':'' \<or> c = CHR ''=''
                 then (case span_spaces s3 of (w2, s4) \<Rightarrow>
                        (let v = takeWhile is_value_char s4
                         in if v = [] then None
                            else Some (key @ w1 @ [c] @ w2, v, dropWhile is_value_char s4)))
                 else None)))"

text \<open>\<^verbatim>\<open>_BEARER_SECRET\<close> at one position.\<close>

definition match_bearer :: "string \<Rightarrow> (string \<times> string \<times> string) option" where
  "match_bearer s =
     (case match_keyword ''authorization'' s of
        None \<Rightarrow> None
      | Some (key, s1) \<Rightarrow>
          (case span_spaces s1 of (w1, s2) \<Rightarrow>
            (case s2 of
               [] \<Rightarrow> None
             | c # s3 \<Rightarrow>
                 if c = CHR '':''
                 then (case span_spaces s3 of (w2, s4) \<Rightarrow>
                        (case match_keyword ''bearer'' s4 of
                           None \<Rightarrow> None
                         | Some (b, s5) \<Rightarrow>
                             (case span_spaces s5 of (w3, s6) \<Rightarrow>
                               (let v = takeWhile is_value_char s6
                                in if w3 = [] \<or> v = [] then None
                                   else Some (key @ w1 @ [c] @ w2 @ b @ w3, v,
                                              dropWhile is_value_char s6)))))
                 else None)))"

text \<open>
  \<^verbatim>\<open>re.sub\<close> with a replacement that keeps the head and writes the mark over the value. The
  scan is the same for the two expressions, so the matcher is a parameter; \<open>n\<close> bounds the
  number of characters left and is taken to be the length of the text.
\<close>

fun scan_redact :: "(string \<Rightarrow> (string \<times> string \<times> string) option) \<Rightarrow> nat \<Rightarrow> bool \<Rightarrow> string \<Rightarrow> string" where
  "scan_redact m 0 pw s = s"
| "scan_redact m (Suc n) pw [] = []"
| "scan_redact m (Suc n) pw (c # cs) =
     (case (if pw then None else m (c # cs)) of
        Some (h, v, rest) \<Rightarrow> h @ redacted_mark @ scan_redact m n (is_word_char (last v)) rest
      | None \<Rightarrow> c # scan_redact m n (is_word_char c) cs)"

definition sub_redact :: "(string \<Rightarrow> (string \<times> string \<times> string) option) \<Rightarrow> string \<Rightarrow> string" where
  "sub_redact m s = scan_redact m (length s) False s"

definition redact_text :: "string \<Rightarrow> string" where
  "redact_text text = sub_redact match_bearer (sub_redact match_kv text)"

subsection \<open>Texts without a separator\<close>

lemma match_keyword_suffix: "match_keyword k s = Some (a, b) \<Longrightarrow> s = a @ b"
  by (simp add: match_keyword_def split: if_split_asm) (metis append_take_drop_id)

lemma match_keywords_suffix: "match_keywords ks s = Some (a, b) \<Longrightarrow> s = a @ b"
  by (induction ks) (auto split: option.splits dest: match_keyword_suffix)

lemma span_spaces_append: "span_spaces s = (a, b) \<Longrightarrow> s = a @ b"
  by (auto simp: span_spaces_def)

abbreviation separator :: "char \<Rightarrow> bool" where
  "separator c \<equiv> c = CHR '':'' \<or> c = CHR ''=''"

lemma match_kv_separator:
  assumes "match_kv s \<noteq> None"
  shows "\<exists>c\<in>set s. separator c"
proof -
  obtain key s1 where k: "match_keywords secret_keywords s = Some (key, s1)"
    using assms by (cases "match_keywords secret_keywords s") (auto simp: match_kv_def)
  obtain w1 s2 where w: "span_spaces s1 = (w1, s2)" by (cases "span_spaces s1")
  have sep: "\<exists>c s3. s2 = c # s3 \<and> separator c"
  proof (cases s2)
    case Nil
    then show ?thesis using assms k w by (simp add: match_kv_def)
  next
    case (Cons c s3)
    then show ?thesis using assms k w by (cases "separator c") (simp_all add: match_kv_def)
  qed
  have "s = key @ w1 @ s2" using match_keywords_suffix [OF k] span_spaces_append [OF w] by simp
  then have "set s2 \<subseteq> set s" by auto
  then show ?thesis using sep by (metis list.set_intros(1) subsetD)
qed

lemma match_bearer_separator:
  assumes "match_bearer s \<noteq> None"
  shows "\<exists>c\<in>set s. separator c"
proof -
  obtain key s1 where k: "match_keyword ''authorization'' s = Some (key, s1)"
    using assms by (cases "match_keyword ''authorization'' s") (auto simp: match_bearer_def)
  obtain w1 s2 where w: "span_spaces s1 = (w1, s2)" by (cases "span_spaces s1")
  have sep: "\<exists>c s3. s2 = c # s3 \<and> separator c"
  proof (cases s2)
    case Nil
    then show ?thesis using assms k w by (simp add: match_bearer_def)
  next
    case (Cons c s3)
    then show ?thesis using assms k w by (cases "c = CHR '':''") (simp_all add: match_bearer_def)
  qed
  have "s = key @ w1 @ s2" using match_keyword_suffix [OF k] span_spaces_append [OF w] by simp
  then have "set s2 \<subseteq> set s" by auto
  then show ?thesis using sep by (metis list.set_intros(1) subsetD)
qed

lemma scan_redact_id:
  "(\<And>t. m t \<noteq> None \<Longrightarrow> \<exists>c\<in>set t. separator c) \<Longrightarrow> \<forall>c\<in>set s. \<not> separator c \<Longrightarrow> scan_redact m n pw s = s"
proof (induction n arbitrary: s pw)
  case (Suc n)
  show ?case
  proof (cases s)
    case (Cons c cs)
    have "m (c # cs) = None" using Suc.prems(1) [of "c # cs"] Suc.prems(2) Cons by (cases "m (c # cs)") auto
    moreover have "scan_redact m n q cs = cs" for q
      using Suc.IH [of cs q] Suc.prems Cons by simp
    ultimately show ?thesis using Cons by simp
  qed simp
qed simp

lemma redact_text_plain:
  assumes "\<forall>c\<in>set s. \<not> separator c"
  shows "redact_text s = s"
proof -
  have "scan_redact match_kv n pw s = s" "scan_redact match_bearer n pw s = s" for n pw
    by (rule scan_redact_id [OF _ assms]; erule match_kv_separator match_bearer_separator)+
  then show ?thesis by (simp add: redact_text_def sub_redact_def)
qed

text \<open>Evaluation takes the short way where it can.\<close>

lemma redact_text_code [code]:
  "redact_text s = (if list_all (\<lambda>c. \<not> separator c) s then s
     else sub_redact match_bearer (sub_redact match_kv s))"
  using redact_text_plain [of s] by (auto simp: list_all_iff redact_text_def)

end
