(* ===== verification/Codex_Model.thy ===== *)
theory Codex_Model
  imports Py_Json Redaction
begin

text \<open>
  The data model: \<^verbatim>\<open>modules/codex/codex_model.py\<close>, the enumerations of
  \<^verbatim>\<open>modules/agent/agent_model.py\<close> it uses, and the summary helper of
  \<^verbatim>\<open>modules/codex/codex_mapper.py\<close>. An enumeration is a datatype with its text
  (\<^verbatim>\<open>.value\<close>) and its constructor from text, which raises on an unknown value. A pydantic model is
  a record; its validators are the \<open>\<dots>_valid\<close> predicates. Times are instants in UTC, so the
  normalisation of time zones is the identity.
\<close>

subsection \<open>Enumerations\<close>

datatype agent_kind = CODEX | CLAUDE

datatype session_status =
    S_STARTING | S_RUNNING | S_WAITING_FOR_APPROVAL | S_WAITING_FOR_INPUT
  | S_SUCCEEDED | S_FAILED | S_INTERRUPTED | S_CANCELLED

datatype interaction_status = I_PENDING | I_RESOLVED | I_EXPIRED | I_CANCELLED

datatype interaction_kind = EXEC_APPROVAL | FILE_CHANGE_APPROVAL | PERMISSION_REQUEST | USER_INPUT

datatype interaction_decision = APPROVED | DENIED | ACCEPT | DECLINE | GRANTED | SUBMITTED

fun agent_value :: "agent_kind \<Rightarrow> string" where
  "agent_value CODEX = ''codex''"
| "agent_value CLAUDE = ''claude''"

fun session_status_value :: "session_status \<Rightarrow> string" where
  "session_status_value S_STARTING = ''starting''"
| "session_status_value S_RUNNING = ''running''"
| "session_status_value S_WAITING_FOR_APPROVAL = ''waiting_for_approval''"
| "session_status_value S_WAITING_FOR_INPUT = ''waiting_for_input''"
| "session_status_value S_SUCCEEDED = ''succeeded''"
| "session_status_value S_FAILED = ''failed''"
| "session_status_value S_INTERRUPTED = ''interrupted''"
| "session_status_value S_CANCELLED = ''cancelled''"

fun kind_value :: "interaction_kind \<Rightarrow> string" where
  "kind_value EXEC_APPROVAL = ''exec_approval''"
| "kind_value FILE_CHANGE_APPROVAL = ''file_change_approval''"
| "kind_value PERMISSION_REQUEST = ''permission_request''"
| "kind_value USER_INPUT = ''user_input''"

fun decision_value :: "interaction_decision \<Rightarrow> string" where
  "decision_value APPROVED = ''approved''"
| "decision_value DENIED = ''denied''"
| "decision_value ACCEPT = ''accept''"
| "decision_value DECLINE = ''decline''"
| "decision_value GRANTED = ''granted''"
| "decision_value SUBMITTED = ''submitted''"

definition all_agents :: "agent_kind list" where
  "all_agents = [CODEX, CLAUDE]"

definition all_statuses :: "session_status list" where
  "all_statuses = [S_STARTING, S_RUNNING, S_WAITING_FOR_APPROVAL, S_WAITING_FOR_INPUT,
     S_SUCCEEDED, S_FAILED, S_INTERRUPTED, S_CANCELLED]"

definition all_decisions :: "interaction_decision list" where
  "all_decisions = [APPROVED, DENIED, ACCEPT, DECLINE, GRANTED, SUBMITTED]"

text \<open>\<^verbatim>\<open>Enum(text)\<close>: the member with that text; \<open>None\<close> stands for the \<^verbatim>\<open>ValueError\<close>.\<close>

definition agent_of :: "string \<Rightarrow> agent_kind option" where
  "agent_of s = find (\<lambda>a. agent_value a = s) all_agents"

definition session_status_of :: "string \<Rightarrow> session_status option" where
  "session_status_of s = find (\<lambda>v. session_status_value v = s) all_statuses"

definition decision_of :: "string \<Rightarrow> interaction_decision option" where
  "decision_of s = find (\<lambda>d. decision_value d = s) all_decisions"

lemma agent_of_value [simp]: "agent_of (agent_value a) = Some a"
  by (cases a) (simp_all add: agent_of_def all_agents_def)

lemma session_status_of_value [simp]: "session_status_of (session_status_value s) = Some s"
  by (cases s) (simp_all add: session_status_of_def all_statuses_def)

lemma decision_of_value [simp]: "decision_of (decision_value d) = Some d"
  by (cases d) (simp_all add: decision_of_def all_decisions_def)

lemma decision_value_inj: "decision_value a = decision_value b \<longleftrightarrow> a = b"
  by (metis decision_of_value option.inject)

subsection \<open>Models\<close>

record codex_session =
  s_id :: string
  s_thread_id :: "string option"
  s_turn_id :: "string option"
  s_name :: string
  s_cwd :: string
  s_model :: "string option"
  s_sandbox :: string
  s_status :: session_status
  s_summary :: string
  s_created_at :: instant
  s_updated_at :: instant

record pending_interaction =
  i_id :: string
  i_session_id :: string
  i_request_id :: string
  i_kind :: interaction_kind
  i_status :: interaction_status
  i_lark_message_id :: "string option"
  i_payload_summary :: string
  i_requested_at :: instant
  i_resolved_at :: "instant option"
  i_expires_at :: instant
  i_actor_id :: "string option"
  i_decision :: "interaction_decision option"

record outbox_item =
  o_id :: int
  o_session_id :: "string option"
  o_agent :: "string option"
  o_session_name :: "string option"
  o_interaction_id :: "string option"
  o_notification_type :: string
  o_payload_summary :: string
  o_attempt_count :: int
  o_next_attempt_at :: instant
  o_sent_at :: "instant option"
  o_last_error :: "string option"
  o_created_at :: instant

record audit_entry =
  a_id :: int
  a_session_id :: "string option"
  a_interaction_id :: "string option"
  a_event_type :: string
  a_actor_id :: "string option"
  a_detail_summary :: string
  a_created_at :: instant

text \<open>\<^verbatim>\<open>_pending_has_no_resolution_metadata\<close>: the validator of \<^verbatim>\<open>PendingInteraction\<close>.\<close>

definition interaction_valid :: "pending_interaction \<Rightarrow> bool" where
  "interaction_valid i \<longleftrightarrow>
     \<not> (i_status i = I_PENDING \<and>
        (i_resolved_at i \<noteq> None \<or> i_actor_id i \<noteq> None \<or> i_decision i \<noteq> None))"

subsection \<open>Summaries\<close>

definition SUMMARY_LIMIT :: nat where
  "SUMMARY_LIMIT = 2000"

definition safe_summary :: "string \<Rightarrow> string" where
  "safe_summary value = take SUMMARY_LIMIT (redact_text value)"

lemma safe_summary_length: "length (safe_summary v) \<le> SUMMARY_LIMIT"
  by (simp add: safe_summary_def)

end
