(* ===== verification/Codex_Store.thy ===== *)
theory Codex_Store
  imports Codex_Model
begin

text \<open>
  \<^verbatim>\<open>modules/codex/codex_store.py\<close>: the SQLite store of sessions, interactions, received events,
  the notification outbox and the audit log. A table is the list of its rows in the order of
  insertion; a statement is an update of the rows its \<^verbatim>\<open>WHERE\<close> clause selects, and the row count
  is the number of rows selected. A method that commits returns the new store, one that raises
  returns \<open>Inl\<close>: the transaction is rolled back, so there is no new store. The unique indexes,
  the primary keys and the foreign keys of the schema (version 3, \<^verbatim>\<open>PRAGMA foreign_keys = ON\<close>)
  are checked by the inserts, which raise \<^verbatim>\<open>IntegrityError\<close>. A query without \<^verbatim>\<open>ORDER BY\<close> scans the
  rows in order. \<open>nw\<close> is the wall clock a method reads when it is given no time.
\<close>

record codex_store =
  sessions :: "codex_session list"
  interactions :: "pending_interaction list"
  event_dedupe :: "(string \<times> instant) list"
  outbox :: "outbox_item list"
  outbox_seq :: int
  audit :: "audit_entry list"
  audit_seq :: int
  store_closed :: bool

definition empty_store :: codex_store where
  "empty_store = \<lparr>sessions = [], interactions = [], event_dedupe = [], outbox = [], outbox_seq = 0,
     audit = [], audit_seq = 0, store_closed = False\<rparr>"

definition ACTIVE_SESSION_STATUSES :: "session_status list" where
  "ACTIVE_SESSION_STATUSES = [S_STARTING, S_RUNNING, S_WAITING_FOR_APPROVAL, S_WAITING_FOR_INPUT]"

definition TERMINAL_SESSION_STATUSES :: "session_status list" where
  "TERMINAL_SESSION_STATUSES = [S_SUCCEEDED, S_FAILED, S_INTERRUPTED, S_CANCELLED]"

fun ALLOWED_DECISIONS :: "interaction_kind \<Rightarrow> interaction_decision list" where
  "ALLOWED_DECISIONS EXEC_APPROVAL = [APPROVED, DENIED]"
| "ALLOWED_DECISIONS FILE_CHANGE_APPROVAL = [ACCEPT, DECLINE]"
| "ALLOWED_DECISIONS PERMISSION_REQUEST = [GRANTED, DENIED]"
| "ALLOWED_DECISIONS USER_INPUT = []"

definition is_active :: "session_status \<Rightarrow> bool" where
  "is_active s \<longleftrightarrow> s \<in> set ACTIVE_SESSION_STATUSES"

definition is_pending :: "pending_interaction \<Rightarrow> bool" where
  "is_pending i \<longleftrightarrow> i_status i = I_PENDING"

subsection \<open>Connections, row mapping, decisions\<close>

definition with_connection :: "codex_store \<Rightarrow> 'a outcome \<Rightarrow> 'a outcome" where
  "with_connection st body =
     (if store_closed st then runtime_error ''SQLiteCodexStore is closed'' else body)"

definition store_close :: "codex_store \<Rightarrow> codex_store" where
  "store_close st = st\<lparr>store_closed := True\<rparr>"

definition interaction_from_row :: "pending_interaction \<Rightarrow> pending_interaction outcome" where
  "interaction_from_row row =
     (if interaction_valid row then Inr row
      else Inl (Exn ''ValidationError'' ''pending interaction cannot contain resolution metadata''))"

definition outbox_from_row :: "outbox_item \<Rightarrow> outbox_item outcome" where
  "outbox_from_row row =
     (case o_agent row of
        None \<Rightarrow> Inr row
      | Some a \<Rightarrow> (if agent_of a = None then Inl (Exn ''ValidationError'' ''agent'') else Inr row))"

fun map_outcome :: "('a \<Rightarrow> 'b outcome) \<Rightarrow> 'a list \<Rightarrow> 'b list outcome" where
  "map_outcome f [] = Inr []"
| "map_outcome f (x # xs) =
     (case f x of Inl e \<Rightarrow> Inl e
      | Inr y \<Rightarrow> (case map_outcome f xs of Inl e \<Rightarrow> Inl e | Inr ys \<Rightarrow> Inr (y # ys)))"

definition fetch_interaction :: "pending_interaction option \<Rightarrow> pending_interaction option outcome" where
  "fetch_interaction row =
     (case row of None \<Rightarrow> Inr None
      | Some r \<Rightarrow> (case interaction_from_row r of Inl e \<Rightarrow> Inl e | Inr i \<Rightarrow> Inr (Some i)))"

definition normalize_decision :: "interaction_kind \<Rightarrow> string \<Rightarrow> interaction_decision outcome" where
  "normalize_decision kind decision =
     (if kind = USER_INPUT then Inr SUBMITTED
      else case decision_of decision of
             None \<Rightarrow> value_error (''invalid decision for '' @ kind_value kind)
           | Some normalized \<Rightarrow>
               (if normalized \<notin> set (ALLOWED_DECISIONS kind)
                then value_error (''invalid decision for '' @ kind_value kind)
                else Inr normalized))"

subsection \<open>Sessions\<close>

definition store_create_session :: "codex_session \<Rightarrow> codex_store \<Rightarrow> codex_store outcome" where
  "store_create_session session st = with_connection st
     (if s_id session \<in> s_id ` set (sessions st)
      then Inl (Exn ''IntegrityError'' ''UNIQUE constraint failed: codex_sessions.id'')
      else Inr (st\<lparr>sessions := sessions st @
             [session\<lparr>s_summary := safe_summary (s_summary session)\<rparr>]\<rparr>))"

definition store_get_session :: "string \<Rightarrow> codex_store \<Rightarrow> codex_session option outcome" where
  "store_get_session session_id st = with_connection st
     (Inr (find (\<lambda>s. s_id s = session_id) (sessions st)))"

definition store_get_session_by_thread :: "string \<Rightarrow> codex_store \<Rightarrow> codex_session option outcome" where
  "store_get_session_by_thread thread_id st = with_connection st
     (Inr (find (\<lambda>s. s_thread_id s = Some thread_id) (sessions st)))"

definition store_list_sessions :: "session_status option \<Rightarrow> codex_store \<Rightarrow> codex_session list outcome" where
  "store_list_sessions status st = with_connection st
     (Inr (sort_key (\<lambda>s. (s_created_at s, s_id s))
        (case status of None \<Rightarrow> sessions st
         | Some v \<Rightarrow> filter (\<lambda>s. s_status s = v) (sessions st))))"

text \<open>The assignments of an \<^verbatim>\<open>UPDATE codex_sessions\<close>: \<open>None\<close> leaves the column alone (\<^verbatim>\<open>_UNSET\<close>).\<close>

definition assign_session ::
  "session_status option \<Rightarrow> string option option \<Rightarrow> string option option \<Rightarrow> string option \<Rightarrow>
   instant \<Rightarrow> codex_session \<Rightarrow> codex_session" where
  "assign_session status thread_id turn_id summary ts s =
     s\<lparr>s_status := opt_or status (s_status s),
       s_thread_id := opt_or thread_id (s_thread_id s),
       s_turn_id := opt_or turn_id (s_turn_id s),
       s_summary := (case summary of None \<Rightarrow> s_summary s | Some v \<Rightarrow> safe_summary v),
       s_updated_at := ts\<rparr>"

definition store_update_session ::
  "string \<Rightarrow> session_status option \<Rightarrow> string option option \<Rightarrow> string option option \<Rightarrow>
   string option \<Rightarrow> instant option \<Rightarrow> instant \<Rightarrow> codex_store \<Rightarrow>
   (codex_session option \<times> codex_store) outcome" where
  "store_update_session session_id status thread_id turn_id summary updated_at nw st =
     (if status = None \<and> thread_id = None \<and> turn_id = None \<and> summary = None
      then (case store_get_session session_id st of Inl e \<Rightarrow> Inl e | Inr s \<Rightarrow> Inr (s, st))
      else with_connection st
        (let st' = st\<lparr>sessions := update_where (\<lambda>s. s_id s = session_id)
               (assign_session status thread_id turn_id summary (opt_or updated_at nw)) (sessions st)\<rparr>
         in case store_get_session session_id st' of Inl e \<Rightarrow> Inl e | Inr s \<Rightarrow> Inr (s, st')))"

definition store_update_session_if_status ::
  "string \<Rightarrow> session_status list \<Rightarrow> session_status \<Rightarrow> string option option \<Rightarrow> string option option \<Rightarrow>
   string option \<Rightarrow> instant option \<Rightarrow> instant \<Rightarrow> codex_store \<Rightarrow> (bool \<times> codex_store) outcome" where
  "store_update_session_if_status session_id expected status thread_id turn_id summary updated_at nw st =
     (if expected = [] then Inr (False, st)
      else with_connection st
        (let sel = (\<lambda>s. s_id s = session_id \<and> s_status s \<in> set expected)
         in Inr (count_where sel (sessions st) = 1,
              st\<lparr>sessions := update_where sel
                  (assign_session (Some status) thread_id turn_id summary (opt_or updated_at nw))
                  (sessions st)\<rparr>)))"

subsection \<open>Interactions\<close>

text \<open>
  \<^verbatim>\<open>INSERT INTO codex_interactions\<close> under the constraints of the table: the primary key, the unique
  index on the request of the pending rows, and the foreign key to the session.
\<close>

definition insert_interaction :: "pending_interaction \<Rightarrow> codex_store \<Rightarrow> codex_store outcome" where
  "insert_interaction i st =
     (if i_id i \<in> i_id ` set (interactions st)
      then Inl (Exn ''IntegrityError'' ''UNIQUE constraint failed: codex_interactions.id'')
      else if is_pending i \<and> (\<exists>r\<in>set (interactions st). is_pending r \<and> i_request_id r = i_request_id i)
      then Inl (Exn ''IntegrityError'' ''UNIQUE constraint failed: codex_interactions.request_id'')
      else if i_session_id i \<notin> s_id ` set (sessions st)
      then Inl (Exn ''IntegrityError'' ''FOREIGN KEY constraint failed'')
      else Inr (st\<lparr>interactions := interactions st @
             [i\<lparr>i_payload_summary := safe_summary (i_payload_summary i)\<rparr>]\<rparr>))"

definition store_create_interaction :: "pending_interaction \<Rightarrow> codex_store \<Rightarrow> codex_store outcome" where
  "store_create_interaction i st =
     (if \<not> interaction_valid i
      then value_error ''pending interaction cannot contain resolution metadata''
      else with_connection st (insert_interaction i st))"

definition store_create_interaction_and_mark_waiting ::
  "pending_interaction \<Rightarrow> session_status \<Rightarrow> instant \<Rightarrow> codex_store \<Rightarrow> (bool \<times> codex_store) outcome" where
  "store_create_interaction_and_mark_waiting i waiting_status updated_at st =
     (if waiting_status \<notin> {S_WAITING_FOR_APPROVAL, S_WAITING_FOR_INPUT}
      then value_error ''waiting_status must be a waiting session status''
      else if \<not> interaction_valid i
      then Inl (Exn ''ValidationError'' ''pending interaction cannot contain resolution metadata'')
      else with_connection st
        (let sel = (\<lambda>s. s_id s = i_session_id i \<and> is_active (s_status s));
             st1 = st\<lparr>sessions := update_where sel
                      (\<lambda>s. s\<lparr>s_status := waiting_status, s_updated_at := updated_at\<rparr>) (sessions st)\<rparr>
         in if count_where sel (sessions st) \<noteq> 1 then Inr (False, st1)
            else case insert_interaction i st1 of
                   Inl e \<Rightarrow> Inr (False, st)
                 | Inr st2 \<Rightarrow> Inr (True, st2)))"

definition store_get_interaction :: "string \<Rightarrow> codex_store \<Rightarrow> pending_interaction option outcome" where
  "store_get_interaction interaction_id st = with_connection st
     (fetch_interaction (find (\<lambda>i. i_id i = interaction_id) (interactions st)))"

definition store_get_pending_interaction :: "string \<Rightarrow> codex_store \<Rightarrow> pending_interaction option outcome" where
  "store_get_pending_interaction request_id st = with_connection st
     (fetch_interaction (find (\<lambda>i. i_request_id i = request_id \<and> is_pending i) (interactions st)))"

definition store_get_pending_by_lark_message_id ::
  "string \<Rightarrow> codex_store \<Rightarrow> pending_interaction option outcome" where
  "store_get_pending_by_lark_message_id message_id st =
     (if message_id = [] then Inr None
      else with_connection st (fetch_interaction
        (find (\<lambda>i. i_lark_message_id i = Some message_id \<and> is_pending i) (interactions st))))"

definition store_attach_lark_message_id ::
  "string \<Rightarrow> string \<Rightarrow> codex_store \<Rightarrow> (bool \<times> codex_store) outcome" where
  "store_attach_lark_message_id interaction_id message_id st = with_connection st
     (let sel = (\<lambda>i. i_id i = interaction_id \<and> is_pending i \<and> i_lark_message_id i = None)
      in Inr (count_where sel (interactions st) = 1,
           st\<lparr>interactions := update_where sel (\<lambda>i. i\<lparr>i_lark_message_id := Some message_id\<rparr>)
                (interactions st)\<rparr>))"

text \<open>The columns a decided, and a merely closed, interaction row receives.\<close>

definition decide_row ::
  "interaction_status \<Rightarrow> interaction_decision \<Rightarrow> string \<Rightarrow> instant \<Rightarrow> pending_interaction \<Rightarrow>
   pending_interaction" where
  "decide_row status decision actor_id ts i =
     i\<lparr>i_status := status, i_decision := Some decision, i_actor_id := Some actor_id,
       i_resolved_at := Some ts\<rparr>"

definition close_row :: "interaction_status \<Rightarrow> instant \<Rightarrow> pending_interaction \<Rightarrow> pending_interaction" where
  "close_row status ts i = i\<lparr>i_status := status, i_resolved_at := Some ts\<rparr>"

definition store_resolve_interaction ::
  "string \<Rightarrow> string \<Rightarrow> string \<Rightarrow> instant option \<Rightarrow> instant \<Rightarrow> codex_store \<Rightarrow> (bool \<times> codex_store) outcome" where
  "store_resolve_interaction interaction_id decision actor_id resolved_at nw st = with_connection st
     (case find (\<lambda>i. i_id i = interaction_id) (interactions st) of
        None \<Rightarrow> Inr (False, st)
      | Some row \<Rightarrow>
          (case normalize_decision (i_kind row) decision of
             Inl e \<Rightarrow> Inl e
           | Inr d \<Rightarrow>
               (let sel = (\<lambda>i. i_id i = interaction_id \<and> is_pending i)
                in Inr (count_where sel (interactions st) = 1,
                     st\<lparr>interactions := update_where sel
                          (decide_row I_RESOLVED d actor_id (opt_or resolved_at nw))
                          (interactions st)\<rparr>))))"

text \<open>The status a session returns to, from the interactions it still waits for.\<close>

definition pending_of_session :: "string \<Rightarrow> pending_interaction list \<Rightarrow> pending_interaction list" where
  "pending_of_session session_id rows = filter (\<lambda>i. i_session_id i = session_id \<and> is_pending i) rows"

definition refreshed_status :: "interaction_kind list \<Rightarrow> session_status" where
  "refreshed_status pending_kinds =
     (if USER_INPUT \<in> set pending_kinds then S_WAITING_FOR_INPUT
      else if pending_kinds \<noteq> [] then S_WAITING_FOR_APPROVAL
      else S_RUNNING)"

definition refresh_session :: "string \<Rightarrow> instant \<Rightarrow> codex_store \<Rightarrow> codex_store" where
  "refresh_session session_id ts st =
     (let next = refreshed_status (map i_kind (pending_of_session session_id (interactions st)))
      in st\<lparr>sessions := update_where (\<lambda>s. s_id s = session_id \<and> is_active (s_status s))
              (\<lambda>s. s\<lparr>s_status := next, s_updated_at := ts\<rparr>) (sessions st)\<rparr>)"

definition store_resolve_interaction_and_refresh_session ::
  "string \<Rightarrow> string \<Rightarrow> string \<Rightarrow> instant \<Rightarrow> interaction_status \<Rightarrow> codex_store \<Rightarrow>
   (bool \<times> codex_store) outcome" where
  "store_resolve_interaction_and_refresh_session interaction_id decision actor_id updated_at status st =
     (if status \<notin> {I_RESOLVED, I_EXPIRED}
      then value_error ''status must be resolved or expired''
      else with_connection st
        (case find (\<lambda>i. i_id i = interaction_id) (interactions st) of
           None \<Rightarrow> Inr (False, st)
         | Some row \<Rightarrow>
             (case normalize_decision (i_kind row) decision of
                Inl e \<Rightarrow> Inl e
              | Inr d \<Rightarrow>
                  (let sel = (\<lambda>i. i_id i = interaction_id \<and> is_pending i);
                       st1 = st\<lparr>interactions := update_where sel
                               (decide_row status d actor_id updated_at) (interactions st)\<rparr>
                   in if count_where sel (interactions st) \<noteq> 1 then Inr (False, st1)
                      else Inr (True, refresh_session (i_session_id row) updated_at st1)))))"

definition store_cancel_interaction_and_refresh_session ::
  "string \<Rightarrow> instant \<Rightarrow> codex_store \<Rightarrow> (bool \<times> codex_store) outcome" where
  "store_cancel_interaction_and_refresh_session interaction_id updated_at st = with_connection st
     (case find (\<lambda>i. i_id i = interaction_id) (interactions st) of
        None \<Rightarrow> Inr (False, st)
      | Some row \<Rightarrow>
          (let sel = (\<lambda>i. i_id i = interaction_id \<and> is_pending i);
               st1 = st\<lparr>interactions := update_where sel (close_row I_CANCELLED updated_at)
                        (interactions st)\<rparr>
           in if count_where sel (interactions st) \<noteq> 1 then Inr (False, st1)
              else Inr (True, refresh_session (i_session_id row) updated_at st1)))"

text \<open>
  Closing every pending interaction of a session, with the closed identifiers in order.
\<close>

definition pending_ids :: "string \<Rightarrow> pending_interaction list \<Rightarrow> string list" where
  "pending_ids session_id rows = sort (map i_id (pending_of_session session_id rows))"

definition close_pending ::
  "string \<Rightarrow> interaction_status \<Rightarrow> instant \<Rightarrow> pending_interaction list \<Rightarrow> pending_interaction list" where
  "close_pending session_id status ts rows =
     update_where (\<lambda>i. i_session_id i = session_id \<and> is_pending i) (close_row status ts) rows"

definition store_claim_session_terminal ::
  "string \<Rightarrow> session_status \<Rightarrow> string \<Rightarrow> interaction_status \<Rightarrow> instant \<Rightarrow> codex_store \<Rightarrow>
   (string list option \<times> codex_store) outcome" where
  "store_claim_session_terminal session_id terminal_status summary pending_status updated_at st =
     (if terminal_status \<notin> set TERMINAL_SESSION_STATUSES
      then value_error ''terminal_status must be terminal''
      else if pending_status \<notin> {I_EXPIRED, I_CANCELLED}
      then value_error ''pending_status must be expired or cancelled''
      else with_connection st
        (let sel = (\<lambda>s. s_id s = session_id \<and> is_active (s_status s));
             st1 = st\<lparr>sessions := update_where sel
                     (\<lambda>s. s\<lparr>s_status := terminal_status, s_summary := safe_summary summary,
                            s_updated_at := updated_at\<rparr>) (sessions st)\<rparr>
         in if count_where sel (sessions st) \<noteq> 1 then Inr (None, st1)
            else Inr (Some (pending_ids session_id (interactions st)),
                   st1\<lparr>interactions := close_pending session_id pending_status updated_at
                          (interactions st)\<rparr>)))"

definition store_finish_interactive_turn ::
  "string \<Rightarrow> string \<Rightarrow> string \<Rightarrow> instant \<Rightarrow> codex_store \<Rightarrow> (string list option \<times> codex_store) outcome" where
  "store_finish_interactive_turn session_id turn_id summary updated_at st =
     (if turn_id = [] then value_error ''turn_id must be a non-empty string''
      else with_connection st
        (let sel = (\<lambda>s. s_id s = session_id \<and> s_turn_id s = Some turn_id \<and> is_active (s_status s));
             st1 = st\<lparr>sessions := update_where sel
                     (\<lambda>s. s\<lparr>s_status := S_RUNNING, s_turn_id := None,
                            s_summary := safe_summary summary, s_updated_at := updated_at\<rparr>)
                     (sessions st)\<rparr>
         in if count_where sel (sessions st) \<noteq> 1 then Inr (None, st1)
            else Inr (Some (pending_ids session_id (interactions st)),
                   st1\<lparr>interactions := close_pending session_id I_CANCELLED updated_at
                          (interactions st)\<rparr>)))"

definition store_expire_interaction ::
  "string \<Rightarrow> instant option \<Rightarrow> instant \<Rightarrow> codex_store \<Rightarrow> (bool \<times> codex_store) outcome" where
  "store_expire_interaction interaction_id resolved_at nw st = with_connection st
     (let sel = (\<lambda>i. i_id i = interaction_id \<and> is_pending i)
      in Inr (count_where sel (interactions st) = 1,
           st\<lparr>interactions := update_where sel (close_row I_EXPIRED (opt_or resolved_at nw))
                (interactions st)\<rparr>))"

definition store_cancel_pending_interactions ::
  "string \<Rightarrow> interaction_status \<Rightarrow> instant option \<Rightarrow> instant \<Rightarrow> codex_store \<Rightarrow>
   (string list \<times> codex_store) outcome" where
  "store_cancel_pending_interactions session_id status resolved_at nw st =
     (if status \<notin> {I_EXPIRED, I_CANCELLED}
      then value_error ''status must be expired or cancelled''
      else with_connection st
        (Inr (pending_ids session_id (interactions st),
           st\<lparr>interactions := close_pending session_id status (opt_or resolved_at nw)
                (interactions st)\<rparr>)))"

subsection \<open>Received events\<close>

definition store_record_event_once ::
  "string \<Rightarrow> instant option \<Rightarrow> instant \<Rightarrow> codex_store \<Rightarrow> (bool \<times> codex_store) outcome" where
  "store_record_event_once event_id received_at nw st = with_connection st
     (if event_id \<in> fst ` set (event_dedupe st) then Inr (False, st)
      else Inr (True, st\<lparr>event_dedupe := event_dedupe st @ [(event_id, opt_or received_at nw)]\<rparr>))"

subsection \<open>The notification outbox\<close>

definition references_ok :: "string option \<Rightarrow> string option \<Rightarrow> codex_store \<Rightarrow> bool" where
  "references_ok session_id interaction_id st \<longleftrightarrow>
     (case session_id of None \<Rightarrow> True | Some s \<Rightarrow> s \<in> s_id ` set (sessions st)) \<and>
     (case interaction_id of None \<Rightarrow> True | Some i \<Rightarrow> i \<in> i_id ` set (interactions st))"

definition store_enqueue_outbox ::
  "string \<Rightarrow> string \<Rightarrow> string option \<Rightarrow> string option \<Rightarrow> string option \<Rightarrow> string option \<Rightarrow>
   instant option \<Rightarrow> instant option \<Rightarrow> instant \<Rightarrow> codex_store \<Rightarrow> (int \<times> codex_store) outcome" where
  "store_enqueue_outbox notification_type payload_summary session_id agent session_name
       interaction_id next_attempt_at created_at nw st = with_connection st
     (let created = opt_or created_at nw;
          due = opt_or next_attempt_at created;
          n = outbox_seq st + 1
      in if \<not> references_ok session_id interaction_id st
         then Inl (Exn ''IntegrityError'' ''FOREIGN KEY constraint failed'')
         else Inr (n, st\<lparr>outbox := outbox st @
                [\<lparr>o_id = n, o_session_id = session_id, o_agent = agent,
                  o_session_name = session_name, o_interaction_id = interaction_id,
                  o_notification_type = notification_type,
                  o_payload_summary = safe_summary payload_summary, o_attempt_count = 0,
                  o_next_attempt_at = due, o_sent_at = None, o_last_error = None,
                  o_created_at = created\<rparr>], outbox_seq := n\<rparr>))"

definition store_get_outbox_item :: "int \<Rightarrow> codex_store \<Rightarrow> outbox_item option outcome" where
  "store_get_outbox_item outbox_id st = with_connection st
     (case find (\<lambda>r. o_id r = outbox_id) (outbox st) of
        None \<Rightarrow> Inr None
      | Some row \<Rightarrow> (case outbox_from_row row of Inl e \<Rightarrow> Inl e | Inr r \<Rightarrow> Inr (Some r)))"

definition is_due :: "instant \<Rightarrow> outbox_item \<Rightarrow> bool" where
  "is_due t r \<longleftrightarrow> o_sent_at r = None \<and> o_next_attempt_at r \<le> t"

definition store_list_due_outbox ::
  "instant option \<Rightarrow> int \<Rightarrow> instant \<Rightarrow> codex_store \<Rightarrow> outbox_item list outcome" where
  "store_list_due_outbox t limit nw st = with_connection st
     (map_outcome outbox_from_row
        (limit_rows limit (sort_key (\<lambda>r. (o_next_attempt_at r, o_id r))
           (filter (is_due (opt_or t nw)) (outbox st)))))"

definition store_mark_outbox_sent ::
  "int \<Rightarrow> instant option \<Rightarrow> instant \<Rightarrow> codex_store \<Rightarrow> (bool \<times> codex_store) outcome" where
  "store_mark_outbox_sent outbox_id sent_at nw st = with_connection st
     (let sel = (\<lambda>r. o_id r = outbox_id \<and> o_sent_at r = None)
      in Inr (count_where sel (outbox st) = 1,
           st\<lparr>outbox := update_where sel
                (\<lambda>r. r\<lparr>o_sent_at := Some (opt_or sent_at nw), o_last_error := None\<rparr>) (outbox st)\<rparr>))"

definition store_record_outbox_failure ::
  "int \<Rightarrow> string \<Rightarrow> instant \<Rightarrow> codex_store \<Rightarrow> (bool \<times> codex_store) outcome" where
  "store_record_outbox_failure outbox_id err next_attempt_at st = with_connection st
     (let sel = (\<lambda>r. o_id r = outbox_id \<and> o_sent_at r = None)
      in Inr (count_where sel (outbox st) = 1,
           st\<lparr>outbox := update_where sel
                (\<lambda>r. r\<lparr>o_attempt_count := o_attempt_count r + 1, o_next_attempt_at := next_attempt_at,
                       o_last_error := Some (safe_summary err)\<rparr>) (outbox st)\<rparr>))"

subsection \<open>Start-up reconciliation and the audit log\<close>

definition store_reconcile_startup ::
  "instant option \<Rightarrow> instant \<Rightarrow> codex_store \<Rightarrow> ((string list \<times> string list) \<times> codex_store) outcome" where
  "store_reconcile_startup t nw st = with_connection st
     (let ts = opt_or t nw
      in Inr ((sort (map s_id (filter (\<lambda>s. is_active (s_status s)) (sessions st))),
               sort (map i_id (filter is_pending (interactions st)))),
           st\<lparr>sessions := update_where (\<lambda>s. is_active (s_status s))
                (\<lambda>s. s\<lparr>s_status := S_INTERRUPTED, s_updated_at := ts\<rparr>) (sessions st),
              interactions := update_where is_pending (close_row I_EXPIRED ts) (interactions st)\<rparr>))"

definition store_record_audit ::
  "string \<Rightarrow> string \<Rightarrow> string option \<Rightarrow> string option \<Rightarrow> string option \<Rightarrow> instant option \<Rightarrow> instant \<Rightarrow>
   codex_store \<Rightarrow> (int \<times> codex_store) outcome" where
  "store_record_audit event_type detail_summary session_id interaction_id actor_id created_at nw st =
     with_connection st
     (let n = audit_seq st + 1
      in if \<not> references_ok session_id interaction_id st
         then Inl (Exn ''IntegrityError'' ''FOREIGN KEY constraint failed'')
         else Inr (n, st\<lparr>audit := audit st @
                [\<lparr>a_id = n, a_session_id = session_id, a_interaction_id = interaction_id,
                  a_event_type = event_type, a_actor_id = actor_id,
                  a_detail_summary = safe_summary detail_summary,
                  a_created_at = opt_or created_at nw\<rparr>], audit_seq := n\<rparr>))"

definition store_list_audit :: "string option \<Rightarrow> codex_store \<Rightarrow> audit_entry list outcome" where
  "store_list_audit session_id st = with_connection st
     (Inr (sort_key (\<lambda>a. (a_created_at a, a_id a))
        (case session_id of None \<Rightarrow> audit st
         | Some s \<Rightarrow> filter (\<lambda>a. a_session_id a = Some s) (audit st))))"

end
