(* ===== verification/Store_Invariant.thy ===== *)
theory Store_Invariant
  imports Codex_Store
begin

text \<open>
  What the store keeps true. \<open>store_wf\<close> is the well-formedness of the tables: unique keys, one
  pending interaction per request, no dangling reference, no decision on a pending row, and
  outbox and audit identifiers that only grow. \<open>store_step\<close> is the store as a transition
  system, one rule per method that writes.
\<close>

subsection \<open>Well-formed tables\<close>

definition wf_interactions :: "string list \<Rightarrow> pending_interaction list \<Rightarrow> bool" where
  "wf_interactions sids rows \<longleftrightarrow>
     distinct (map i_id rows) \<and>
     distinct (map i_request_id (filter is_pending rows)) \<and>
     (\<forall>i\<in>set rows. i_session_id i \<in> set sids \<and> interaction_valid i \<and>
        length (i_payload_summary i) \<le> SUMMARY_LIMIT)"

definition wf_refs :: "string list \<Rightarrow> string list \<Rightarrow> string option \<Rightarrow> string option \<Rightarrow> bool" where
  "wf_refs sids iids s i \<longleftrightarrow> set_option s \<subseteq> set sids \<and> set_option i \<subseteq> set iids"

definition wf_outbox :: "int \<Rightarrow> string list \<Rightarrow> string list \<Rightarrow> outbox_item list \<Rightarrow> bool" where
  "wf_outbox n sids iids rows \<longleftrightarrow>
     0 \<le> n \<and> sorted_wrt (<) (map o_id rows) \<and>
     (\<forall>r\<in>set rows. 0 < o_id r \<and> o_id r \<le> n \<and> 0 \<le> o_attempt_count r \<and>
        wf_refs sids iids (o_session_id r) (o_interaction_id r))"

definition wf_audit :: "int \<Rightarrow> string list \<Rightarrow> string list \<Rightarrow> audit_entry list \<Rightarrow> bool" where
  "wf_audit n sids iids rows \<longleftrightarrow>
     0 \<le> n \<and> sorted_wrt (<) (map a_id rows) \<and>
     (\<forall>r\<in>set rows. 0 < a_id r \<and> a_id r \<le> n \<and>
        wf_refs sids iids (a_session_id r) (a_interaction_id r))"

definition store_wf :: "codex_store \<Rightarrow> bool" where
  "store_wf st \<longleftrightarrow>
     distinct (map s_id (sessions st)) \<and>
     wf_interactions (map s_id (sessions st)) (interactions st) \<and>
     distinct (map fst (event_dedupe st)) \<and>
     wf_outbox (outbox_seq st) (map s_id (sessions st)) (map i_id (interactions st)) (outbox st) \<and>
     wf_audit (audit_seq st) (map s_id (sessions st)) (map i_id (interactions st)) (audit st)"

subsection \<open>The row updates of the store\<close>

lemma assign_session_id [row_simps]: "s_id (assign_session a b c d t s) = s_id s"
  by (simp add: assign_session_def)

lemma decide_row_simps [row_simps]:
  "i_id (decide_row v d a t i) = i_id i"
  "i_session_id (decide_row v d a t i) = i_session_id i"
  "i_request_id (decide_row v d a t i) = i_request_id i"
  "i_kind (decide_row v d a t i) = i_kind i"
  "i_payload_summary (decide_row v d a t i) = i_payload_summary i"
  "i_status (decide_row v d a t i) = v"
  by (simp_all add: decide_row_def)

lemma close_row_simps [row_simps]:
  "i_id (close_row v t i) = i_id i"
  "i_session_id (close_row v t i) = i_session_id i"
  "i_request_id (close_row v t i) = i_request_id i"
  "i_kind (close_row v t i) = i_kind i"
  "i_payload_summary (close_row v t i) = i_payload_summary i"
  "i_status (close_row v t i) = v"
  by (simp_all add: close_row_def)

lemma filter_update_where_off:
  "(\<And>r. \<not> p (f r)) \<Longrightarrow> filter p (update_where q f rows) = filter (\<lambda>r. \<not> q r) (filter p rows)"
  by (induction rows) auto

lemma map_filter_update_where_same:
  "(\<And>r. p (f r) = p r) \<Longrightarrow> (\<And>r. g (f r) = g r) \<Longrightarrow>
   map g (filter p (update_where q f rows)) = map g (filter p rows)"
  by (induction rows) auto

lemma distinct_map_filter_off:
  assumes "\<And>r. \<not> p (f r)" and "distinct (map g (filter p rows))"
  shows "distinct (map g (filter p (update_where q f rows)))"
proof -
  have "filter p (update_where q f rows) = filter (\<lambda>r. \<not> q r) (filter p rows)"
    by (rule filter_update_where_off) (rule assms(1))
  with assms(2) show ?thesis by (simp only: distinct_map_filter)
qed

lemma closed_valid: "\<not> is_pending i \<Longrightarrow> interaction_valid i"
  by (simp add: is_pending_def interaction_valid_def)

text \<open>Closing rows, in whatever way, keeps the interactions table well formed.\<close>

lemma wf_interactions_close:
  assumes "wf_interactions sids rows"
    and "\<And>i. \<not> is_pending (f i)"
    and "\<And>i. i_id (f i) = i_id i" "\<And>i. i_session_id (f i) = i_session_id i"
    and "\<And>i. i_payload_summary (f i) = i_payload_summary i"
  shows "wf_interactions sids (update_where p f rows)"
  using assms
  by (auto simp: wf_interactions_def map_update_where_same set_update_where
      intro: distinct_map_filter_off closed_valid)

lemma wf_interactions_relabel:
  assumes "wf_interactions sids rows"
  shows "wf_interactions sids (update_where p (\<lambda>i. i\<lparr>i_lark_message_id := m\<rparr>) rows)"
  using assms
  by (auto simp: wf_interactions_def map_update_where_same set_update_where interaction_valid_def
      is_pending_def map_filter_update_where_same)

lemma not_pending_rows [simp]:
  "v \<noteq> I_PENDING \<Longrightarrow> \<not> is_pending (decide_row v d a t i)"
  "v \<noteq> I_PENDING \<Longrightarrow> \<not> is_pending (close_row v t i)"
  by (simp_all add: is_pending_def row_simps)

lemma wf_decide: "wf_interactions sids rows \<Longrightarrow> v \<noteq> I_PENDING \<Longrightarrow>
   wf_interactions sids (update_where p (decide_row v d a t) rows)"
  by (rule wf_interactions_close) (simp_all add: row_simps)

lemma wf_close: "wf_interactions sids rows \<Longrightarrow> v \<noteq> I_PENDING \<Longrightarrow>
   wf_interactions sids (update_where p (close_row v t) rows)"
  by (rule wf_interactions_close) (simp_all add: row_simps)

lemma wf_outbox_mono:
  "wf_outbox n sids iids rows \<Longrightarrow> set sids \<subseteq> set sids' \<Longrightarrow> set iids \<subseteq> set iids' \<Longrightarrow>
   wf_outbox n sids' iids' rows"
  unfolding wf_outbox_def wf_refs_def by blast

lemma wf_audit_mono:
  "wf_audit n sids iids rows \<Longrightarrow> set sids \<subseteq> set sids' \<Longrightarrow> set iids \<subseteq> set iids' \<Longrightarrow>
   wf_audit n sids' iids' rows"
  unfolding wf_audit_def wf_refs_def by blast

lemma wf_interactions_mono:
  "wf_interactions sids rows \<Longrightarrow> set sids \<subseteq> set sids' \<Longrightarrow> wf_interactions sids' rows"
  unfolding wf_interactions_def by blast

lemma store_wf_sessions:
  assumes "store_wf st" and "\<And>s. s_id (f s) = s_id s"
  shows "store_wf (st\<lparr>sessions := update_where p f (sessions st)\<rparr>)"
  using assms by (simp add: store_wf_def map_update_where_same)

lemma store_wf_interactions:
  assumes "store_wf st"
    and "wf_interactions (map s_id (sessions st)) rows" and "map i_id rows = map i_id (interactions st)"
  shows "store_wf (st\<lparr>interactions := rows\<rparr>)"
  using assms by (simp add: store_wf_def)

lemma store_wf_decide: "store_wf st \<Longrightarrow> v \<noteq> I_PENDING \<Longrightarrow>
   store_wf (st\<lparr>interactions := update_where p (decide_row v d a t) (interactions st)\<rparr>)"
  by (rule store_wf_interactions)
    (auto simp: store_wf_def row_simps intro: wf_decide)

lemma store_wf_close: "store_wf st \<Longrightarrow> v \<noteq> I_PENDING \<Longrightarrow>
   store_wf (st\<lparr>interactions := update_where p (close_row v t) (interactions st)\<rparr>)"
  by (rule store_wf_interactions)
    (auto simp: store_wf_def row_simps intro: wf_close)

lemma store_wf_refresh: "store_wf st \<Longrightarrow> store_wf (refresh_session sid t st)"
  by (simp add: refresh_session_def Let_def store_wf_sessions)

lemma store_wf_insert_interaction:
  assumes "insert_interaction i st = Inr st'" "interaction_valid i" "store_wf st"
  shows "store_wf st'"
proof -
  let ?i = "i\<lparr>i_payload_summary := safe_summary (i_payload_summary i)\<rparr>"
  have st': "st' = st\<lparr>interactions := interactions st @ [?i]\<rparr>"
    and new: "i_id i \<notin> i_id ` set (interactions st)" "i_session_id i \<in> s_id ` set (sessions st)"
    and uniq: "is_pending i \<Longrightarrow>
      i_request_id i \<notin> i_request_id ` {r \<in> set (interactions st). is_pending r}"
    using assms(1) by (auto simp: insert_interaction_def split: if_splits)
  have "wf_interactions (map s_id (sessions st)) (interactions st @ [?i])"
    using assms(2,3) new uniq
    by (auto simp: store_wf_def wf_interactions_def is_pending_def interaction_valid_def
        safe_summary_length)
  then show ?thesis
    using assms(3) unfolding st' by (auto simp: store_wf_def intro: wf_outbox_mono wf_audit_mono)
qed

subsection \<open>The store as a transition system\<close>

text \<open>
  The steps of the orchestrator, the daemon and the control router: sessions are created in
  the starting status, and a conditional update moves an active session to running.
\<close>

inductive guarded_step :: "codex_store \<Rightarrow> codex_store \<Rightarrow> bool" where
  create_session: "store_create_session s st = Inr st' \<Longrightarrow> s_status s = S_STARTING \<Longrightarrow>
    guarded_step st st'"
| update_if_status: "store_update_session_if_status sid ex S_RUNNING th tu su ts nw st = Inr (b, st') \<Longrightarrow>
    set ex \<subseteq> set ACTIVE_SESSION_STATUSES \<Longrightarrow> guarded_step st st'"
| mark_waiting: "store_create_interaction_and_mark_waiting i w ts st = Inr (b, st') \<Longrightarrow>
    i_status i = I_PENDING \<Longrightarrow> w = (if i_kind i = USER_INPUT then S_WAITING_FOR_INPUT
      else S_WAITING_FOR_APPROVAL) \<Longrightarrow> guarded_step st st'"
| attach: "store_attach_lark_message_id iid m st = Inr (b, st') \<Longrightarrow> guarded_step st st'"
| resolve_refresh: "store_resolve_interaction_and_refresh_session iid d a ts v st = Inr (b, st') \<Longrightarrow>
    guarded_step st st'"
| cancel_refresh: "store_cancel_interaction_and_refresh_session iid ts st = Inr (b, st') \<Longrightarrow>
    guarded_step st st'"
| claim: "store_claim_session_terminal sid t su p ts st = Inr (r, st') \<Longrightarrow> guarded_step st st'"
| finish_turn: "store_finish_interactive_turn sid tu su ts st = Inr (r, st') \<Longrightarrow> guarded_step st st'"
| record_event: "store_record_event_once e r nw st = Inr (b, st') \<Longrightarrow> guarded_step st st'"
| enqueue: "store_enqueue_outbox ty p s ag sn i nx cr nw st = Inr (n, st') \<Longrightarrow> guarded_step st st'"
| mark_sent: "store_mark_outbox_sent oid t nw st = Inr (b, st') \<Longrightarrow> guarded_step st st'"
| record_failure: "store_record_outbox_failure oid e nx st = Inr (b, st') \<Longrightarrow> guarded_step st st'"
| reconcile: "store_reconcile_startup t nw st = Inr (r, st') \<Longrightarrow> guarded_step st st'"
| record_audit: "store_record_audit ev d s i a c nw st = Inr (n, st') \<Longrightarrow> guarded_step st st'"
| close: "guarded_step st (store_close st)"

text \<open>Every method that writes, with no condition on its arguments.\<close>

inductive store_step :: "codex_store \<Rightarrow> codex_store \<Rightarrow> bool" where
  guarded: "guarded_step st st' \<Longrightarrow> store_step st st'"
| any_create_session: "store_create_session s st = Inr st' \<Longrightarrow> store_step st st'"
| any_update: "store_update_session sid v th tu su ts nw st = Inr (r, st') \<Longrightarrow> store_step st st'"
| any_update_if_status: "store_update_session_if_status sid ex v th tu su ts nw st = Inr (b, st') \<Longrightarrow>
    store_step st st'"
| any_create_interaction: "store_create_interaction i st = Inr st' \<Longrightarrow> store_step st st'"
| any_mark_waiting: "store_create_interaction_and_mark_waiting i w ts st = Inr (b, st') \<Longrightarrow>
    store_step st st'"
| any_resolve: "store_resolve_interaction iid d a ts nw st = Inr (b, st') \<Longrightarrow> store_step st st'"
| any_expire: "store_expire_interaction iid ts nw st = Inr (b, st') \<Longrightarrow> store_step st st'"
| any_cancel_pending: "store_cancel_pending_interactions sid v ts nw st = Inr (ids, st') \<Longrightarrow>
    store_step st st'"

inductive store_reachable :: "codex_store \<Rightarrow> bool" where
  fresh: "store_reachable empty_store"
| step: "store_reachable st \<Longrightarrow> store_step st st' \<Longrightarrow> store_reachable st'"

inductive guarded_reachable :: "codex_store \<Rightarrow> bool" where
  fresh: "guarded_reachable empty_store"
| step: "guarded_reachable st \<Longrightarrow> guarded_step st st' \<Longrightarrow> guarded_reachable st'"

lemmas with_connection_split =
  with_connection_def Let_def

subsection \<open>Well-formedness, method by method\<close>

lemma wf_create_session: "store_create_session s st = Inr st' \<Longrightarrow> store_wf st \<Longrightarrow> store_wf st'"
  by (auto simp: store_create_session_def with_connection_def store_wf_def image_iff
      intro: wf_interactions_mono wf_outbox_mono wf_audit_mono split: if_splits)

lemma wf_update_session:
  "store_update_session sid v th tu su ts nw st = Inr (r, st') \<Longrightarrow> store_wf st \<Longrightarrow> store_wf st'"
  by (auto simp: store_update_session_def with_connection_split row_simps
      intro: store_wf_sessions split: if_splits sum.splits)

lemma wf_update_if_status:
  "store_update_session_if_status sid ex v th tu su ts nw st = Inr (b, st') \<Longrightarrow> store_wf st \<Longrightarrow>
   store_wf st'"
  by (auto simp: store_update_session_if_status_def with_connection_split row_simps
      intro: store_wf_sessions split: if_splits)

lemma wf_create_interaction:
  "store_create_interaction i st = Inr st' \<Longrightarrow> store_wf st \<Longrightarrow> store_wf st'"
  by (auto simp: store_create_interaction_def with_connection_def
      intro: store_wf_insert_interaction split: if_splits)

lemma wf_insert_waiting:
  "insert_interaction i (st\<lparr>sessions := update_where p
     (\<lambda>s. s\<lparr>s_status := w, s_updated_at := ts\<rparr>) (sessions st)\<rparr>) = Inr st' \<Longrightarrow>
   interaction_valid i \<Longrightarrow> store_wf st \<Longrightarrow> store_wf st'"
  by (erule store_wf_insert_interaction) (simp_all add: store_wf_sessions)

lemma wf_mark_waiting:
  "store_create_interaction_and_mark_waiting i w ts st = Inr (b, st') \<Longrightarrow> store_wf st \<Longrightarrow> store_wf st'"
  by (auto simp: store_create_interaction_and_mark_waiting_def with_connection_split
      intro: store_wf_sessions wf_insert_waiting split: if_splits sum.splits)

lemma wf_attach: "store_attach_lark_message_id iid m st = Inr (b, st') \<Longrightarrow> store_wf st \<Longrightarrow> store_wf st'"
  by (auto simp: store_attach_lark_message_id_def with_connection_split map_update_where_same
      intro!: store_wf_interactions wf_interactions_relabel simp: store_wf_def split: if_splits)

lemma wf_resolve: "store_resolve_interaction iid d a ts nw st = Inr (b, st') \<Longrightarrow> store_wf st \<Longrightarrow>
   store_wf st'"
  by (auto simp: store_resolve_interaction_def with_connection_split
      intro: store_wf_decide split: if_splits option.splits sum.splits)

lemma wf_resolve_refresh:
  "store_resolve_interaction_and_refresh_session iid d a ts v st = Inr (b, st') \<Longrightarrow> store_wf st \<Longrightarrow>
   store_wf st'"
  by (auto simp: store_resolve_interaction_and_refresh_session_def with_connection_split
      intro!: store_wf_refresh store_wf_decide split: if_splits option.splits sum.splits)

lemma wf_cancel_refresh:
  "store_cancel_interaction_and_refresh_session iid ts st = Inr (b, st') \<Longrightarrow> store_wf st \<Longrightarrow>
   store_wf st'"
  by (auto simp: store_cancel_interaction_and_refresh_session_def with_connection_split
      intro!: store_wf_refresh store_wf_close split: if_splits option.splits)

lemma wf_close_sessions:
  assumes "store_wf st" and "\<And>s. s_id (f s) = s_id s" and "v \<noteq> I_PENDING"
  shows "store_wf (st\<lparr>sessions := update_where p f (sessions st),
     interactions := update_where q (close_row v t) (interactions st)\<rparr>)"
  using store_wf_close [OF store_wf_sessions [OF assms(1,2)] assms(3)] by simp

lemma wf_claim: "store_claim_session_terminal sid t su p ts st = Inr (r, st') \<Longrightarrow> store_wf st \<Longrightarrow>
   store_wf st'"
  by (auto simp: store_claim_session_terminal_def with_connection_split close_pending_def
      intro!: wf_close_sessions store_wf_sessions split: if_splits)

lemma wf_finish: "store_finish_interactive_turn sid tu su ts st = Inr (r, st') \<Longrightarrow> store_wf st \<Longrightarrow>
   store_wf st'"
  by (auto simp: store_finish_interactive_turn_def with_connection_split close_pending_def
      intro!: wf_close_sessions store_wf_sessions split: if_splits)

lemma wf_expire: "store_expire_interaction iid ts nw st = Inr (b, st') \<Longrightarrow> store_wf st \<Longrightarrow> store_wf st'"
  by (auto simp: store_expire_interaction_def with_connection_split intro: store_wf_close
      split: if_splits)

lemma wf_cancel_pending:
  "store_cancel_pending_interactions sid v ts nw st = Inr (ids, st') \<Longrightarrow> store_wf st \<Longrightarrow> store_wf st'"
  by (auto simp: store_cancel_pending_interactions_def with_connection_split close_pending_def
      intro!: store_wf_close split: if_splits)

lemma wf_record_event: "store_record_event_once e t nw st = Inr (b, st') \<Longrightarrow> store_wf st \<Longrightarrow>
   store_wf st'"
  by (auto simp: store_record_event_once_def with_connection_def store_wf_def split: if_splits)

lemma references_ok_refs:
  "references_ok s i st \<longleftrightarrow> wf_refs (map s_id (sessions st)) (map i_id (interactions st)) s i"
  by (auto simp: references_ok_def wf_refs_def split: option.split)

lemma wf_outbox_append:
  assumes "wf_outbox n sids iids rows" and "o_id r = n + 1" and "o_attempt_count r = 0"
    and "wf_refs sids iids (o_session_id r) (o_interaction_id r)"
  shows "wf_outbox (n + 1) sids iids (rows @ [r])"
  using assms by (auto simp: wf_outbox_def sorted_wrt_append)

lemma wf_audit_append:
  assumes "wf_audit n sids iids rows" and "a_id r = n + 1"
    and "wf_refs sids iids (a_session_id r) (a_interaction_id r)"
  shows "wf_audit (n + 1) sids iids (rows @ [r])"
  using assms by (auto simp: wf_audit_def sorted_wrt_append)

lemma wf_enqueue: "store_enqueue_outbox ty p s ag sn i nx cr nw st = Inr (n, st') \<Longrightarrow> store_wf st \<Longrightarrow>
   store_wf st'"
  by (auto simp: store_enqueue_outbox_def with_connection_split store_wf_def references_ok_refs
      intro!: wf_outbox_append split: if_splits)

lemma wf_audit_step: "store_record_audit ev d s i a c nw st = Inr (n, st') \<Longrightarrow> store_wf st \<Longrightarrow>
   store_wf st'"
  by (auto simp: store_record_audit_def with_connection_split store_wf_def references_ok_refs
      intro!: wf_audit_append split: if_splits)

lemma wf_outbox_update:
  assumes "wf_outbox n sids iids rows"
    and "\<And>r. o_id (f r) = o_id r" "\<And>r. o_session_id (f r) = o_session_id r"
    and "\<And>r. o_interaction_id (f r) = o_interaction_id r"
    and "\<And>r. 0 \<le> o_attempt_count r \<Longrightarrow> 0 \<le> o_attempt_count (f r)"
  shows "wf_outbox n sids iids (update_where p f rows)"
  using assms by (auto simp: wf_outbox_def map_update_where_same set_update_where)

lemma wf_mark_sent: "store_mark_outbox_sent oid t nw st = Inr (b, st') \<Longrightarrow> store_wf st \<Longrightarrow> store_wf st'"
  by (auto simp: store_mark_outbox_sent_def with_connection_split store_wf_def
      intro!: wf_outbox_update split: if_splits)

lemma wf_record_failure:
  "store_record_outbox_failure oid e nx st = Inr (b, st') \<Longrightarrow> store_wf st \<Longrightarrow> store_wf st'"
  by (auto simp: store_record_outbox_failure_def with_connection_split store_wf_def
      intro!: wf_outbox_update split: if_splits)

lemma wf_reconcile: "store_reconcile_startup t nw st = Inr (r, st') \<Longrightarrow> store_wf st \<Longrightarrow> store_wf st'"
  by (auto simp: store_reconcile_startup_def with_connection_split intro!: wf_close_sessions
      split: if_splits)

lemma wf_store_close: "store_wf st \<Longrightarrow> store_wf (store_close st)"
  by (simp add: store_wf_def store_close_def)

lemma wf_empty: "store_wf empty_store"
  by (simp add: store_wf_def empty_store_def wf_interactions_def wf_outbox_def wf_audit_def)

lemmas wf_guarded = wf_create_session wf_update_if_status wf_mark_waiting wf_attach
  wf_resolve_refresh wf_cancel_refresh wf_claim wf_finish wf_record_event wf_enqueue wf_mark_sent
  wf_record_failure wf_reconcile wf_audit_step wf_store_close

lemmas wf_unguarded = wf_create_session wf_update_session wf_update_if_status wf_create_interaction
  wf_mark_waiting wf_resolve wf_expire wf_cancel_pending

lemma guarded_step_wf: "guarded_step st st' \<Longrightarrow> store_wf st \<Longrightarrow> store_wf st'"
  by (induction rule: guarded_step.induct) (blast dest: wf_guarded)+

lemma store_step_wf: "store_step st st' \<Longrightarrow> store_wf st \<Longrightarrow> store_wf st'"
  by (induction rule: store_step.induct) (blast dest: guarded_step_wf wf_unguarded)+

lemma store_reachable_wf: "store_reachable st \<Longrightarrow> store_wf st"
  by (induction rule: store_reachable.induct) (auto intro: wf_empty store_step_wf)

end
