(* ===== verification/Contracts.thy ===== *)
theory Contracts
  imports Prelude
begin

text \<open>
  The interface the components of the program rely on when several parties race: an attempt on
  a key either wins or loses, a won key is taken, and no step of the provider gives a taken key
  back. The store provides it three times (a received event, the decision of an interaction,
  the end of a session) and the gateway once (the response to an intercepted request); its
  clients are the control router, the hook endpoint, the orchestrator and the terminal.
\<close>

locale first_wins =
  fixes inv :: "'s \<Rightarrow> bool"
    and step :: "'s \<Rightarrow> 's \<Rightarrow> bool"
    and attempt :: "'k \<Rightarrow> 's \<Rightarrow> bool \<Rightarrow> 's \<Rightarrow> bool"
    and taken :: "'s \<Rightarrow> 'k set"
  assumes inv_step: "inv s \<Longrightarrow> step s s' \<Longrightarrow> inv s'"
    and taken_step: "inv s \<Longrightarrow> step s s' \<Longrightarrow> taken s \<subseteq> taken s'"
    and attempt_step: "attempt k s b s' \<Longrightarrow> step s s'"
    and win_fresh: "inv s \<Longrightarrow> attempt k s True s' \<Longrightarrow> k \<notin> taken s"
    and win_takes: "inv s \<Longrightarrow> attempt k s True s' \<Longrightarrow> k \<in> taken s'"
begin

lemma inv_steps: "step\<^sup>*\<^sup>* s s' \<Longrightarrow> inv s \<Longrightarrow> inv s'"
  by (induction rule: rtranclp_induct) (auto intro: inv_step)

lemma taken_steps: "step\<^sup>*\<^sup>* s s' \<Longrightarrow> inv s \<Longrightarrow> taken s \<subseteq> taken s'"
proof (induction rule: rtranclp_induct)
  case base
  then show ?case by simp
next
  case (step t u)
  then show ?case using taken_step inv_steps by blast
qed

text \<open>After a win, whatever happens in between, every later attempt on the key loses.\<close>

lemma second_loses:
  assumes "inv s" "attempt k s True s1" "step\<^sup>*\<^sup>* s1 s2" "attempt k s2 b s3"
  shows "\<not> b"
proof
  assume b: b
  have "inv s1" using assms(1,2) attempt_step inv_step by blast
  then have "k \<in> taken s2" "inv s2"
    using assms(1-3) win_takes taken_steps inv_steps by blast+
  then show False using assms(4) b win_fresh by simp
qed

text \<open>
  A run of attempts on one key with other steps between them: the results, in order, contain
  at most one win.
\<close>

inductive attempts :: "'k \<Rightarrow> 's \<Rightarrow> bool list \<Rightarrow> 's \<Rightarrow> bool" for k where
  none: "attempts k s [] s"
| other: "step s s1 \<Longrightarrow> attempts k s1 bs s' \<Longrightarrow> attempts k s bs s'"
| attempt: "attempt k s b s1 \<Longrightarrow> attempts k s1 bs s' \<Longrightarrow> attempts k s (b # bs) s'"

lemma attempts_after_win: "attempts k s bs s' \<Longrightarrow> inv s \<Longrightarrow> k \<in> taken s \<Longrightarrow> True \<notin> set bs"
proof (induction rule: attempts.induct)
  case (none s)
  then show ?case by simp
next
  case (other s s1 bs s')
  then show ?case using inv_step taken_step by blast
next
  case (attempt s b s1 bs s')
  have "\<not> b" using attempt.hyps(1) attempt.prems win_fresh by auto
  moreover have "step s s1" using attempt.hyps(1) by (rule attempt_step)
  then have "inv s1" "k \<in> taken s1" using attempt.prems inv_step taken_step by blast+
  ultimately show ?case using attempt.IH by simp
qed

lemma at_most_one_win: "attempts k s bs s' \<Longrightarrow> inv s \<Longrightarrow> count_list bs True \<le> 1"
proof (induction rule: attempts.induct)
  case (none s)
  then show ?case by simp
next
  case (other s s1 bs s')
  then show ?case using inv_step by blast
next
  case (attempt s b s1 bs s')
  have s1: "inv s1" using attempt.hyps(1) attempt.prems attempt_step inv_step by blast
  show ?case
  proof (cases b)
    case True
    then have "k \<in> taken s1" using attempt.hyps(1) attempt.prems win_takes by simp
    then have "True \<notin> set bs" using attempts_after_win attempt.hyps(2) s1 by blast
    then show ?thesis using True by (simp add: count_list_0_iff)
  next
    case False
    then show ?thesis using attempt.IH s1 by simp
  qed
qed

end

end
