(* ===== verification/Store_Contract.thy ===== *)
theory Store_Contract
  imports Store_Invariant Contracts
begin

text \<open>
  How the tables evolve, and the contracts the store offers its clients. A closed interaction
  row is final under every method; under the methods the orchestrator, the daemon and the
  router call, a session row in a terminal status is final too, and a pending interaction
  belongs to an active session.
\<close>

subsection \<open>Final rows\<close>

text \<open>The columns of an interaction row that no method changes.\<close>

abbreviation i_key :: "pending_interaction \<Rightarrow> string \<times> string \<times> string \<times> interaction_kind" where
  "i_key i \<equiv> (i_id i, i_session_id i, i_request_id i, i_kind i)"

definition evolves :: "(codex_session \<Rightarrow> bool) \<Rightarrow> codex_store \<Rightarrow> codex_store \<Rightarrow> bool" where
  "evolves p st st' \<longleftrightarrow>
     rows_evolve p s_id (sessions st) (sessions st') \<and>
     rows_evolve is_pending i_key (interactions st) (interactions st') \<and>
     fst ` set (event_dedupe st) \<subseteq> fst ` set (event_dedupe st')"

abbreviation active_row :: "codex_session \<Rightarrow> bool" where
  "active_row s \<equiv> is_active (s_status s)"

lemma evolves_trans: "evolves p a b \<Longrightarrow> evolves p b c \<Longrightarrow> evolves p a c"
  unfolding evolves_def by (meson rows_evolve_trans subset_trans)

lemma evolves_weaken: "evolves p a b \<Longrightarrow> (\<And>s. p s \<Longrightarrow> q s) \<Longrightarrow> evolves q a b"
  unfolding evolves_def by (meson rows_evolve_weaken)

lemma evolves_refl [simp]: "evolves p st st"
  by (simp add: evolves_def)

lemma evolves_sessions:
  "(\<And>s. q s \<Longrightarrow> p s) \<Longrightarrow> (\<And>s. s_id (f s) = s_id s) \<Longrightarrow>
   evolves p st (st\<lparr>sessions := update_where q f (sessions st)\<rparr>)"
  by (simp add: evolves_def rows_evolve_update)

lemma evolves_interactions:
  "(\<And>i. q i \<Longrightarrow> is_pending i) \<Longrightarrow> (\<And>i. i_key (f i) = i_key i) \<Longrightarrow>
   evolves p st (st\<lparr>interactions := update_where q f (interactions st)\<rparr>)"
  by (simp add: evolves_def rows_evolve_update)

lemma evolves_both:
  "(\<And>s. q s \<Longrightarrow> p s) \<Longrightarrow> (\<And>s. s_id (f s) = s_id s) \<Longrightarrow> (\<And>i. r i \<Longrightarrow> is_pending i) \<Longrightarrow>
   (\<And>i. i_key (g i) = i_key i) \<Longrightarrow>
   evolves p st (st\<lparr>sessions := update_where q f (sessions st),
     interactions := update_where r g (interactions st)\<rparr>)"
  by (simp add: evolves_def rows_evolve_update)

lemma evolves_refresh: "(\<And>s. active_row s \<Longrightarrow> p s) \<Longrightarrow> evolves p st (refresh_session sid t st)"
  by (auto simp: refresh_session_def Let_def intro: evolves_sessions)

lemma evolves_insert: "insert_interaction i st = Inr st' \<Longrightarrow> evolves p st st'"
  by (auto simp: insert_interaction_def evolves_def rows_evolve_append split: if_splits)

lemma evolves_mark_waiting:
  assumes "store_create_interaction_and_mark_waiting i w ts st = Inr (b, st')"
    and "\<And>s. active_row s \<Longrightarrow> p s"
  shows "evolves p st st'"
proof -
  let ?st1 = "st\<lparr>sessions := update_where (\<lambda>s. s_id s = i_session_id i \<and> active_row s)
     (\<lambda>s. s\<lparr>s_status := w, s_updated_at := ts\<rparr>) (sessions st)\<rparr>"
  have 1: "evolves p st ?st1" by (rule evolves_sessions) (auto intro: assms(2))
  show ?thesis
    using assms(1) 1 evolves_trans [OF 1 evolves_insert]
    by (auto simp: store_create_interaction_and_mark_waiting_def with_connection_split
        split: if_splits sum.splits)
qed

lemma evolves_resolve_refresh:
  assumes "store_resolve_interaction_and_refresh_session iid d a ts v st = Inr (b, st')"
    and "\<And>s. active_row s \<Longrightarrow> p s"
  shows "evolves p st st'"
proof -
  have 1: "evolves p st (st\<lparr>interactions := update_where (\<lambda>i. i_id i = iid \<and> is_pending i)
      (decide_row v e a ts) (interactions st)\<rparr>)" for e
    by (rule evolves_interactions) (auto simp: row_simps)
  show ?thesis
    using assms(1) 1 evolves_trans [OF 1 evolves_refresh [OF assms(2)]]
    by (auto simp: store_resolve_interaction_and_refresh_session_def with_connection_split
        split: if_splits option.splits sum.splits)
qed

lemma evolves_cancel_refresh:
  assumes "store_cancel_interaction_and_refresh_session iid ts st = Inr (b, st')"
    and "\<And>s. active_row s \<Longrightarrow> p s"
  shows "evolves p st st'"
proof -
  have 1: "evolves p st (st\<lparr>interactions := update_where (\<lambda>i. i_id i = iid \<and> is_pending i)
      (close_row I_CANCELLED ts) (interactions st)\<rparr>)"
    by (rule evolves_interactions) (auto simp: row_simps)
  show ?thesis
    using assms(1) 1 evolves_trans [OF 1 evolves_refresh [OF assms(2)]]
    by (auto simp: store_cancel_interaction_and_refresh_session_def with_connection_split
        split: if_splits option.splits)
qed

lemma evolves_other_tables:
  "sessions st' = sessions st \<Longrightarrow> interactions st' = interactions st \<Longrightarrow>
   fst ` set (event_dedupe st) \<subseteq> fst ` set (event_dedupe st') \<Longrightarrow> evolves p st st'"
  by (simp add: evolves_def)

lemma guarded_step_evolves: "guarded_step st st' \<Longrightarrow> evolves active_row st st'"
proof (induction rule: guarded_step.induct)
  case (create_session s st st')
  then show ?case
    by (auto simp: store_create_session_def with_connection_def evolves_def rows_evolve_append
        split: if_splits)
next
  case (update_if_status sid ex th tu su ts nw st b st')
  then show ?case
    by (auto simp: store_update_session_if_status_def with_connection_split is_active_def row_simps
        intro!: evolves_sessions split: if_splits)
next
  case (mark_waiting i w ts st b st')
  then show ?case by (blast intro: evolves_mark_waiting)
next
  case (attach iid m st b st')
  then show ?case
    by (auto simp: store_attach_lark_message_id_def with_connection_split
        intro!: evolves_interactions split: if_splits)
next
  case (resolve_refresh iid d a ts v st b st')
  then show ?case by (blast intro: evolves_resolve_refresh)
next
  case (cancel_refresh iid ts st b st')
  then show ?case by (blast intro: evolves_cancel_refresh)
next
  case (claim sid t su p ts st r st')
  then show ?case
    by (auto simp: store_claim_session_terminal_def with_connection_split close_pending_def row_simps
        intro!: evolves_both evolves_sessions split: if_splits)
next
  case (finish_turn sid tu su ts st r st')
  then show ?case
    by (auto simp: store_finish_interactive_turn_def with_connection_split close_pending_def row_simps
        intro!: evolves_both evolves_sessions split: if_splits)
next
  case (reconcile t nw st r st')
  then show ?case
    by (auto simp: store_reconcile_startup_def with_connection_split row_simps
        intro!: evolves_both split: if_splits)
qed (auto simp: store_record_event_once_def store_enqueue_outbox_def store_mark_outbox_sent_def
      store_record_outbox_failure_def store_record_audit_def store_close_def with_connection_split
      intro!: evolves_other_tables split: if_splits)

lemma store_step_evolves: "store_step st st' \<Longrightarrow> evolves (\<lambda>_. True) st st'"
proof (induction rule: store_step.induct)
  case (guarded st st')
  then show ?case by (auto intro: evolves_weaken [OF guarded_step_evolves])
next
  case (any_mark_waiting i w ts st b st')
  then show ?case by (blast intro: evolves_mark_waiting)
next
  case (any_create_interaction i st st')
  then show ?case
    by (auto simp: store_create_interaction_def with_connection_def intro: evolves_insert
        split: if_splits)
qed (auto simp: store_create_session_def store_update_session_def store_update_session_if_status_def
      store_resolve_interaction_def store_expire_interaction_def store_cancel_pending_interactions_def
      close_pending_def with_connection_split row_simps evolves_def rows_evolve_append
      intro!: rows_evolve_update split: if_splits sum.splits option.splits)

lemma closed_row_final:
  "store_step st st' \<Longrightarrow> i \<in> set (interactions st) \<Longrightarrow> \<not> is_pending i \<Longrightarrow> i \<in> set (interactions st')"
  using store_step_evolves unfolding evolves_def by (blast intro: rows_evolve_final)

lemma terminal_row_final:
  "guarded_step st st' \<Longrightarrow> s \<in> set (sessions st) \<Longrightarrow> \<not> active_row s \<Longrightarrow> s \<in> set (sessions st')"
  using guarded_step_evolves unfolding evolves_def by (blast intro: rows_evolve_final)

subsection \<open>The contracts\<close>

definition records_event :: "string \<Rightarrow> codex_store \<Rightarrow> bool \<Rightarrow> codex_store \<Rightarrow> bool" where
  "records_event e st b st' \<longleftrightarrow> (\<exists>r nw. store_record_event_once e r nw st = Inr (b, st'))"

definition decides_interaction :: "string \<Rightarrow> codex_store \<Rightarrow> bool \<Rightarrow> codex_store \<Rightarrow> bool" where
  "decides_interaction iid st b st' \<longleftrightarrow>
     (\<exists>d a ts v. store_resolve_interaction_and_refresh_session iid d a ts v st = Inr (b, st'))"

definition ends_session :: "string \<Rightarrow> codex_store \<Rightarrow> bool \<Rightarrow> codex_store \<Rightarrow> bool" where
  "ends_session sid st b st' \<longleftrightarrow>
     (\<exists>t su p ts r. store_claim_session_terminal sid t su p ts st = Inr (r, st') \<and> b = (r \<noteq> None))"

definition closed_ids :: "codex_store \<Rightarrow> string set" where
  "closed_ids st = i_id ` {i \<in> set (interactions st). \<not> is_pending i}"

definition ended_ids :: "codex_store \<Rightarrow> string set" where
  "ended_ids st = s_id ` {s \<in> set (sessions st). \<not> active_row s}"

lemma closed_ids_step: "store_step st st' \<Longrightarrow> closed_ids st \<subseteq> closed_ids st'"
  unfolding closed_ids_def using closed_row_final by blast

lemma ended_ids_step: "guarded_step st st' \<Longrightarrow> ended_ids st \<subseteq> ended_ids st'"
  unfolding ended_ids_def using terminal_row_final by blast

text \<open>A winning decision selects one pending row, and closes it.\<close>

lemma count_where_pos: "count_where p rows = Suc 0 \<Longrightarrow> \<exists>r\<in>set rows. p r"
  using count_where_0_iff [of p rows] by auto

lemma unique_row: "distinct (map key rows) \<Longrightarrow> x \<in> set rows \<Longrightarrow> y \<in> set rows \<Longrightarrow> key x = key y \<Longrightarrow> x = y"
  by (auto simp: distinct_map dest: inj_onD)

lemma refresh_interactions [simp]: "interactions (refresh_session sid t st) = interactions st"
  by (simp add: refresh_session_def Let_def)

lemma decide_effect:
  assumes "store_wf st"
    and "store_resolve_interaction_and_refresh_session iid d a ts v st = Inr (True, st')"
  shows "\<exists>row e. row \<in> set (interactions st) \<and> is_pending row \<and> i_id row = iid \<and>
    normalize_decision (i_kind row) d = Inr e \<and> v \<noteq> I_PENDING \<and>
    interactions st' = update_where (\<lambda>i. i_id i = iid \<and> is_pending i) (decide_row v e a ts)
      (interactions st)"
proof -
  have v: "v \<in> {I_RESOLVED, I_EXPIRED}" and "\<not> store_closed st"
    using assms(2) by (auto simp: store_resolve_interaction_and_refresh_session_def
        with_connection_def split: if_splits)
  then obtain r0 e where r0: "find (\<lambda>i. i_id i = iid) (interactions st) = Some r0"
    and e: "normalize_decision (i_kind r0) d = Inr e"
    and one: "count_where (\<lambda>i. i_id i = iid \<and> is_pending i) (interactions st) = 1"
    and st': "interactions st' = update_where (\<lambda>i. i_id i = iid \<and> is_pending i)
      (decide_row v e a ts) (interactions st)"
    using assms(2) by (auto simp: store_resolve_interaction_and_refresh_session_def
        with_connection_split split: if_splits option.splits sum.splits)
  have "is_pending r0"
    using one r0 assms(1)
    by (auto simp: store_wf_def wf_interactions_def count_where_key split: if_splits)
  then show ?thesis using find_Some_in [OF r0] e v st' by blast
qed

text \<open>The three contracts: a received event, the decision of an interaction, the end of a session.\<close>

lemma records_step: "records_event e st b st' \<Longrightarrow> store_step st st'"
  unfolding records_event_def by (blast intro: store_step.guarded guarded_step.record_event)

lemma records_event_facts:
  assumes "records_event e st True st'"
  shows "e \<notin> fst ` set (event_dedupe st)" and "e \<in> fst ` set (event_dedupe st')"
  using assms
  by (auto simp: records_event_def store_record_event_once_def with_connection_def split: if_splits)

lemma event_ids_step: "store_step st st' \<Longrightarrow> fst ` set (event_dedupe st) \<subseteq> fst ` set (event_dedupe st')"
  using store_step_evolves unfolding evolves_def by blast

interpretation events: first_wins "\<lambda>_. True" store_step records_event "\<lambda>st. fst ` set (event_dedupe st)"
  by unfold_locales (blast dest: records_event_facts event_ids_step intro: records_step)+

lemma decides_step: "decides_interaction iid st b st' \<Longrightarrow> store_step st st'"
  unfolding decides_interaction_def by (blast intro: store_step.guarded guarded_step.resolve_refresh)

lemma decides_facts:
  assumes "store_wf st" "decides_interaction iid st True st'"
  shows "iid \<notin> closed_ids st" and "iid \<in> closed_ids st'"
proof -
  obtain d a ts v row e where row: "row \<in> set (interactions st)" "is_pending row" "i_id row = iid"
    and v: "v \<noteq> I_PENDING"
    and st': "interactions st' = update_where (\<lambda>i. i_id i = iid \<and> is_pending i)
      (decide_row v e a ts) (interactions st)"
    using assms decide_effect unfolding decides_interaction_def by meson
  show "iid \<notin> closed_ids st"
    using assms(1) row unique_row [of i_id "interactions st"]
    by (auto simp: closed_ids_def store_wf_def wf_interactions_def)
  have "decide_row v e a ts row \<in> set (interactions st')"
    using row unfolding st' set_update_where by (auto intro: rev_image_eqI)
  then show "iid \<in> closed_ids st'"
    using row v unfolding closed_ids_def
    by (auto simp: row_simps intro!: image_eqI [of _ _ "decide_row v e a ts row"])
qed

interpretation decisions: first_wins store_wf store_step decides_interaction closed_ids
  by unfold_locales
    (auto dest: decides_facts closed_ids_step intro: store_step_wf decides_step)

lemma terminal_not_active: "t \<in> set TERMINAL_SESSION_STATUSES \<Longrightarrow> \<not> is_active t"
  by (auto simp: is_active_def ACTIVE_SESSION_STATUSES_def TERMINAL_SESSION_STATUSES_def)

lemma ends_step: "ends_session sid st b st' \<Longrightarrow> guarded_step st st'"
  unfolding ends_session_def by (blast intro: guarded_step.claim)

lemma ends_facts:
  assumes "store_wf st" "ends_session sid st True st'"
  shows "sid \<notin> ended_ids st" and "sid \<in> ended_ids st'"
proof -
  obtain t su ts where t: "\<not> is_active t"
    and one: "count_where (\<lambda>s. s_id s = sid \<and> active_row s) (sessions st) = Suc 0"
    and st': "sessions st' = update_where (\<lambda>s. s_id s = sid \<and> active_row s)
      (\<lambda>s. s\<lparr>s_status := t, s_summary := safe_summary su, s_updated_at := ts\<rparr>) (sessions st)"
    using assms(2) unfolding ends_session_def
    by (auto simp: store_claim_session_terminal_def with_connection_split
        dest!: terminal_not_active split: if_splits)
  obtain row where row: "row \<in> set (sessions st)" "s_id row = sid" "active_row row"
    using count_where_pos [OF one] by blast
  show "sid \<notin> ended_ids st"
    using assms(1) row unique_row [of s_id "sessions st"]
    by (auto simp: ended_ids_def store_wf_def)
  let ?r = "row\<lparr>s_status := t, s_summary := safe_summary su, s_updated_at := ts\<rparr>"
  have "?r \<in> set (sessions st')"
    using row unfolding st' set_update_where by (auto intro: rev_image_eqI)
  then show "sid \<in> ended_ids st'"
    using row t unfolding ended_ids_def by (auto intro!: image_eqI [of _ _ ?r])
qed

interpretation endings: first_wins store_wf guarded_step ends_session ended_ids
  by unfold_locales
    (auto dest: ends_facts ended_ids_step intro: guarded_step_wf ends_step)

subsection \<open>Delivery of the outbox\<close>

abbreviation unsent :: "outbox_item \<Rightarrow> bool" where
  "unsent r \<equiv> o_sent_at r = None"

lemma insert_interaction_outbox: "insert_interaction i st = Inr st' \<Longrightarrow> outbox st' = outbox st"
  by (auto simp: insert_interaction_def split: if_splits)

lemma refresh_outbox [simp]: "outbox (refresh_session sid t st) = outbox st"
  by (simp add: refresh_session_def Let_def)

lemmas writer_defs =
  store_create_session_def store_update_session_def store_update_session_if_status_def
  store_create_interaction_def store_create_interaction_and_mark_waiting_def
  store_attach_lark_message_id_def store_resolve_interaction_def
  store_resolve_interaction_and_refresh_session_def store_cancel_interaction_and_refresh_session_def
  store_claim_session_terminal_def store_finish_interactive_turn_def store_expire_interaction_def
  store_cancel_pending_interactions_def store_record_event_once_def store_reconcile_startup_def
  store_record_audit_def store_close_def with_connection_split

lemma guarded_step_outbox: "guarded_step st st' \<Longrightarrow> rows_evolve unsent o_id (outbox st) (outbox st')"
proof (induction rule: guarded_step.induct)
  case (enqueue ty p s ag sn i nx cr nw st n st')
  then show ?case
    by (auto simp: store_enqueue_outbox_def with_connection_split rows_evolve_append split: if_splits)
next
  case (mark_sent oid t nw st b st')
  then show ?case
    by (auto simp: store_mark_outbox_sent_def with_connection_split intro!: rows_evolve_update
        split: if_splits)
next
  case (record_failure oid e nx st b st')
  then show ?case
    by (auto simp: store_record_outbox_failure_def with_connection_split intro!: rows_evolve_update
        split: if_splits)
qed (auto simp: writer_defs dest!: insert_interaction_outbox split: if_splits sum.splits option.splits)

lemma store_step_outbox: "store_step st st' \<Longrightarrow> rows_evolve unsent o_id (outbox st) (outbox st')"
proof (induction rule: store_step.induct)
  case (guarded st st')
  then show ?case by (rule guarded_step_outbox)
qed (auto simp: writer_defs store_get_session_def dest!: insert_interaction_outbox
      split: if_splits sum.splits option.splits)

definition marks_sent :: "int \<Rightarrow> codex_store \<Rightarrow> bool \<Rightarrow> codex_store \<Rightarrow> bool" where
  "marks_sent n st b st' \<longleftrightarrow> (\<exists>t nw. store_mark_outbox_sent n t nw st = Inr (b, st'))"

definition sent_ids :: "codex_store \<Rightarrow> int set" where
  "sent_ids st = o_id ` {r \<in> set (outbox st). \<not> unsent r}"

lemma sent_ids_step: "store_step st st' \<Longrightarrow> sent_ids st \<subseteq> sent_ids st'"
  unfolding sent_ids_def using rows_evolve_final [OF store_step_outbox] by blast

lemma marks_step: "marks_sent n st b st' \<Longrightarrow> store_step st st'"
  unfolding marks_sent_def by (blast intro: store_step.guarded guarded_step.mark_sent)

lemma marks_facts:
  assumes "store_wf st" "marks_sent n st True st'"
  shows "n \<notin> sent_ids st" and "n \<in> sent_ids st'"
proof -
  obtain t where one: "count_where (\<lambda>r. o_id r = n \<and> unsent r) (outbox st) = Suc 0"
    and st': "outbox st' = update_where (\<lambda>r. o_id r = n \<and> unsent r)
      (\<lambda>r. r\<lparr>o_sent_at := Some t, o_last_error := None\<rparr>) (outbox st)"
    using assms(2) unfolding marks_sent_def
    by (auto simp: store_mark_outbox_sent_def with_connection_split split: if_splits)
  obtain row where row: "row \<in> set (outbox st)" "o_id row = n" "unsent row"
    using count_where_pos [OF one] by blast
  have d: "distinct (map o_id (outbox st))"
    using assms(1) by (simp add: store_wf_def wf_outbox_def strict_sorted_iff)
  show "n \<notin> sent_ids st"
  proof
    assume "n \<in> sent_ids st"
    then obtain r where r: "r \<in> set (outbox st)" "o_id r = n" "\<not> unsent r"
      unfolding sent_ids_def by (metis (mono_tags, lifting) imageE mem_Collect_eq)
    have "r = row" using unique_row [OF d r(1) row(1)] r(2) row(2) by simp
    then show False using r(3) row(3) by simp
  qed
  let ?r = "row\<lparr>o_sent_at := Some t, o_last_error := None\<rparr>"
  have "?r \<in> set (outbox st')"
    using row unfolding st' set_update_where by (auto intro: rev_image_eqI)
  then show "n \<in> sent_ids st'"
    using row unfolding sent_ids_def by (auto intro!: image_eqI [of _ _ ?r])
qed

interpretation deliveries: first_wins store_wf store_step marks_sent sent_ids
  by unfold_locales (auto dest: marks_facts sent_ids_step intro: store_step_wf marks_step)

end
