(* ===== verification/Store_Coherence.thy ===== *)
theory Store_Coherence
  imports Store_Contract
begin

text \<open>
  The agreement of a session's status with the interactions it waits for: under the methods
  the orchestrator, the daemon and the router call, a session that has ended has no pending
  interaction, a session that waits for an approval has one, and a session that waits for input
  has a pending question.
\<close>

definition waits_for :: "string \<Rightarrow> codex_store \<Rightarrow> interaction_kind list" where
  "waits_for session_id st = map i_kind (pending_of_session session_id (interactions st))"

definition coherent_row :: "codex_store \<Rightarrow> codex_session \<Rightarrow> bool" where
  "coherent_row st s \<longleftrightarrow>
     (\<not> is_active (s_status s) \<longrightarrow> waits_for (s_id s) st = []) \<and>
     (s_status s = S_WAITING_FOR_INPUT \<longrightarrow> USER_INPUT \<in> set (waits_for (s_id s) st)) \<and>
     (s_status s = S_WAITING_FOR_APPROVAL \<longrightarrow> waits_for (s_id s) st \<noteq> [])"

definition coherent :: "codex_store \<Rightarrow> bool" where
  "coherent st \<longleftrightarrow> (\<forall>s\<in>set (sessions st). coherent_row st s)"

lemma coherent_row_running [simp]: "s_status s = S_RUNNING \<Longrightarrow> coherent_row st s"
  by (simp add: coherent_row_def is_active_def ACTIVE_SESSION_STATUSES_def)

lemma coherent_row_starting [simp]: "s_status s = S_STARTING \<Longrightarrow> coherent_row st s"
  by (simp add: coherent_row_def is_active_def ACTIVE_SESSION_STATUSES_def)

lemma coherent_row_none:
  "waits_for (s_id s) st = [] \<Longrightarrow> \<not> is_active (s_status s) \<Longrightarrow> coherent_row st s"
  by (auto simp: coherent_row_def is_active_def ACTIVE_SESSION_STATUSES_def)

lemma coherent_row_cong:
  "waits_for (s_id s) st = waits_for (s_id s') st' \<Longrightarrow> s_status s = s_status s' \<Longrightarrow>
   coherent_row st s = coherent_row st' s'"
  by (simp add: coherent_row_def)

lemma coherent_row_refreshed:
  "s_status s = refreshed_status (waits_for (s_id s) st) \<Longrightarrow> coherent_row st s"
  by (auto simp: coherent_row_def refreshed_status_def is_active_def ACTIVE_SESSION_STATUSES_def
      split: if_splits)

text \<open>Where the status of a row is kept, or every row selected becomes coherent.\<close>

lemma coherent_update:
  assumes "coherent st"
    and "\<And>s. s \<in> set (sessions st) \<Longrightarrow> p s \<Longrightarrow> coherent_row st' (f s)"
    and "\<And>s. s \<in> set (sessions st) \<Longrightarrow> \<not> p s \<Longrightarrow> coherent_row st s \<Longrightarrow> coherent_row st' s"
    and "sessions st' = update_where p f (sessions st)"
  shows "coherent st'"
  using assms by (auto simp: coherent_def set_update_where)

lemma waits_for_same:
  "interactions st' = interactions st \<Longrightarrow> waits_for sid st' = waits_for sid st"
  by (simp add: waits_for_def)

lemma coherent_same:
  "coherent st \<Longrightarrow> sessions st' = sessions st \<Longrightarrow> interactions st' = interactions st \<Longrightarrow> coherent st'"
  by (simp add: coherent_def coherent_row_def waits_for_def)

lemma pending_of_session_close:
  assumes "\<And>i. \<not> is_pending (f i)"
  shows "pending_of_session sid (update_where p f rows) = filter (\<lambda>i. \<not> p i) (pending_of_session sid rows)"
  unfolding pending_of_session_def by (rule filter_update_where_off) (use assms in simp)

text \<open>The pending interactions of the other sessions are not touched by a close.\<close>

lemma waits_for_close_other:
  assumes "\<And>i. i \<in> set (interactions st) \<Longrightarrow> is_pending i \<Longrightarrow> p i \<Longrightarrow> i_session_id i \<noteq> sid"
    and "\<And>i. \<not> is_pending (f i)" and "interactions st' = update_where p f (interactions st)"
  shows "waits_for sid st' = waits_for sid st"
proof -
  have "filter (\<lambda>i. \<not> p i) (pending_of_session sid (interactions st)) = pending_of_session sid (interactions st)"
    unfolding filter_id_conv using assms(1) by (auto simp: pending_of_session_def)
  then show ?thesis by (simp add: waits_for_def assms(3) pending_of_session_close [OF assms(2)])
qed

lemma waits_for_close_all:
  assumes "\<And>i. i \<in> set (interactions st) \<Longrightarrow> is_pending i \<Longrightarrow> i_session_id i = sid \<Longrightarrow> p i"
    and "\<And>i. \<not> is_pending (f i)" and "interactions st' = update_where p f (interactions st)"
  shows "waits_for sid st' = []"
proof -
  have "filter (\<lambda>i. \<not> p i) (pending_of_session sid (interactions st)) = []"
    using assms(1) by (auto simp: pending_of_session_def filter_empty_conv)
  then show ?thesis by (simp add: waits_for_def assms(3) pending_of_session_close [OF assms(2)])
qed

subsection \<open>The methods keep the agreement\<close>

lemma coherent_create_session:
  assumes "store_create_session s st = Inr st'" "s_status s = S_STARTING" "coherent st"
  shows "coherent st'"
  using assms
  by (auto simp: store_create_session_def with_connection_def coherent_def coherent_row_def
      waits_for_def is_active_def ACTIVE_SESSION_STATUSES_def split: if_splits)

lemma coherent_update_if_status:
  assumes "store_update_session_if_status sid ex S_RUNNING th tu su ts nw st = Inr (b, st')"
    and "coherent st"
  shows "coherent st'"
proof (cases "ex = []")
  case True
  then show ?thesis using assms by (simp add: store_update_session_if_status_def)
next
  case False
  then have st': "st' = st\<lparr>sessions := update_where (\<lambda>s. s_id s = sid \<and> s_status s \<in> set ex)
      (assign_session (Some S_RUNNING) th tu su (opt_or ts nw)) (sessions st)\<rparr>"
    using assms(1) by (auto simp: store_update_session_if_status_def with_connection_split split: if_splits)
  show ?thesis
    by (rule coherent_update [OF assms(2)])
      (auto simp: st' assign_session_def coherent_row_def waits_for_def is_active_def
        ACTIVE_SESSION_STATUSES_def)
qed

lemma coherent_refresh:
  assumes row: "row \<in> set (interactions st)" "i_id row = iid" and wf: "store_wf st"
    and f: "\<And>i. \<not> is_pending (f i)"
    and co: "coherent st"
  shows "coherent (refresh_session (i_session_id row) ts
    (st\<lparr>interactions := update_where (\<lambda>i. i_id i = iid \<and> is_pending i) f (interactions st)\<rparr>))"
    (is "coherent (refresh_session ?sid ts ?st1)")
proof (rule coherent_update [OF co])
  let ?st2 = "refresh_session ?sid ts ?st1"
  show "sessions ?st2 = update_where (\<lambda>s. s_id s = ?sid \<and> active_row s)
      (\<lambda>s. s\<lparr>s_status := refreshed_status (waits_for ?sid ?st1), s_updated_at := ts\<rparr>) (sessions st)"
    by (simp add: refresh_session_def waits_for_def Let_def)
  show "coherent_row ?st2 (s\<lparr>s_status := refreshed_status (waits_for ?sid ?st1), s_updated_at := ts\<rparr>)"
    if "s \<in> set (sessions st)" "s_id s = ?sid \<and> active_row s" for s
    by (rule coherent_row_refreshed) (use that in \<open>simp add: waits_for_def\<close>)
  show "coherent_row ?st2 s"
    if s: "s \<in> set (sessions st)" "\<not> (s_id s = ?sid \<and> active_row s)" "coherent_row st s" for s
  proof (cases "s_id s = ?sid")
    case True
    then have "waits_for (s_id s) st = []" and a: "\<not> active_row s"
      using s by (auto simp: coherent_row_def)
    then have "waits_for (s_id s) ?st2 = []"
      by (simp add: waits_for_def pending_of_session_close [OF f])
    then show ?thesis using a by (rule coherent_row_none)
  next
    case False
    have "waits_for (s_id s) ?st2 = waits_for (s_id s) st"
    proof (rule waits_for_close_other [OF _ f])
      show "interactions ?st2 = update_where (\<lambda>i. i_id i = iid \<and> is_pending i) f (interactions st)"
        by simp
      fix i assume "i \<in> set (interactions st)" "is_pending i" "i_id i = iid \<and> is_pending i"
      then have "i = row"
        using row wf unique_row [of i_id "interactions st" i row]
        by (auto simp: store_wf_def wf_interactions_def)
      then show "i_session_id i \<noteq> s_id s" using False by simp
    qed
    then show ?thesis using s(3) by (simp add: coherent_row_def)
  qed
qed

lemma no_update_where: "count_where p rows = 0 \<Longrightarrow> update_where p f rows = rows"
  by (simp add: count_where_0_iff update_where_id)

lemma key_count_cases:
  assumes "distinct (map key rows)"
  shows "count_where (\<lambda>r. key r = k \<and> q r) rows = 0 \<or> count_where (\<lambda>r. key r = k \<and> q r) rows = Suc 0"
  using count_where_key_le1 [OF assms, of k q] by linarith

lemma coherent_resolve_refresh:
  assumes r: "store_resolve_interaction_and_refresh_session iid d a ts v st = Inr (b, st')"
    and wf: "store_wf st" and co: "coherent st"
  shows "coherent st'"
proof -
  have d: "distinct (map i_id (interactions st))" using wf by (simp add: store_wf_def wf_interactions_def)
  show ?thesis
    using r co key_count_cases [OF d, of iid is_pending]
    by (auto simp: store_resolve_interaction_and_refresh_session_def with_connection_split
        no_update_where split: if_splits option.splits sum.splits
        dest!: find_Some_in intro!: coherent_refresh [OF _ _ wf _ co])
qed

lemma coherent_cancel_refresh:
  assumes r: "store_cancel_interaction_and_refresh_session iid ts st = Inr (b, st')"
    and wf: "store_wf st" and co: "coherent st"
  shows "coherent st'"
proof -
  have d: "distinct (map i_id (interactions st))" using wf by (simp add: store_wf_def wf_interactions_def)
  show ?thesis
    using r co key_count_cases [OF d, of iid is_pending]
    by (auto simp: store_cancel_interaction_and_refresh_session_def with_connection_split
        no_update_where split: if_splits option.splits
        dest!: find_Some_in intro!: coherent_refresh [OF _ _ wf _ co])
qed

lemma coherent_mark_waiting:
  assumes r: "store_create_interaction_and_mark_waiting i w ts st = Inr (b, st')"
    and p: "is_pending i"
    and w: "w = (if i_kind i = USER_INPUT then S_WAITING_FOR_INPUT else S_WAITING_FOR_APPROVAL)"
    and wf: "store_wf st" and co: "coherent st"
  shows "coherent st'"
proof -
  let ?sel = "\<lambda>s. s_id s = i_session_id i \<and> active_row s"
  let ?f = "\<lambda>s. s\<lparr>s_status := w, s_updated_at := ts\<rparr>"
  have d: "distinct (map s_id (sessions st))" using wf by (simp add: store_wf_def)
  have same: "st\<lparr>sessions := sessions st\<rparr> = st" by simp
  have b: "b \<Longrightarrow> insert_interaction i (st\<lparr>sessions := update_where ?sel ?f (sessions st)\<rparr>) = Inr st'"
      "b \<Longrightarrow> count_where ?sel (sessions st) = Suc 0" and nb: "\<not> b \<Longrightarrow> st' = st"
    using r key_count_cases [OF d, of "i_session_id i" active_row]
    by (auto simp: store_create_interaction_and_mark_waiting_def with_connection_split
        no_update_where split: if_splits sum.splits)
  show ?thesis
  proof (cases b)
    case False
    then show ?thesis using co nb by simp
  next
    case True
    note 2 = b(1) [OF True]
    let ?i = "i\<lparr>i_payload_summary := safe_summary (i_payload_summary i)\<rparr>"
    have ss: "sessions st' = update_where ?sel ?f (sessions st)"
      and ii: "interactions st' = interactions st @ [?i]"
      using 2 by (auto simp: insert_interaction_def split: if_splits)
    have wait: "waits_for (i_session_id i) st' = waits_for (i_session_id i) st @ [i_kind i]"
      using p by (simp add: waits_for_def ii pending_of_session_def is_pending_def)
    have other: "sid \<noteq> i_session_id i \<Longrightarrow> waits_for sid st' = waits_for sid st" for sid
      by (simp add: waits_for_def ii pending_of_session_def)
    show ?thesis
    proof (rule coherent_update [OF co _ _ ss])
      show "coherent_row st' (?f s)" if "?sel s" for s
        using that w wait by (auto simp: coherent_row_def is_active_def ACTIVE_SESSION_STATUSES_def)
      show "coherent_row st' s" if s: "s \<in> set (sessions st)" "\<not> ?sel s" "coherent_row st s" for s
      proof (cases "s_id s = i_session_id i")
        case True
        then obtain t where t: "t \<in> set (sessions st)" "s_id t = i_session_id i" "active_row t"
          using count_where_pos [OF b(2) [OF \<open>b\<close>]] by blast
        then show ?thesis using True s d unique_row [of s_id "sessions st" s t] by auto
      next
        case False
        then show ?thesis using s(3) other by (simp add: coherent_row_def)
      qed
    qed
  qed
qed

text \<open>Ending a session, and ending a turn, close all its pending interactions.\<close>

lemma coherent_close_session:
  assumes wf: "store_wf st" and co: "coherent st"
    and p: "\<And>s. p s \<Longrightarrow> s_id s = sid \<and> active_row s"
    and f: "\<And>s. s_id (f s) = s_id s" "\<And>s. \<not> is_active (s_status (f s)) \<or> s_status (f s) = S_RUNNING"
    and v: "v \<noteq> I_PENDING" and one: "count_where p (sessions st) = Suc 0"
  shows "coherent (st\<lparr>sessions := update_where p f (sessions st),
    interactions := close_pending sid v ts (interactions st)\<rparr>)" (is "coherent ?st'")
proof (rule coherent_update [OF co])
  have close: "interactions ?st' = update_where (\<lambda>i. i_session_id i = sid \<and> is_pending i)
      (close_row v ts) (interactions st)" by (simp add: close_pending_def)
  have none: "waits_for sid ?st' = []"
    by (rule waits_for_close_all [OF _ _ close]) (simp_all add: v)
  have other: "k \<noteq> sid \<Longrightarrow> waits_for k ?st' = waits_for k st" for k
    by (rule waits_for_close_other [OF _ _ close]) (auto simp: v)
  show "sessions ?st' = update_where p f (sessions st)" by simp
  show "coherent_row ?st' (f s)" if s: "p s" for s
  proof -
    have "waits_for (s_id (f s)) ?st' = []" using none p [OF s] f(1) by simp
    then show ?thesis using f(2) [of s] coherent_row_none coherent_row_running by blast
  qed
  obtain t where t: "t \<in> set (sessions st)" "p t" using count_where_pos [OF one] by blast
  show "coherent_row ?st' s" if s: "s \<in> set (sessions st)" "\<not> p s" "coherent_row st s" for s
  proof -
    have "s_id s \<noteq> sid"
      using t s p [OF t(2)] wf unique_row [of s_id "sessions st" s t] by (auto simp: store_wf_def)
    then show ?thesis using other s(3) by (simp add: coherent_row_def)
  qed
qed

lemma coherent_claim:
  assumes r: "store_claim_session_terminal sid t su p ts st = Inr (r, st')"
    and wf: "store_wf st" and co: "coherent st"
  shows "coherent st'"
proof -
  have d: "distinct (map s_id (sessions st))" using wf by (simp add: store_wf_def)
  show ?thesis
    using r co key_count_cases [OF d, of sid active_row]
    by (auto simp: store_claim_session_terminal_def with_connection_split no_update_where
        dest!: terminal_not_active split: if_splits
        intro!: coherent_close_session [OF wf co])
qed

lemma coherent_finish_turn:
  assumes r: "store_finish_interactive_turn sid tu su ts st = Inr (r, st')"
    and wf: "store_wf st" and co: "coherent st"
  shows "coherent st'"
proof -
  have d: "distinct (map s_id (sessions st))" using wf by (simp add: store_wf_def)
  show ?thesis
    using r co key_count_cases [OF d, of sid "\<lambda>s. s_turn_id s = Some tu \<and> active_row s"]
    by (auto simp: store_finish_interactive_turn_def with_connection_split no_update_where
        split: if_splits intro!: coherent_close_session [OF wf co])
qed

lemma coherent_reconcile:
  assumes r: "store_reconcile_startup t nw st = Inr (r, st')" and co: "coherent st"
  shows "coherent st'"
proof -
  let ?ts = "opt_or t nw"
  have st': "sessions st' = update_where active_row
        (\<lambda>s. s\<lparr>s_status := S_INTERRUPTED, s_updated_at := ?ts\<rparr>) (sessions st)"
    and close: "interactions st' = update_where is_pending (close_row I_EXPIRED ?ts) (interactions st)"
    using r by (auto simp: store_reconcile_startup_def with_connection_split split: if_splits)
  have none: "waits_for k st' = []" for k
    by (rule waits_for_close_all [OF _ _ close]) simp_all
  show ?thesis
    by (rule coherent_update [OF co _ _ st'(1)])
      (auto simp: coherent_row_def none is_active_def ACTIVE_SESSION_STATUSES_def)
qed

lemma coherent_attach:
  assumes "store_attach_lark_message_id iid m st = Inr (b, st')" "coherent st"
  shows "coherent st'"
proof -
  have "waits_for k st' = waits_for k st" for k
    using assms(1) unfolding waits_for_def pending_of_session_def
    by (auto simp: store_attach_lark_message_id_def with_connection_split is_pending_def
        intro!: map_filter_update_where_same split: if_splits)
  moreover have "sessions st' = sessions st"
    using assms(1) by (auto simp: store_attach_lark_message_id_def with_connection_split split: if_splits)
  ultimately show ?thesis using assms(2) by (simp add: coherent_def coherent_row_def)
qed

lemmas coherent_guarded =
  coherent_create_session coherent_update_if_status coherent_attach
  coherent_resolve_refresh coherent_cancel_refresh coherent_claim coherent_finish_turn
  coherent_reconcile

lemma guarded_step_coherent: "guarded_step st st' \<Longrightarrow> store_wf st \<Longrightarrow> coherent st \<Longrightarrow> coherent st'"
proof (induction rule: guarded_step.induct)
  case (mark_waiting i w ts st b st')
  then show ?case by (intro coherent_mark_waiting [OF mark_waiting.hyps(1)]) (auto simp: is_pending_def)
next
  case (record_event e r nw st b st')
  then show ?case
    by (auto simp: store_record_event_once_def with_connection_def intro: coherent_same split: if_splits)
next
  case (enqueue ty p s ag sn i nx cr nw st n st')
  then show ?case
    by (auto simp: store_enqueue_outbox_def with_connection_split intro: coherent_same split: if_splits)
next
  case (mark_sent oid t nw st b st')
  then show ?case
    by (auto simp: store_mark_outbox_sent_def with_connection_split intro: coherent_same split: if_splits)
next
  case (record_failure oid e nx st b st')
  then show ?case
    by (auto simp: store_record_outbox_failure_def with_connection_split intro: coherent_same split: if_splits)
next
  case (record_audit ev d s i a c nw st n st')
  then show ?case
    by (auto simp: store_record_audit_def with_connection_split intro: coherent_same split: if_splits)
next
  case (close st)
  then show ?case by (auto simp: store_close_def intro: coherent_same)
qed (blast intro: coherent_guarded)+

lemma guarded_reachable_wf: "guarded_reachable st \<Longrightarrow> store_wf st"
  by (induction rule: guarded_reachable.induct) (auto intro: wf_empty guarded_step_wf)

lemma guarded_reachable_coherent: "guarded_reachable st \<Longrightarrow> coherent st"
proof (induction rule: guarded_reachable.induct)
  case fresh
  then show ?case by (simp add: coherent_def empty_store_def)
next
  case (step st st')
  then show ?case by (blast intro: guarded_step_coherent guarded_reachable_wf)
qed

subsection \<open>The effect of a decision\<close>

lemma decide_pending:
  assumes "store_wf st" "\<not> store_closed st" "row \<in> set (interactions st)" "is_pending row"
    "v \<in> {I_RESOLVED, I_EXPIRED}"
  shows "case normalize_decision (i_kind row) d of
      Inl e \<Rightarrow> store_resolve_interaction_and_refresh_session (i_id row) d a ts v st = Inl e
    | Inr e \<Rightarrow> \<exists>st'. store_resolve_interaction_and_refresh_session (i_id row) d a ts v st = Inr (True, st') \<and>
        interactions st' = update_where (\<lambda>i. i = row) (decide_row v e a ts) (interactions st) \<and>
        sessions st' = update_where (\<lambda>s. s_id s = i_session_id row \<and> is_active (s_status s))
          (\<lambda>s. s\<lparr>s_status := refreshed_status (waits_for (i_session_id row) st'), s_updated_at := ts\<rparr>)
          (sessions st)"
proof -
  have d: "distinct (map i_id (interactions st))"
    using assms(1) by (simp add: store_wf_def wf_interactions_def)
  have f: "find (\<lambda>i. i_id i = i_id row) (interactions st) = Some row"
    using find_key_unique [OF d assms(3)] by simp
  have one: "count_where (\<lambda>i. i_id i = i_id row \<and> is_pending i) (interactions st) = Suc 0"
    by (simp add: count_where_key [OF d] f assms(4))
  have same: "update_where (\<lambda>i. i_id i = i_id row \<and> is_pending i) g (interactions st) =
      update_where (\<lambda>i. i = row) g (interactions st)" for g
    using unique_row [OF d _ assms(3)] assms(4) by (auto simp: update_where_def)
  show ?thesis
    using assms(2,5) f one
    by (auto simp: store_resolve_interaction_and_refresh_session_def with_connection_split same
        refresh_session_def waits_for_def split: sum.split)
qed

end
