(* ===== verification/Store_Properties.thy ===== *)
theory Store_Properties
  imports Store_Coherence
begin

text \<open>
  The properties of the store: what each method promises to its callers, over every store the
  methods can reach. The example store at the head of the theory holds one session that waits
  for one approval; the instances of the properties are about it.
\<close>

subsection \<open>An example store\<close>

definition ex_session :: codex_session where
  "ex_session = \<lparr>s_id = ''s1'', s_thread_id = None, s_turn_id = None, s_name = ''demo'', s_cwd = ''/tmp'',
     s_model = None, s_sandbox = ''workspace-write'', s_status = S_STARTING, s_summary = '''',
     s_created_at = 0, s_updated_at = 0\<rparr>"

definition ex_request :: pending_interaction where
  "ex_request = \<lparr>i_id = ''i1'', i_session_id = ''s1'', i_request_id = ''7'', i_kind = EXEC_APPROVAL,
     i_status = I_PENDING, i_lark_message_id = None, i_payload_summary = '''', i_requested_at = 1,
     i_resolved_at = None, i_expires_at = 60, i_actor_id = None, i_decision = None\<rparr>"

definition ex_waiting :: codex_store where
  "ex_waiting = empty_store\<lparr>sessions := [ex_session\<lparr>s_status := S_WAITING_FOR_APPROVAL, s_updated_at := 1\<rparr>],
     interactions := [ex_request]\<rparr>"

lemma safe_summary_Nil [simp]: "safe_summary [] = []"
  by code_simp

lemma ex_created: "store_create_session ex_session empty_store =
    Inr (empty_store\<lparr>sessions := [ex_session]\<rparr>)"
  by (simp add: store_create_session_def with_connection_def ex_session_def empty_store_def)

lemma ex_marked: "store_create_interaction_and_mark_waiting ex_request S_WAITING_FOR_APPROVAL 1
    (empty_store\<lparr>sessions := [ex_session]\<rparr>) = Inr (True, ex_waiting)"
  by (simp add: store_create_interaction_and_mark_waiting_def with_connection_split ex_waiting_def
      ex_session_def ex_request_def empty_store_def insert_interaction_def interaction_valid_def
      is_active_def ACTIVE_SESSION_STATUSES_def)

lemma ex_guarded: "guarded_reachable ex_waiting"
proof -
  have "guarded_reachable (empty_store\<lparr>sessions := [ex_session]\<rparr>)"
    by (rule guarded_reachable.step [OF guarded_reachable.fresh guarded_step.create_session [OF ex_created]])
      (simp add: ex_session_def)
  then show ?thesis
    by (rule guarded_reachable.step) (rule guarded_step.mark_waiting [OF ex_marked], simp_all add: ex_request_def)
qed

lemma guarded_is_reachable: "guarded_reachable st \<Longrightarrow> store_reachable st"
  by (induction rule: guarded_reachable.induct) (auto intro: store_reachable.intros store_step.guarded)

lemmas ex_reachable = guarded_is_reachable [OF ex_guarded]

subsection \<open>Invariants\<close>

text \<open>
  C1. Whatever methods run, in whatever order and with whatever arguments, the tables stay well
  formed: primary keys are unique, at most one pending interaction carries a given request
  identifier, every reference points to a row, a pending interaction has no decision, actor or
  resolution time, summaries respect the limit, and outbox and audit identifiers only grow.
\<close>

theorem store_tables_well_formed: "store_reachable st \<Longrightarrow> store_wf st"
  by (rule store_reachable_wf)

theorem store_tables_well_formed_ex: "store_wf ex_waiting"
  by (rule store_tables_well_formed [OF ex_reachable])

text \<open>
  C2. Under the methods the orchestrator, the daemon and the control router call, the status of
  a session agrees with its pending interactions: a session that has ended waits for nothing, one
  that waits for input has a pending question and one that waits for an approval has a pending
  interaction.
\<close>

theorem session_status_coherent:
  assumes "guarded_reachable st" "s \<in> set (sessions st)"
  shows "coherent_row st s"
  using assms guarded_reachable_coherent by (auto simp: coherent_def)

theorem session_status_coherent_ex:
  "coherent_row ex_waiting (ex_session\<lparr>s_status := S_WAITING_FOR_APPROVAL, s_updated_at := 1\<rparr>)"
  by (rule session_status_coherent [OF ex_guarded]) (simp add: ex_waiting_def)

subsection \<open>Races with one winner\<close>

lemma ex_decided: "store_resolve_interaction_and_refresh_session ''i1'' ''approved'' ''ou_1'' 5 I_RESOLVED ex_waiting =
    Inr (True, ex_waiting\<lparr>sessions := [ex_session\<lparr>s_status := S_RUNNING, s_updated_at := 5\<rparr>],
      interactions := [decide_row I_RESOLVED APPROVED ''ou_1'' 5 ex_request]\<rparr>)"
  by (simp add: store_resolve_interaction_and_refresh_session_def with_connection_split ex_waiting_def
      ex_session_def ex_request_def empty_store_def is_pending_def decide_row_def refresh_session_def
      pending_of_session_def refreshed_status_def is_active_def ACTIVE_SESSION_STATUSES_def
      normalize_decision_def decision_of_def all_decisions_def)

lemma ex_decides: "decides_interaction ''i1'' ex_waiting True (ex_waiting\<lparr>
      sessions := [ex_session\<lparr>s_status := S_RUNNING, s_updated_at := 5\<rparr>],
      interactions := [decide_row I_RESOLVED APPROVED ''ou_1'' 5 ex_request]\<rparr>)"
  unfolding decides_interaction_def using ex_decided by blast

text \<open>
  C3. An interaction is decided at most once. In any run of the store in which the methods that
  decide it (from a Lark reply, from the terminal, from a timeout) interleave with any other
  method, at most one of those calls reports that it decided.
\<close>

theorem interaction_decided_once:
  assumes "store_reachable st" "decisions.attempts iid st bs st'"
  shows "count_list bs True \<le> 1"
  by (rule decisions.at_most_one_win [OF assms(2)]) (rule store_reachable_wf [OF assms(1)])

theorem interaction_decided_once_ex:
  "\<exists>st'. decisions.attempts ''i1'' ex_waiting [True] st' \<and> count_list [True] True \<le> 1"
proof -
  have "decisions.attempts ''i1'' ex_waiting [True] (ex_waiting\<lparr>
      sessions := [ex_session\<lparr>s_status := S_RUNNING, s_updated_at := 5\<rparr>],
      interactions := [decide_row I_RESOLVED APPROVED ''ou_1'' 5 ex_request]\<rparr>)"
    by (rule decisions.attempts.attempt [OF ex_decides decisions.attempts.none])
  then show ?thesis using interaction_decided_once [OF ex_reachable] by blast
qed

text \<open>
  C4. A session ends at most once: among the calls that claim its end (turn completed, failure,
  interruption, cancellation), interleaved with the other calls of the orchestrator, the daemon
  and the router, at most one is told to report it.
\<close>

theorem session_ended_once:
  assumes "guarded_reachable st" "endings.attempts sid st bs st'"
  shows "count_list bs True \<le> 1"
  by (rule endings.at_most_one_win [OF assms(2)]) (rule guarded_reachable_wf [OF assms(1)])

lemma ex_claimed: "store_claim_session_terminal ''s1'' S_FAILED [] I_EXPIRED 9 ex_waiting =
    Inr (Some [''i1''], ex_waiting\<lparr>sessions := [ex_session\<lparr>s_status := S_FAILED, s_updated_at := 9\<rparr>],
      interactions := [close_row I_EXPIRED 9 ex_request]\<rparr>)"
  by (simp add: store_claim_session_terminal_def with_connection_split ex_waiting_def
      ex_session_def ex_request_def empty_store_def is_active_def ACTIVE_SESSION_STATUSES_def
      TERMINAL_SESSION_STATUSES_def pending_ids_def pending_of_session_def close_pending_def
      close_row_def is_pending_def)

lemma ex_ends: "\<exists>st'. ends_session ''s1'' ex_waiting True st'"
  unfolding ends_session_def using ex_claimed by blast

theorem session_ended_once_ex:
  "\<exists>st'. endings.attempts ''s1'' ex_waiting [True] st' \<and> count_list [True] True \<le> 1"
  using ex_ends endings.attempts.attempt endings.attempts.none
    session_ended_once [OF ex_guarded, of "''s1''" "[True]"] by blast

text \<open>
  A Lark event identifier is accepted at most once: after it was accepted, and whatever
  happens to the store in between, a second delivery of it is refused.
\<close>

theorem event_accepted_once:
  assumes "store_record_event_once e r nw st = Inr (True, st1)" "store_step\<^sup>*\<^sup>* st1 st2"
    "store_record_event_once e r' nw' st2 = Inr (b, st3)"
  shows "\<not> b"
  using assms(1,3) events.second_loses [OF TrueI _ assms(2)] unfolding records_event_def by blast

theorem event_accepted_once_ex:
  "store_record_event_once ''ev'' (Some 4) 0 (ex_waiting\<lparr>event_dedupe := [(''ev'', 3)]\<rparr>) =
     Inr (False, ex_waiting\<lparr>event_dedupe := [(''ev'', 3)]\<rparr>)"
proof -
  let ?st = "ex_waiting\<lparr>event_dedupe := [(''ev'', 3)]\<rparr>"
  have 1: "store_record_event_once ''ev'' (Some 3) 0 ex_waiting = Inr (True, ?st)"
    by (simp add: store_record_event_once_def with_connection_def ex_waiting_def empty_store_def)
  have 2: "\<exists>b. store_record_event_once ''ev'' (Some 4) 0 ?st = Inr (b, ?st)"
    by (rule exI [of _ False])
      (simp add: store_record_event_once_def with_connection_def ex_waiting_def empty_store_def)
  then show ?thesis using event_accepted_once [OF 1 rtranclp.rtrancl_refl] by (metis (full_types))
qed

lemma map_outcome_set:
  "map_outcome f xs = Inr ys \<Longrightarrow> (\<And>x y. f x = Inr y \<Longrightarrow> y = x) \<Longrightarrow> ys = xs"
  by (induction xs arbitrary: ys) (auto split: sum.splits)

lemma outbox_from_row_same: "outbox_from_row r = Inr r' \<Longrightarrow> r' = r"
  by (auto simp: outbox_from_row_def split: option.splits if_splits)

lemma set_limit_rows: "set (limit_rows n rows) \<subseteq> set rows"
  by (auto simp: limit_rows_def dest: in_set_takeD)

lemma list_due_rows:
  assumes "store_list_due_outbox t lim nw st = Inr rows"
  shows "rows = limit_rows lim (sort_key (\<lambda>r. (o_next_attempt_at r, o_id r))
    (filter (is_due (opt_or t nw)) (outbox st)))"
  using assms by (auto simp: store_list_due_outbox_def with_connection_def dest!: map_outcome_set
      intro: outbox_from_row_same split: if_splits)

text \<open>
  An outbox item that was marked as sent is never due again, whatever happens to the store
  afterwards.
\<close>

theorem sent_item_never_due:
  assumes "store_reachable st" "store_mark_outbox_sent n t nw st = Inr (True, st1)"
    "store_step\<^sup>*\<^sup>* st1 st2" "store_list_due_outbox q lim nw2 st2 = Inr rows"
  shows "n \<notin> o_id ` set rows"
proof
  assume "n \<in> o_id ` set rows"
  then obtain r where r: "r \<in> set (outbox st2)" "o_id r = n" "unsent r"
    using set_limit_rows list_due_rows [OF assms(4)] by (fastforce simp: is_due_def)
  have wf: "store_wf st" by (rule store_reachable_wf [OF assms(1)])
  have m: "marks_sent n st True st1" using assms(2) unfolding marks_sent_def by blast
  have wf1: "store_wf st1" by (rule store_step_wf [OF marks_step [OF m] wf])
  have wf2: "store_wf st2" by (rule deliveries.inv_steps [OF assms(3) wf1])
  have "n \<in> sent_ids st2" using deliveries.taken_steps [OF assms(3) wf1] marks_facts(2) [OF wf m] by blast
  then obtain r' where r': "r' \<in> set (outbox st2)" "o_id r' = n" "\<not> unsent r'"
    unfolding sent_ids_def by (metis (mono_tags, lifting) imageE mem_Collect_eq)
  have "distinct (map o_id (outbox st2))"
    using wf2 by (simp add: store_wf_def wf_outbox_def strict_sorted_iff)
  then have "r = r'" using r r' unique_row by metis
  then show False using r r' by simp
qed

definition ex_notice :: outbox_item where
  "ex_notice = \<lparr>o_id = 1, o_session_id = None, o_agent = None, o_session_name = None,
     o_interaction_id = None, o_notification_type = ''codex_failed'', o_payload_summary = [],
     o_attempt_count = 0, o_next_attempt_at = 5, o_sent_at = None, o_last_error = None, o_created_at = 5\<rparr>"

lemma ex_enqueued: "store_enqueue_outbox ''codex_failed'' [] None None None None None (Some 5) 0 ex_waiting =
    Inr (1, ex_waiting\<lparr>outbox := [ex_notice], outbox_seq := 1\<rparr>)"
  by (simp add: store_enqueue_outbox_def with_connection_split references_ok_def ex_waiting_def
      empty_store_def ex_notice_def)

lemma ex_notice_reachable: "store_reachable (ex_waiting\<lparr>outbox := [ex_notice], outbox_seq := 1\<rparr>)"
  by (rule store_reachable.step [OF ex_reachable store_step.guarded [OF guarded_step.enqueue [OF ex_enqueued]]])

theorem sent_item_never_due_ex:
  "store_list_due_outbox (Some 99) 20 0 (ex_waiting\<lparr>outbox := [ex_notice], outbox_seq := 1\<rparr>) = Inr [ex_notice] \<and>
   (\<exists>st1. store_mark_outbox_sent 1 (Some 6) 0 (ex_waiting\<lparr>outbox := [ex_notice], outbox_seq := 1\<rparr>) = Inr (True, st1) \<and>
     (\<exists>rows. store_list_due_outbox (Some 99) 20 0 st1 = Inr rows \<and> 1 \<notin> o_id ` set rows))"
proof -
  let ?st = "ex_waiting\<lparr>outbox := [ex_notice], outbox_seq := 1\<rparr>"
  let ?st1 = "ex_waiting\<lparr>outbox := [ex_notice\<lparr>o_sent_at := Some 6\<rparr>], outbox_seq := 1\<rparr>"
  have a: "store_list_due_outbox (Some 99) 20 0 ?st = Inr [ex_notice]"
    by (simp add: store_list_due_outbox_def with_connection_def ex_waiting_def empty_store_def
        is_due_def ex_notice_def limit_rows_def outbox_from_row_def)
  have b: "store_mark_outbox_sent 1 (Some 6) 0 ?st = Inr (True, ?st1)"
    by (simp add: store_mark_outbox_sent_def with_connection_split ex_waiting_def empty_store_def ex_notice_def)
  have c: "store_list_due_outbox (Some 99) 20 0 ?st1 = Inr []"
    by (simp add: store_list_due_outbox_def with_connection_def ex_waiting_def empty_store_def
        is_due_def limit_rows_def)
  show ?thesis
    using a b c sent_item_never_due [OF ex_notice_reachable b rtranclp.rtrancl_refl c] by blast
qed

subsection \<open>What the methods return\<close>

text \<open>
  C5. The due list is exactly the unsent items whose time has come, cut to the limit; it is in
  the order of due time and identifier, and an item that is due but not listed comes after every
  item that is.
\<close>

theorem due_outbox_earliest_first:
  assumes "store_list_due_outbox (Some t) lim nw st = Inr rows" "0 \<le> lim"
  shows "set rows \<subseteq> {r \<in> set (outbox st). is_due t r} \<and> int (length rows) \<le> lim \<and>
    sorted (map (\<lambda>r. (o_next_attempt_at r, o_id r)) rows) \<and>
    (\<forall>r\<in>set (outbox st). is_due t r \<longrightarrow> r \<notin> set rows \<longrightarrow> int (length rows) = lim \<and>
      (\<forall>x\<in>set rows. (o_next_attempt_at x, o_id x) \<le> (o_next_attempt_at r, o_id r)))"
proof -
  let ?key = "\<lambda>r. (o_next_attempt_at r, o_id r)"
  let ?due = "sort_key ?key (filter (is_due t) (outbox st))"
  have rows: "rows = take (nat lim) ?due"
    using list_due_rows [OF assms(1)] assms(2) by (simp add: limit_rows_def)
  have s: "sorted (map ?key ?due)" by simp
  have late: "int (length rows) = lim \<and> (\<forall>x\<in>set rows. ?key x \<le> ?key r)"
    if r: "r \<in> set (outbox st)" "is_due t r" "r \<notin> set rows" for r
  proof (intro conjI ballI)
    have "r \<in> set ?due" using r by simp
    then have d: "r \<in> set (drop (nat lim) ?due)"
      using r(3) unfolding rows by (metis Un_iff append_take_drop_id set_append)
    then have "nat lim < length ?due" by (metis drop_all empty_iff empty_set not_le)
    then show "int (length rows) = lim" using rows assms(2) by simp
    have "sorted (map ?key (take (nat lim) ?due) @ map ?key (drop (nat lim) ?due))"
      using s by (metis append_take_drop_id map_append)
    then show "?key x \<le> ?key r" if "x \<in> set rows" for x
      using that d unfolding rows sorted_append by auto
  qed
  have "set rows \<subseteq> {r \<in> set (outbox st). is_due t r}"
    using rows set_take_subset [of "nat lim" ?due] by auto
  moreover have "int (length rows) \<le> lim" using rows assms(2) by simp
  moreover have "sorted (map ?key rows)" unfolding rows by (simp add: take_map [symmetric] sorted_wrt_take)
  ultimately show ?thesis using late by blast
qed

theorem due_outbox_earliest_first_ex:
  "int (length [ex_notice]) \<le> 20 \<and> set [ex_notice] \<subseteq> {r \<in> set [ex_notice]. is_due 99 r}"
proof -
  let ?st = "ex_waiting\<lparr>outbox := [ex_notice], outbox_seq := 1\<rparr>"
  have a: "store_list_due_outbox (Some 99) 20 0 ?st = Inr [ex_notice]"
    by (simp add: store_list_due_outbox_def with_connection_def ex_waiting_def empty_store_def
        is_due_def ex_notice_def limit_rows_def outbox_from_row_def)
  show ?thesis
    using due_outbox_earliest_first [OF a] by simp
qed

text \<open>
  C6. Start-up reconciliation ends what a previous process left behind: afterwards no session is
  active and no interaction is pending, the identifiers returned are exactly those of the
  sessions interrupted and of the interactions expired, and every other row is unchanged.
\<close>

theorem reconcile_ends_everything:
  assumes "store_reconcile_startup t nw st = Inr ((sids, iids), st')"
  shows "set sids = s_id ` {s \<in> set (sessions st). is_active (s_status s)} \<and>
    set iids = i_id ` {i \<in> set (interactions st). is_pending i} \<and> sorted sids \<and> sorted iids \<and>
    (\<forall>s\<in>set (sessions st'). \<not> is_active (s_status s)) \<and>
    (\<forall>i\<in>set (interactions st'). \<not> is_pending i) \<and>
    {s \<in> set (sessions st). \<not> is_active (s_status s)} \<subseteq> set (sessions st') \<and>
    {i \<in> set (interactions st). \<not> is_pending i} \<subseteq> set (interactions st')"
  using assms
  by (auto simp: store_reconcile_startup_def with_connection_split set_update_where image_iff
      is_active_def ACTIVE_SESSION_STATUSES_def split: if_splits)

theorem reconcile_ends_everything_ex:
  "\<exists>st'. store_reconcile_startup (Some 100) 0 ex_waiting = Inr (([''s1''], [''i1'']), st') \<and>
     (\<forall>i\<in>set (interactions st'). \<not> is_pending i)"
proof -
  have "\<exists>st'. store_reconcile_startup (Some 100) 0 ex_waiting = Inr (([''s1''], [''i1'']), st')"
    by (simp add: store_reconcile_startup_def with_connection_split ex_waiting_def empty_store_def
        ex_session_def ex_request_def is_active_def ACTIVE_SESSION_STATUSES_def is_pending_def)
  then show ?thesis using reconcile_ends_everything by blast
qed

text \<open>
  C7. Deciding a pending interaction with a decision its kind allows records the decision, the
  actor and the time on that row and on no other, and moves an active session to the status its
  remaining interactions call for; a decision the kind does not allow raises and writes nothing.
\<close>

theorem decision_effect:
  assumes "store_wf st" "\<not> store_closed st" "row \<in> set (interactions st)" "is_pending row"
    "v \<in> {I_RESOLVED, I_EXPIRED}"
  shows "case normalize_decision (i_kind row) d of
      Inl e \<Rightarrow> store_resolve_interaction_and_refresh_session (i_id row) d a ts v st = Inl e
    | Inr e \<Rightarrow> \<exists>st'. store_resolve_interaction_and_refresh_session (i_id row) d a ts v st = Inr (True, st') \<and>
        interactions st' = update_where (\<lambda>i. i = row) (decide_row v e a ts) (interactions st) \<and>
        sessions st' = update_where (\<lambda>s. s_id s = i_session_id row \<and> is_active (s_status s))
          (\<lambda>s. s\<lparr>s_status := refreshed_status (waits_for (i_session_id row) st'), s_updated_at := ts\<rparr>)
          (sessions st)"
  using assms by (rule decide_pending)

theorem decision_effect_ex:
  "\<exists>st'. store_resolve_interaction_and_refresh_session ''i1'' ''approved'' ''ou_1'' 5 I_RESOLVED ex_waiting =
     Inr (True, st') \<and> interactions st' = [decide_row I_RESOLVED APPROVED ''ou_1'' 5 ex_request]"
  using decision_effect [OF store_reachable_wf [OF ex_reachable], of ex_request I_RESOLVED
      "''approved''" "''ou_1''" 5]
  by (auto simp: ex_waiting_def ex_request_def empty_store_def is_pending_def normalize_decision_def
      decision_of_def all_decisions_def)

end
