(* ===== verification/Codex_Resolution.thy ===== *)
theory Codex_Resolution
  imports Codex_Store
begin

text \<open>
  The payloads of the answers and the decisions recorded for them:
  \<^verbatim>\<open>app_server/app_server_response.py\<close>, \<^verbatim>\<open>orchestration/orchestration_interaction.py\<close> and
  \<^verbatim>\<open>orchestration/orchestration_summary.py\<close>. A request is known by its parameters, a JSON
  object; \<open>value_error\<close> and \<open>attribute_error\<close> are the exceptions the functions raise.
\<close>

subsection \<open>Texts of error messages\<close>

fun py_type_name :: "json \<Rightarrow> string" where
  "py_type_name JNull = ''NoneType''"
| "py_type_name (JBool _) = ''bool''"
| "py_type_name (JInt _) = ''int''"
| "py_type_name (JFloat _) = ''float''"
| "py_type_name (JStr _) = ''str''"
| "py_type_name (JArr _) = ''list''"
| "py_type_name (JObj _) = ''dict''"

definition no_get :: "json \<Rightarrow> exn" where
  "no_get j = Exn ''AttributeError''
     ([CHR 0x27] @ py_type_name j @ [CHR 0x27] @ '' object has no attribute '' @ [CHR 0x27] @ ''get'' @ [CHR 0x27])"

text \<open>\<^verbatim>\<open>repr\<close> of a string and of a list of strings.\<close>

definition repr_char :: "char \<Rightarrow> char \<Rightarrow> string" where
  "repr_char q c =
     (if c = q \<or> c = CHR 0x5C then [CHR 0x5C, c]
      else if c = CHR 0x0A then [CHR 0x5C, CHR ''n'']
      else if c = CHR 0x0D then [CHR 0x5C, CHR ''r'']
      else if c = CHR 0x09 then [CHR 0x5C, CHR ''t'']
      else if ord c < 32 \<or> (127 \<le> ord c \<and> ord c \<le> 160) \<or> ord c = 173
      then [CHR 0x5C, CHR ''x'', hex_digit (ord c div 16), hex_digit (ord c mod 16)]
      else [c])"

definition py_repr :: "string \<Rightarrow> string" where
  "py_repr s =
     (let q = (if CHR 0x27 \<in> set s \<and> CHR 0x22 \<notin> set s then CHR 0x22 else CHR 0x27)
      in [q] @ concat (map (repr_char q) s) @ [q])"

definition py_repr_list :: "string list \<Rightarrow> string" where
  "py_repr_list xs = ''['' @ py_join '', '' (map py_repr xs) @ '']''"

subsection \<open>Response payloads\<close>

definition command_approval_response :: "bool \<Rightarrow> json" where
  "command_approval_response allow = JObj [(''decision'', JStr (if allow then ''accept'' else ''decline''))]"

definition file_approval_response :: "bool \<Rightarrow> json" where
  "file_approval_response allow = JObj [(''decision'', JStr (if allow then ''accept'' else ''decline''))]"

definition permission_response :: "json_object \<Rightarrow> bool \<Rightarrow> json outcome" where
  "permission_response params allow =
     (case (if has_key params ''permissions'' then jget params ''permissions'' else JObj []) of
        JObj requested \<Rightarrow> Inr (JObj [(''permissions'', JObj (if allow then requested else [])),
             (''scope'', JStr ''turn''), (''strictAutoReview'', JBool False)])
      | _ \<Rightarrow> value_error ''permissions must be an object'')"

text \<open>The identifiers of the questions, in order: each a non-empty string, none twice.\<close>

fun question_ids :: "string list \<Rightarrow> json list \<Rightarrow> string list outcome" where
  "question_ids acc [] = Inr acc"
| "question_ids acc (JObj q # qs) =
     (case nonempty_str (jget q ''id'') of
        None \<Rightarrow> value_error ''each question must have a non-empty string id''
      | Some i \<Rightarrow> if i \<in> set acc then value_error (''duplicate question id: '' @ i)
                  else question_ids (acc @ [i]) qs)"
| "question_ids acc (q # qs) = Inl (no_get q)"

definition user_input_response :: "json list \<Rightarrow> json_object \<Rightarrow> json outcome" where
  "user_input_response questions answers =
     (case question_ids [] questions of
        Inl e \<Rightarrow> Inl e
      | Inr ids \<Rightarrow>
          (let missing = filter (\<lambda>i. i \<notin> fst ` set answers) ids;
               unknown = filter (\<lambda>i. i \<notin> set ids) (map fst answers)
           in if missing \<noteq> []
              then value_error (''missing answers for question ids: '' @ py_repr_list (sort missing))
              else if unknown \<noteq> []
              then value_error (''unknown question ids: '' @ py_repr_list (sort unknown))
              else if \<exists>v\<in>set (map snd answers). as_str v = None
              then value_error ''answers must be strings''
              else Inr (JObj [(''answers'',
                     JObj (map (\<lambda>i. (i, JObj [(''answers'', JArr [jget answers i])])) ids))])))"

subsection \<open>Decisions\<close>

definition resolution ::
  "interaction_kind \<Rightarrow> json_object \<Rightarrow> bool option \<Rightarrow> json_object option \<Rightarrow> (json \<times> string) outcome" where
  "resolution kind params allow answers =
     (if kind = USER_INPUT
      then (case answers of
              None \<Rightarrow> value_error ''answers are required for user input''
            | Some ans \<Rightarrow>
                (case as_arr (jget params ''questions'') of
                   None \<Rightarrow> value_error ''questions must be an array''
                 | Some qs \<Rightarrow>
                     (case user_input_response qs ans of
                        Inl e \<Rightarrow> Inl e
                      | Inr r \<Rightarrow> Inr (r, ''submitted''))))
      else case allow of
             None \<Rightarrow> value_error ''allow is required for approvals''
           | Some al \<Rightarrow>
               (if kind = EXEC_APPROVAL
                then Inr (command_approval_response al, if al then ''approved'' else ''denied'')
                else if kind = FILE_CHANGE_APPROVAL
                then Inr (file_approval_response al, if al then ''accept'' else ''decline'')
                else case permission_response params al of
                       Inl e \<Rightarrow> Inl e
                     | Inr r \<Rightarrow> Inr (r, if al then ''granted'' else ''denied'')))"

fun terminal_question_ids :: "string list \<Rightarrow> json list \<Rightarrow> string list outcome" where
  "terminal_question_ids acc [] = Inr acc"
| "terminal_question_ids acc (JObj q # qs) =
     (case nonempty_str (jget q ''id'') of
        None \<Rightarrow> value_error ''each question must have a non-empty string id''
      | Some i \<Rightarrow> if i \<in> set acc then value_error (''duplicate question id: '' @ i)
                  else terminal_question_ids (acc @ [i]) qs)"
| "terminal_question_ids acc (q # qs) = value_error ''each question must be an object''"

fun check_terminal_answers :: "json list \<Rightarrow> unit outcome" where
  "check_terminal_answers [] = Inr ()"
| "check_terminal_answers (JObj a # rest) =
     (case as_arr (jget a ''answers'') of
        None \<Rightarrow> value_error ''each terminal answer answers must be an array''
      | Some vs \<Rightarrow> if \<exists>v\<in>set vs. as_str v = None
                   then value_error ''terminal answer values must be strings''
                   else check_terminal_answers rest)"
| "check_terminal_answers (_ # rest) = value_error ''each terminal answers entry must be an object''"

definition validate_terminal_answers :: "json_object \<Rightarrow> json_object \<Rightarrow> unit outcome" where
  "validate_terminal_answers params result =
     (case as_arr (jget params ''questions'') of
        None \<Rightarrow> value_error ''questions must be an array''
      | Some qs \<Rightarrow>
          (case terminal_question_ids [] qs of
             Inl e \<Rightarrow> Inl e
           | Inr expected \<Rightarrow>
               (case as_obj (jget result ''answers'') of
                  None \<Rightarrow> value_error ''terminal user input answers must be an object''
                | Some answers \<Rightarrow>
                    if set (map fst answers) \<noteq> set expected
                    then value_error ''terminal user input answers do not match questions''
                    else check_terminal_answers (map snd answers))))"

definition terminal_permission_decision :: "json_object \<Rightarrow> string outcome" where
  "terminal_permission_decision result =
     (case as_obj (jget result ''permissions'') of
        None \<Rightarrow> value_error ''terminal permission response permissions must be an object''
      | Some permissions \<Rightarrow>
          (if jget result ''scope'' \<noteq> JNull \<and> as_str (jget result ''scope'') = None
           then value_error ''terminal permission response scope must be a string''
           else case jget result ''strictAutoReview'' of
                  JNull \<Rightarrow> Inr (if permissions \<noteq> [] then ''granted'' else ''denied'')
                | JBool _ \<Rightarrow> Inr (if permissions \<noteq> [] then ''granted'' else ''denied'')
                | _ \<Rightarrow> value_error ''terminal permission response strictAutoReview must be a boolean''))"

definition terminal_decision :: "interaction_kind \<Rightarrow> json_object \<Rightarrow> json \<Rightarrow> string outcome" where
  "terminal_decision kind params result =
     (case as_obj result of
        None \<Rightarrow> value_error ''terminal response result must be an object''
      | Some r \<Rightarrow>
          (if kind = USER_INPUT
           then (case validate_terminal_answers params r of Inl e \<Rightarrow> Inl e | Inr _ \<Rightarrow> Inr ''submitted'')
           else if kind = PERMISSION_REQUEST then terminal_permission_decision r
           else case as_str (jget r ''decision'') of
                  None \<Rightarrow> value_error ''terminal approval response decision must be a string''
                | Some d \<Rightarrow>
                    if d \<in> {''accept'', ''acceptForSession''}
                    then Inr (if kind = EXEC_APPROVAL then ''approved'' else ''accept'')
                    else if d \<in> {''decline'', ''cancel''}
                    then Inr (if kind = EXEC_APPROVAL then ''denied'' else ''decline'')
                    else value_error ''unsupported terminal approval decision''))"

fun denial_response :: "interaction_kind \<Rightarrow> json_object \<Rightarrow> json outcome" where
  "denial_response EXEC_APPROVAL params = Inr (command_approval_response False)"
| "denial_response FILE_CHANGE_APPROVAL params = Inr (file_approval_response False)"
| "denial_response PERMISSION_REQUEST params = permission_response params False"
| "denial_response USER_INPUT params = value_error ''user input does not have a denial response''"

fun denial_decision :: "interaction_kind \<Rightarrow> string outcome" where
  "denial_decision EXEC_APPROVAL = Inr ''denied''"
| "denial_decision FILE_CHANGE_APPROVAL = Inr ''decline''"
| "denial_decision PERMISSION_REQUEST = Inr ''denied''"
| "denial_decision USER_INPUT = value_error ''user input has no denial decision''"

definition canonical_request_id :: "rpc_id \<Rightarrow> string" where
  "canonical_request_id v = dumps_id v"

subsection \<open>Summaries\<close>

definition summary_values :: "json \<Rightarrow> string list" where
  "summary_values v =
     (case v of JStr s \<Rightarrow> [s] | JArr xs \<Rightarrow> List.map_filter as_str xs | _ \<Rightarrow> [])"

definition question_values :: "json \<Rightarrow> string list" where
  "question_values q =
     (case q of
        JObj d \<Rightarrow> List.map_filter (\<lambda>k. as_str (jget d k)) [''question'', ''header'', ''prompt'']
      | _ \<Rightarrow> [])"

definition request_summary :: "json_object \<Rightarrow> string" where
  "request_summary params =
     safe_summary (py_join '' | ''
       (concat (map (\<lambda>k. summary_values (jget params k)) [''reason'', ''command'', ''path'']) @
        (case as_arr (jget params ''questions'') of None \<Rightarrow> [] | Some qs \<Rightarrow> concat (map question_values qs))))"

definition terminal_status :: "json \<Rightarrow> session_status option outcome" where
  "terminal_status value =
     (if unhashable value then type_error (''unhashable type: '' @ [CHR 0x27] @ py_type_name value @ [CHR 0x27])
      else Inr (map_of [(''completed'', S_SUCCEEDED), (''failed'', S_FAILED), (''interrupted'', S_INTERRUPTED)]
             (case value of JStr s \<Rightarrow> s | _ \<Rightarrow> '''')))"

text \<open>The first error message, else the first response text, of the turn and then the parameters.\<close>

definition error_message :: "json_object \<Rightarrow> string option" where
  "error_message container =
     (case jget container ''error'' of JObj e \<Rightarrow> as_str (jget e ''message'') | _ \<Rightarrow> None)"

fun first_some :: "'a option list \<Rightarrow> 'a option" where
  "first_some [] = None"
| "first_some (Some x # xs) = Some x"
| "first_some (None # xs) = first_some xs"

definition turn_summary :: "json_object \<Rightarrow> json_object \<Rightarrow> string" where
  "turn_summary params turn =
     (case first_some (map error_message [turn, params]) of
        Some m \<Rightarrow> safe_summary m
      | None \<Rightarrow>
          (case first_some (concat (map (\<lambda>c. map (\<lambda>k. as_str (jget c k))
               [''finalResponse'', ''final_response'', ''text'', ''outputText'']) [turn, params])) of
             Some t \<Rightarrow> safe_summary t
           | None \<Rightarrow> ''''))"

subsection \<open>The answers accepted\<close>

abbreviation asks :: "json \<Rightarrow> string \<Rightarrow> bool" where
  "asks q i \<equiv> \<exists>d. q = JObj d \<and> jget d ''id'' = JStr i \<and> i \<noteq> []"

lemma nonempty_str_Some: "nonempty_str v = Some s \<longleftrightarrow> v = JStr s \<and> s \<noteq> []"
  by (cases v) auto

lemma nonempty_str_None: "nonempty_str v = None \<Longrightarrow> v \<noteq> JStr s \<or> s = []"
  by (cases v) (auto split: if_splits)

lemma question_ids_iff:
  "distinct acc \<Longrightarrow> question_ids acc qs = Inr ids \<longleftrightarrow>
   (\<exists>new. ids = acc @ new \<and> list_all2 asks qs new \<and> distinct (acc @ new))"
proof (induction acc qs rule: question_ids.induct)
  case (1 acc)
  then show ?case by auto
next
  case (2 acc q qs)
  show ?case
  proof (cases "nonempty_str (jget q ''id'')")
    case None
    then show ?thesis using nonempty_str_None by (fastforce simp: list_all2_Cons1)
  next
    case (Some i)
    then have i: "jget q ''id'' = JStr i" "i \<noteq> []" by (simp_all add: nonempty_str_Some)
    show ?thesis
    proof (cases "i \<in> set acc")
      case True
      then show ?thesis using Some i by (auto simp: list_all2_Cons1)
    next
      case False
      then have "question_ids (acc @ [i]) qs = Inr ids \<longleftrightarrow>
          (\<exists>new. ids = (acc @ [i]) @ new \<and> list_all2 asks qs new \<and> distinct ((acc @ [i]) @ new))"
        using 2 Some by simp
      then show ?thesis using Some i False by (auto simp: list_all2_Cons1)
    qed
  qed
qed (auto simp: list_all2_Cons1)

lemma question_ids_Inr:
  "question_ids [] qs = Inr ids \<longleftrightarrow> list_all2 asks qs ids \<and> distinct ids"
  by (simp add: question_ids_iff)

lemma terminal_question_ids_same:
  "question_ids acc qs = Inr ids \<Longrightarrow> terminal_question_ids acc qs = Inr ids"
  by (induction acc qs rule: question_ids.induct) (auto split: option.splits if_splits)

lemma user_input_response_Inr:
  "user_input_response qs ans = Inr r \<longleftrightarrow>
   (\<exists>ids. question_ids [] qs = Inr ids \<and> set ids = fst ` set ans \<and>
     (\<forall>v\<in>snd ` set ans. as_str v \<noteq> None) \<and>
     r = JObj [(''answers'', JObj (map (\<lambda>i. (i, JObj [(''answers'', JArr [jget ans i])])) ids))])"
  by (auto simp: user_input_response_def Let_def filter_empty_conv split: sum.splits)

lemma jget_in_dict: "k \<in> fst ` set d \<Longrightarrow> jget d k \<in> snd ` set d"
  by (auto simp: jget_def map_of_eq_None_iff split: option.splits dest!: map_of_SomeD intro: rev_image_eqI)

lemma check_terminal_answers_strings:
  "(\<And>v. v \<in> set vs \<Longrightarrow> as_str v \<noteq> None) \<Longrightarrow>
   check_terminal_answers (map (\<lambda>v. JObj [(''answers'', JArr [v])]) vs) = Inr ()"
  by (induction vs) (auto simp: jget_def)

lemma user_input_passes_terminal:
  assumes "jget params ''questions'' = JArr qs" "user_input_response qs ans = Inr r"
  shows "terminal_decision USER_INPUT params r = Inr ''submitted''"
proof -
  obtain ids where ids: "question_ids [] qs = Inr ids" "set ids = fst ` set ans"
    and strs: "\<forall>v\<in>snd ` set ans. as_str v \<noteq> None"
    and r: "r = JObj [(''answers'', JObj (map (\<lambda>i. (i, JObj [(''answers'', JArr [jget ans i])])) ids))]"
    using assms(2) by (auto simp: user_input_response_Inr)
  have str: "as_str (jget ans i) \<noteq> None" if "i \<in> set ids" for i
  proof -
    have "jget ans i \<in> snd ` set ans" by (rule jget_in_dict) (use that ids(2) in simp)
    with strs show ?thesis by (rule bspec)
  qed
  have "as_str v \<noteq> None" if v: "v \<in> set (map (jget ans) ids)" for v
  proof -
    obtain i where "i \<in> set ids" "v = jget ans i" using v unfolding set_map by (rule imageE)
    with str show ?thesis by simp
  qed
  then have "check_terminal_answers (map (\<lambda>v. JObj [(''answers'', JArr [v])]) (map (jget ans) ids)) = Inr ()"
    by (rule check_terminal_answers_strings)
  then show ?thesis
    using terminal_question_ids_same [OF ids(1)] assms(1)
    by (simp add: terminal_decision_def validate_terminal_answers_def r jget_def comp_def)
qed

lemma normalize_simps [simp]:
  "normalize_decision EXEC_APPROVAL ''approved'' = Inr APPROVED"
  "normalize_decision EXEC_APPROVAL ''denied'' = Inr DENIED"
  "normalize_decision FILE_CHANGE_APPROVAL ''accept'' = Inr ACCEPT"
  "normalize_decision FILE_CHANGE_APPROVAL ''decline'' = Inr DECLINE"
  "normalize_decision PERMISSION_REQUEST ''granted'' = Inr GRANTED"
  "normalize_decision PERMISSION_REQUEST ''denied'' = Inr DENIED"
  "normalize_decision USER_INPUT d = Inr SUBMITTED"
  by (simp_all add: normalize_decision_def decision_of_def all_decisions_def)

text \<open>The decisions each party can produce, by kind.\<close>

fun decision_texts :: "interaction_kind \<Rightarrow> string list" where
  "decision_texts EXEC_APPROVAL = [''approved'', ''denied'']"
| "decision_texts FILE_CHANGE_APPROVAL = [''accept'', ''decline'']"
| "decision_texts PERMISSION_REQUEST = [''granted'', ''denied'']"
| "decision_texts USER_INPUT = [''submitted'']"

lemma decision_texts_normal: "d \<in> set (decision_texts kind) \<Longrightarrow> \<exists>e. normalize_decision kind d = Inr e"
  by (cases kind) (auto simp del: not_None_eq)

lemma resolution_texts: "resolution kind params allow answers = Inr (resp, d) \<Longrightarrow> d \<in> set (decision_texts kind)"
  unfolding resolution_def
  by (cases kind; cases "the allow") (simp_all split: option.splits sum.splits)

lemma permission_texts: "terminal_permission_decision r = Inr d \<Longrightarrow> d \<in> {''granted'', ''denied''}"
  unfolding terminal_permission_decision_def
  by (cases "jget r ''strictAutoReview''") (simp_all split: option.splits if_split_asm)

lemma terminal_texts: "terminal_decision kind params result = Inr d \<Longrightarrow> d \<in> set (decision_texts kind)"
  unfolding terminal_decision_def
  by (cases kind) (simp_all split: option.splits sum.splits if_split_asm, use permission_texts in blast)

lemma denial_texts: "denial_decision kind = Inr d \<Longrightarrow> d \<in> set (decision_texts kind)"
  by (cases kind) auto

lemma denial_is_refusal: "denial_decision kind = Inr d \<Longrightarrow> denial_response kind params = Inr r \<Longrightarrow>
   resolution kind params (Some False) None = Inr (r, d)"
  by (cases kind) (auto simp: resolution_def)

lemma user_input_agrees:
  assumes "resolution USER_INPUT params allow answers = Inr (resp, d)"
  shows "terminal_decision USER_INPUT params resp = Inr d"
proof -
  obtain qs ans where "jget params ''questions'' = JArr qs" "user_input_response qs ans = Inr resp"
    and "d = ''submitted''"
    using assms by (cases "jget params ''questions''") (auto simp: resolution_def split: option.splits sum.splits)
  then show ?thesis using user_input_passes_terminal by simp
qed

lemma jget_simps [simp]:
  "jget [] k = JNull" "jget ((a, v) # d) k = (if k = a then v else jget d k)"
  by (simp_all add: jget_def)

lemma approval_payload_agrees:
  "terminal_decision EXEC_APPROVAL params (command_approval_response al) =
     Inr (if al then ''approved'' else ''denied'')"
  "terminal_decision FILE_CHANGE_APPROVAL params (file_approval_response al) =
     Inr (if al then ''accept'' else ''decline'')"
  by (cases al; simp add: terminal_decision_def command_approval_response_def file_approval_response_def)+

lemma approvals_agree:
  "resolution EXEC_APPROVAL params allow answers = Inr (resp, d) \<Longrightarrow>
     terminal_decision EXEC_APPROVAL params resp = Inr d"
  "resolution FILE_CHANGE_APPROVAL params allow answers = Inr (resp, d) \<Longrightarrow>
     terminal_decision FILE_CHANGE_APPROVAL params resp = Inr d"
  by (cases allow; clarsimp simp: resolution_def approval_payload_agrees)+

lemma permission_agrees:
  assumes "resolution PERMISSION_REQUEST params allow answers = Inr (resp, d)"
  shows "terminal_decision PERMISSION_REQUEST params resp = Inr d \<or>
    allow = Some True \<and> d = ''granted'' \<and>
    (jget params ''permissions'' = JObj [] \<or> \<not> has_key params ''permissions'') \<and>
    terminal_decision PERMISSION_REQUEST params resp = Inr ''denied''"
proof -
  obtain al where al: "allow = Some al" "permission_response params al = Inr resp"
    and d: "d = (if al then ''granted'' else ''denied'')"
    using assms by (cases allow; simp add: resolution_def split: sum.splits)
  then obtain p where p: "JObj [(''permissions'', JObj (if al then p else [])), (''scope'', JStr ''turn''),
      (''strictAutoReview'', JBool False)] = resp"
    and q: "(if has_key params ''permissions'' then jget params ''permissions'' else JObj []) = JObj p"
    unfolding permission_response_def
    by (cases "if has_key params ''permissions'' then jget params ''permissions'' else JObj []") simp_all
  have "terminal_decision PERMISSION_REQUEST params resp = Inr (if al \<and> p \<noteq> [] then ''granted'' else ''denied'')"
    unfolding p [symmetric] by (simp add: terminal_decision_def terminal_permission_decision_def)
  then show ?thesis using al d q by (cases al; cases "p = []"; simp split: if_splits)
qed

subsection \<open>The properties\<close>

text \<open>
  Every decision that the answers, the terminal or a timeout produce is one the store admits for
  the kind of the interaction, so recording it never raises; and the three parties produce the
  same decision for a refusal.
\<close>

theorem decisions_admissible:
  "(resolution kind params allow answers = Inr (resp, d) \<longrightarrow> (\<exists>e. normalize_decision kind d = Inr e)) \<and>
   (terminal_decision kind params result = Inr d' \<longrightarrow> (\<exists>e. normalize_decision kind d' = Inr e)) \<and>
   (denial_decision kind = Inr d'' \<longrightarrow> (\<exists>e. normalize_decision kind d'' = Inr e) \<and>
     (\<forall>r. denial_response kind params = Inr r \<longrightarrow> resolution kind params (Some False) None = Inr (r, d'')))"
  by (blast intro: decision_texts_normal resolution_texts terminal_texts denial_texts denial_is_refusal)

theorem decisions_admissible_ex:
  "normalize_decision PERMISSION_REQUEST ''denied'' = Inr DENIED \<and>
   resolution PERMISSION_REQUEST [] (Some False) None = Inr (JObj [(''permissions'', JObj []),
     (''scope'', JStr ''turn''), (''strictAutoReview'', JBool False)], ''denied'')"
proof -
  have a: "denial_decision PERMISSION_REQUEST = Inr ''denied''" by simp
  have b: "denial_response PERMISSION_REQUEST [] = Inr (JObj [(''permissions'', JObj []),
     (''scope'', JStr ''turn''), (''strictAutoReview'', JBool False)])"
    by (simp add: permission_response_def has_key_def)
  have "\<exists>e. normalize_decision PERMISSION_REQUEST ''denied'' = Inr e"
    using decisions_admissible [of PERMISSION_REQUEST] a by blast
  then have "normalize_decision PERMISSION_REQUEST ''denied'' = Inr DENIED" by simp
  then show ?thesis using decisions_admissible [of PERMISSION_REQUEST] a b by blast
qed

text \<open>
  C8. A response built for an answer from Lark, had the terminal sent it, is accepted and leads to the
  same decision; the one exception is the grant of an empty set of permissions, which the
  terminal's reading records as denied.
\<close>

theorem resolution_agrees_with_terminal:
  assumes "resolution kind params allow answers = Inr (resp, d)"
  shows "terminal_decision kind params resp = Inr d \<or>
    kind = PERMISSION_REQUEST \<and> allow = Some True \<and> d = ''granted'' \<and>
    (jget params ''permissions'' = JObj [] \<or> \<not> has_key params ''permissions'') \<and>
    terminal_decision kind params resp = Inr ''denied''"
proof (cases kind)
  case USER_INPUT
  then show ?thesis using assms user_input_agrees by simp
next
  case PERMISSION_REQUEST
  then show ?thesis using assms permission_agrees by blast
qed (use assms approvals_agree in blast)+

theorem resolution_agrees_with_terminal_ex:
  "terminal_decision EXEC_APPROVAL [] (command_approval_response True) = Inr ''approved''"
  using resolution_agrees_with_terminal
    [of EXEC_APPROVAL "[]" "Some True" None "command_approval_response True" "''approved''"]
  by (simp add: resolution_def)

text \<open>
  The answers to a list of questions are accepted exactly when the questions have distinct
  non-empty identifiers and the answers are one string for each of them and for nothing else; the
  response then pairs every question, in order, with its answer.
\<close>

theorem user_input_accepted_iff:
  "user_input_response qs ans = Inr r \<longleftrightarrow>
   (\<exists>ids. list_all2 asks qs ids \<and> distinct ids \<and> set ids = fst ` set ans \<and>
     (\<forall>v\<in>snd ` set ans. as_str v \<noteq> None) \<and>
     r = JObj [(''answers'', JObj (map (\<lambda>i. (i, JObj [(''answers'', JArr [jget ans i])])) ids))])"
  by (simp add: user_input_response_Inr question_ids_Inr conj_assoc)

theorem user_input_accepted_iff_ex:
  "user_input_response [JObj [(''id'', JStr ''q1'')]] [(''q1'', JStr ''yes'')] =
   Inr (JObj [(''answers'', JObj [(''q1'', JObj [(''answers'', JArr [JStr ''yes''])])])])"
  unfolding user_input_accepted_iff by (rule exI [of _ "[''q1'']"]) (simp add: jget_def)

text \<open>
  Two request identifiers have the same canonical text only if they are the same identifier, so the
  integer 7 and the string ``7'' are told apart.
\<close>

theorem canonical_request_id_injective:
  "canonical_request_id a = canonical_request_id b \<longleftrightarrow> a = b"
  by (simp add: canonical_request_id_def dumps_id_inj)

end
