(* ===== verification/Async.thy ===== *)
theory Async
  imports Prelude
begin

text \<open>
  Coroutines of one event loop. A handler runs without interruption up to its next \<^verbatim>\<open>await\<close> of an
  outside call; there it suspends with a continuation, and other handlers run before the reply
  comes. \<open>Await q k\<close> is a task suspended on the call \<open>q\<close>; the reply is a result or the exception
  the call raised, a cancellation included. A method without such a call, \<^verbatim>\<open>async\<close> or not, is
  a \<open>sync\<close> function: it changes the state and returns or raises, and what it wrote before raising
  stays written.
\<close>

subsection \<open>Straight-line code with exceptions\<close>

type_synonym ('s, 'a) sync = "'s \<Rightarrow> 'a outcome \<times> 's"

definition return :: "'a \<Rightarrow> ('s, 'a) sync" where
  "return x = (\<lambda>s. (Inr x, s))"

definition raise :: "exn \<Rightarrow> ('s, 'a) sync" where
  "raise e = (\<lambda>s. (Inl e, s))"

definition from_outcome :: "'a outcome \<Rightarrow> ('s, 'a) sync" where
  "from_outcome r = (\<lambda>s. (r, s))"

definition bnd :: "('s, 'a) sync \<Rightarrow> ('a \<Rightarrow> ('s, 'b) sync) \<Rightarrow> ('s, 'b) sync" where
  "bnd m f = (\<lambda>s. case m s of (Inl e, s') \<Rightarrow> (Inl e, s') | (Inr x, s') \<Rightarrow> f x s')"

definition modify :: "('s \<Rightarrow> 's) \<Rightarrow> ('s, unit) sync" where
  "modify f = (\<lambda>s. (Inr (), f s))"

definition gets :: "('s \<Rightarrow> 'a) \<Rightarrow> ('s, 'a) sync" where
  "gets f = (\<lambda>s. (Inr (f s), s))"

text \<open>\<^verbatim>\<open>try\<close>/\<^verbatim>\<open>except\<close>: the handler sees the exception and the state it left.\<close>

definition catch :: "('s, 'a) sync \<Rightarrow> (exn \<Rightarrow> ('s, 'a) sync) \<Rightarrow> ('s, 'a) sync" where
  "catch m h = (\<lambda>s. case m s of (Inl e, s') \<Rightarrow> h e s' | (Inr x, s') \<Rightarrow> (Inr x, s'))"

fun for_each :: "'a list \<Rightarrow> ('a \<Rightarrow> ('s, unit) sync) \<Rightarrow> ('s, unit) sync" where
  "for_each [] f = return ()"
| "for_each (x # xs) f = bnd (f x) (\<lambda>_. for_each xs f)"

text \<open>
  A computation keeps a property of the state, whether it returns or raises. This is the
  rule by which the invariants of the components are carried through their methods.
\<close>

definition keeps :: "('s \<Rightarrow> bool) \<Rightarrow> ('s, 'a) sync \<Rightarrow> bool" where
  "keeps P m \<longleftrightarrow> (\<forall>s. P s \<longrightarrow> P (snd (m s)))"

named_theorems keeps_rules

lemma keepsI: "(\<And>s. P s \<Longrightarrow> P (snd (m s))) \<Longrightarrow> keeps P m"
  by (simp add: keeps_def)

lemma keepsD: "keeps P m \<Longrightarrow> P s \<Longrightarrow> P (snd (m s))"
  by (simp add: keeps_def)

lemma keeps_return [keeps_rules, simp]: "keeps P (return x)"
  by (simp add: keeps_def return_def)

lemma keeps_raise [keeps_rules, simp]: "keeps P (raise e)"
  by (simp add: keeps_def raise_def)

lemma keeps_from_outcome [keeps_rules, simp]: "keeps P (from_outcome r)"
  by (simp add: keeps_def from_outcome_def)

lemma keeps_gets [keeps_rules, simp]: "keeps P (gets f)"
  by (simp add: keeps_def gets_def)

lemma keeps_bnd [keeps_rules, intro]: "keeps P m \<Longrightarrow> (\<And>x. keeps P (f x)) \<Longrightarrow> keeps P (bnd m f)"
  by (fastforce simp: keeps_def bnd_def split: sum.splits prod.splits)

lemma keeps_catch [keeps_rules, intro]: "keeps P m \<Longrightarrow> (\<And>e. keeps P (h e)) \<Longrightarrow> keeps P (catch m h)"
  by (fastforce simp: keeps_def catch_def split: sum.splits prod.splits)

lemma keeps_for_each [keeps_rules, intro]: "(\<And>x. x \<in> set xs \<Longrightarrow> keeps P (f x)) \<Longrightarrow> keeps P (for_each xs f)"
  by (induction xs) auto

lemma keeps_modify: "(\<And>s. P s \<Longrightarrow> P (f s)) \<Longrightarrow> keeps P (modify f)"
  by (simp add: keeps_def modify_def)

lemma keeps_if [keeps_rules]: "keeps P a \<Longrightarrow> keeps P b \<Longrightarrow> keeps P (if c then a else b)"
  by simp

lemma keeps_case_option [keeps_rules]:
  "keeps P a \<Longrightarrow> (\<And>x. keeps P (f x)) \<Longrightarrow> keeps P (case v of None \<Rightarrow> a | Some x \<Rightarrow> f x)"
  by (cases v) simp_all

lemma bnd_run:
  "m s = (Inr x, s') \<Longrightarrow> bnd m f s = f x s'" "m s = (Inl e, s') \<Longrightarrow> bnd m f s = (Inl e, s')"
  by (simp_all add: bnd_def)

text \<open>Inversion of a computation that returned.\<close>

lemma bnd_Inr: "bnd m f s = (Inr y, s') \<longleftrightarrow> (\<exists>x s1. m s = (Inr x, s1) \<and> f x s1 = (Inr y, s'))"
  by (simp add: bnd_def split: prod.split sum.split)

lemma return_Inr: "return x s = (Inr y, s') \<longleftrightarrow> y = x \<and> s' = s"
  by (auto simp: return_def)

lemma raise_Inr: "raise e s \<noteq> (Inr y, s')"
  by (simp add: raise_def)

lemma modify_Inr: "modify f s = (Inr u, s') \<longleftrightarrow> s' = f s"
  by (auto simp: modify_def)

lemma gets_Inr: "gets f s = (Inr y, s') \<longleftrightarrow> y = f s \<and> s' = s"
  by (auto simp: gets_def)

lemmas run_Inr = bnd_Inr return_Inr raise_Inr modify_Inr gets_Inr

text \<open>A computation that never raises.\<close>

definition returns :: "('s, 'a) sync \<Rightarrow> bool" where
  "returns m \<longleftrightarrow> (\<forall>s. \<exists>x s'. m s = (Inr x, s'))"

named_theorems returns_rules

lemma returns_intros [returns_rules]:
  "returns (return x)" "returns (modify f)" "returns (gets f)"
  by (simp_all add: returns_def return_def modify_def gets_def)

lemma returns_bnd [returns_rules]: "returns m \<Longrightarrow> (\<And>x. returns (f x)) \<Longrightarrow> returns (bnd m f)"
  unfolding returns_def bnd_def by (metis (mono_tags, lifting) case_prod_conv sum.case(2))

lemma returns_cases [returns_rules]:
  "returns a \<Longrightarrow> returns b \<Longrightarrow> returns (if c then a else b)"
  "returns a \<Longrightarrow> (\<And>x. returns (g x)) \<Longrightarrow> returns (case v of None \<Rightarrow> a | Some x \<Rightarrow> g x)"
  "(\<And>x y. returns (h x y)) \<Longrightarrow> returns (case w of (x, y) \<Rightarrow> h x y)"
  by (cases v; cases w; simp)+

lemma returnsE:
  assumes "returns m"
  obtains x s' where "m s = (Inr x, s')"
  using assms unfolding returns_def by blast

lemmas sync_defs = return_def raise_def from_outcome_def modify_def gets_def

subsection \<open>Tasks and the event loop\<close>

datatype ('s, 'q, 'r, 'a) task =
    Done "'a outcome"
  | Await 'q "'r outcome \<Rightarrow> 's \<Rightarrow> 's \<times> ('s, 'q, 'r, 'a) task"

text \<open>The segment that ends a coroutine with the outcome of straight-line code.\<close>

definition finish :: "('s, 'a) sync \<Rightarrow> 's \<Rightarrow> 's \<times> ('s, 'q, 'r, 'a) task" where
  "finish m s = (case m s of (r, s') \<Rightarrow> (s', Done r))"

text \<open>Straight-line code followed by the rest of the coroutine; an exception ends the coroutine.\<close>

definition run_then ::
  "('s, 'b) sync \<Rightarrow> ('b \<Rightarrow> 's \<Rightarrow> 's \<times> ('s, 'q, 'r, 'a) task) \<Rightarrow> 's \<Rightarrow> 's \<times> ('s, 'q, 'r, 'a) task" where
  "run_then m k s = (case m s of (Inl e, s') \<Rightarrow> (s', Done (Inl e)) | (Inr x, s') \<Rightarrow> k x s')"

lemma run_then_gets: "run_then (gets f) k s = k (f s) s"
  by (simp add: run_then_def gets_def)

lemma run_then_modify: "run_then (modify h) k s = k () (h s)"
  by (simp add: run_then_def modify_def)

text \<open>The same inside \<^verbatim>\<open>try\<close>: an exception is passed to the handler.\<close>

definition run_try ::
  "('s, 'b) sync \<Rightarrow> (exn \<Rightarrow> 's \<Rightarrow> 's \<times> ('s, 'q, 'r, 'a) task) \<Rightarrow>
   ('b \<Rightarrow> 's \<Rightarrow> 's \<times> ('s, 'q, 'r, 'a) task) \<Rightarrow> 's \<Rightarrow> 's \<times> ('s, 'q, 'r, 'a) task" where
  "run_try m h k s = (case m s of (Inl e, s') \<Rightarrow> h e s' | (Inr x, s') \<Rightarrow> k x s')"

text \<open>A coroutine inside \<^verbatim>\<open>try\<close>: the handler takes over where the coroutine raises.\<close>

primrec catch_task ::
  "(exn \<Rightarrow> 's \<Rightarrow> 's \<times> ('s, 'q, 'r, 'a) task) \<Rightarrow> ('s, 'q, 'r, 'a) task \<Rightarrow> 's \<Rightarrow>
   's \<times> ('s, 'q, 'r, 'a) task" where
  "catch_task h (Done r) = (case r of Inl e \<Rightarrow> h e | Inr x \<Rightarrow> (\<lambda>s. (s, Done (Inr x))))"
| "catch_task h (Await q k) = (\<lambda>s. (s, Await q (\<lambda>r s1.
     (case map_prod id (catch_task h) (k r s1) of (s2, g) \<Rightarrow> g s2))))"

text \<open>A coroutine called by another one: the caller goes on with its outcome.\<close>

primrec bind_task ::
  "('b outcome \<Rightarrow> 's \<Rightarrow> 's \<times> ('s, 'q, 'r, 'a) task) \<Rightarrow> ('s, 'q, 'r, 'b) task \<Rightarrow> 's \<Rightarrow>
   's \<times> ('s, 'q, 'r, 'a) task" where
  "bind_task h (Done r) = h r"
| "bind_task h (Await q k) = (\<lambda>s. (s, Await q (\<lambda>r s1.
     (case map_prod id (bind_task h) (k r s1) of (s2, g) \<Rightarrow> g s2))))"

definition call_then ::
  "('s \<Rightarrow> 's \<times> ('s, 'q, 'r, 'b) task) \<Rightarrow> ('b outcome \<Rightarrow> 's \<Rightarrow> 's \<times> ('s, 'q, 'r, 'a) task) \<Rightarrow>
   's \<Rightarrow> 's \<times> ('s, 'q, 'r, 'a) task" where
  "call_then f h s = (case f s of (s', t) \<Rightarrow> bind_task h t s')"

text \<open>
  Every continuation of the task keeps the invariant, whatever reply it gets and whatever
  the other tasks did to the state in the meantime.
\<close>

inductive safe :: "('s \<Rightarrow> bool) \<Rightarrow> ('s, 'q, 'r, 'a) task \<Rightarrow> bool" for P where
  finished: "safe P (Done r)"
| suspended: "(\<And>r s. P s \<Longrightarrow> P (fst (k r s)) \<and> safe P (snd (k r s))) \<Longrightarrow> safe P (Await q k)"

inductive_simps safe_await [simp]: "safe P (Await q k)"

lemma safe_done [simp]: "safe P (Done r)"
  by (rule safe.finished)

definition segment_ok :: "('s \<Rightarrow> bool) \<Rightarrow> ('s \<Rightarrow> 's \<times> ('s, 'q, 'r, 'a) task) \<Rightarrow> bool" where
  "segment_ok P f \<longleftrightarrow> (\<forall>s. P s \<longrightarrow> P (fst (f s)) \<and> safe P (snd (f s)))"

lemma segment_finish [keeps_rules, intro]: "keeps P m \<Longrightarrow> segment_ok P (finish m)"
  by (auto simp: segment_ok_def finish_def dest: keepsD split: prod.splits)

lemma segment_run_then [keeps_rules, intro]:
  "keeps P m \<Longrightarrow> (\<And>x. segment_ok P (k x)) \<Longrightarrow> segment_ok P (run_then m k)"
  by (fastforce simp: segment_ok_def run_then_def dest: keepsD split: prod.splits sum.splits)

lemma segment_run_try [keeps_rules, intro]:
  "keeps P m \<Longrightarrow> (\<And>e. segment_ok P (h e)) \<Longrightarrow> (\<And>x. segment_ok P (k x)) \<Longrightarrow> segment_ok P (run_try m h k)"
  by (fastforce simp: segment_ok_def run_try_def dest: keepsD split: prod.splits sum.splits)

lemma segment_catch_task:
  assumes "\<And>e. segment_ok P (h e)" "safe P t"
  shows "segment_ok P (catch_task h t)"
  using assms(2)
proof (induction rule: safe.induct)
  case (finished r)
  then show ?case using assms(1) by (cases r) (auto simp: segment_ok_def)
next
  case (suspended k q)
  have "P (fst (g s2)) \<and> safe P (snd (g s2))"
    if "P s" "map_prod id (catch_task h) (k r s) = (s2, g)" for r s s2 g
    using suspended [OF that(1), of r] that(2) by (cases "k r s") (auto simp: segment_ok_def)
  then show ?case
    by (auto simp: segment_ok_def split: prod.splits)
qed

lemma segment_bind_task:
  assumes "\<And>r. segment_ok P (h r)" "safe P t"
  shows "segment_ok P (bind_task h t)"
  using assms(2)
proof (induction rule: safe.induct)
  case (finished r)
  then show ?case using assms(1) by simp
next
  case (suspended k q)
  have "P (fst (g s2)) \<and> safe P (snd (g s2))"
    if "P s" "map_prod id (bind_task h) (k r s) = (s2, g)" for r s s2 g
    using suspended [OF that(1), of r] that(2) by (cases "k r s") (auto simp: segment_ok_def)
  then show ?case
    by (auto simp: segment_ok_def split: prod.splits)
qed

lemma segment_call_then [keeps_rules]:
  assumes "segment_ok P f" "\<And>r. segment_ok P (h r)"
  shows "segment_ok P (call_then f h)"
  unfolding segment_ok_def
proof (intro allI impI)
  fix s assume s: "P s"
  obtain s' t where f: "f s = (s', t)" by (cases "f s")
  then have t: "P s'" "safe P t" using assms(1) s by (fastforce simp: segment_ok_def)+
  show "P (fst (call_then f h s)) \<and> safe P (snd (call_then f h s))"
    using segment_bind_task [OF assms(2) t(2)] t(1) by (simp add: call_then_def f segment_ok_def)
qed

lemma segment_if [keeps_rules]: "segment_ok P a \<Longrightarrow> segment_ok P b \<Longrightarrow> segment_ok P (if c then a else b)"
  by simp

lemma segment_case_option [keeps_rules]:
  "segment_ok P a \<Longrightarrow> (\<And>x. segment_ok P (f x)) \<Longrightarrow> segment_ok P (case v of None \<Rightarrow> a | Some x \<Rightarrow> f x)"
  by (cases v) simp_all

lemma segment_case_sum [keeps_rules]:
  "(\<And>e. segment_ok P (g e)) \<Longrightarrow> (\<And>x. segment_ok P (f x)) \<Longrightarrow>
   segment_ok P (case v of Inl e \<Rightarrow> g e | Inr x \<Rightarrow> f x)"
  by (cases v) simp_all

lemma segment_case_prod [keeps_rules]: "(\<And>a b. segment_ok P (f a b)) \<Longrightarrow> segment_ok P (case x of (a, b) \<Rightarrow> f a b)"
  by (cases x) simp

lemma segment_case_list [keeps_rules]:
  "segment_ok P a \<Longrightarrow> (\<And>x xs. segment_ok P (f x xs)) \<Longrightarrow> segment_ok P (case v of [] \<Rightarrow> a | x # xs \<Rightarrow> f x xs)"
  by (cases v) simp_all

text \<open>
  With a postcondition: what a computation that returns has established may be used by the rest
  of the segment, as no other task runs in between.
\<close>

definition triple :: "('s \<Rightarrow> bool) \<Rightarrow> ('s, 'a) sync \<Rightarrow> ('a \<Rightarrow> 's \<Rightarrow> bool) \<Rightarrow> bool" where
  "triple P m Q \<longleftrightarrow> (\<forall>s. P s \<longrightarrow> P (snd (m s)) \<and> (\<forall>x. fst (m s) = Inr x \<longrightarrow> Q x (snd (m s))))"

definition segment_from ::
  "('s \<Rightarrow> bool) \<Rightarrow> ('s \<Rightarrow> bool) \<Rightarrow> ('s \<Rightarrow> 's \<times> ('s, 'q, 'r, 'a) task) \<Rightarrow> bool" where
  "segment_from P Q f \<longleftrightarrow> (\<forall>s. P s \<longrightarrow> Q s \<longrightarrow> P (fst (f s)) \<and> safe P (snd (f s)))"

lemma segment_from_ok: "segment_ok P f \<Longrightarrow> segment_from P Q f"
  by (simp add: segment_ok_def segment_from_def)

lemma segment_run_then_post:
  assumes "triple P m Q" and "\<And>x. segment_from P (Q x) (k x)"
  shows "segment_ok P (run_then m k)"
  using assms
  by (fastforce simp: segment_ok_def segment_from_def triple_def run_then_def
      split: prod.splits sum.splits)

lemma segment_from_run_then:
  assumes "\<And>s. P s \<Longrightarrow> Q s \<Longrightarrow> P (snd (m s)) \<and> (\<forall>x. fst (m s) = Inr x \<longrightarrow> R x (snd (m s)))"
    and "\<And>x. segment_from P (R x) (k x)"
  shows "segment_from P Q (run_then m k)"
  using assms
  by (fastforce simp: segment_from_def run_then_def split: prod.splits sum.splits)

lemma keeps_bnd_post:
  assumes "triple P m Q" and "\<And>x s. P s \<Longrightarrow> Q x s \<Longrightarrow> P (snd (f x s))"
  shows "keeps P (bnd m f)"
  using assms by (fastforce simp: keeps_def triple_def bnd_def split: prod.splits sum.splits)

text \<open>
  The event loop: a handler starts and runs to its first suspension, or a suspended task gets a
  reply and runs to its next one; between them the environment may act on the state.
\<close>

inductive loop ::
  "('h \<Rightarrow> 's \<Rightarrow> 's \<times> ('s, 'q, 'r, 'a) task) \<Rightarrow> ('s \<Rightarrow> 's \<Rightarrow> bool) \<Rightarrow>
   's \<times> ('s, 'q, 'r, 'a) task list \<Rightarrow> 's \<times> ('s, 'q, 'r, 'a) task list \<Rightarrow> bool"
  for start env where
  spawn: "start h s = (s', t) \<Longrightarrow> loop start env (s, ts) (s', ts @ [t])"
| resume: "k r s = (s', t) \<Longrightarrow> loop start env (s, us @ Await q k # vs) (s', us @ t # vs)"
| environment: "env s s' \<Longrightarrow> loop start env (s, ts) (s', ts)"

text \<open>
  A script runs handlers one after the other, each to its end or as far as the given replies take it;
  it is one of the runs of the loop, and computes.
\<close>

fun feed :: "'r outcome list \<Rightarrow> 's \<times> ('s, 'q, 'r, 'a) task \<Rightarrow> 's \<times> ('s, 'q, 'r, 'a) task" where
  "feed (r # rs) (s, Await q k) = feed rs (k r s)"
| "feed _ x = x"

fun perform :: "('h \<Rightarrow> 's \<Rightarrow> 's \<times> ('s, 'q, 'r, 'a) task) \<Rightarrow> ('h \<times> 'r outcome list) list \<Rightarrow> 's \<Rightarrow> 's" where
  "perform start [] s = s"
| "perform start ((h, rs) # script) s = perform start script (fst (feed rs (start h s)))"

lemma feed_loop: "feed rs (s, t) = (s', t') \<Longrightarrow> (loop start env)\<^sup>*\<^sup>* (s, us @ t # vs) (s', us @ t' # vs)"
proof (induction rs "(s, t)" arbitrary: s t rule: feed.induct)
  case (1 r rs s q k)
  obtain s1 t1 where k: "k r s = (s1, t1)" by (cases "k r s")
  have "loop start env (s, us @ Await q k # vs) (s1, us @ t1 # vs)" using k by (rule loop.resume)
  then show ?case using 1 k by (simp add: converse_rtranclp_into_rtranclp)
qed auto

lemma perform_loop: "\<exists>ts'. (loop start env)\<^sup>*\<^sup>* (s, ts) (perform start script s, ts')"
proof (induction script arbitrary: s ts)
  case Nil
  then show ?case by auto
next
  case (Cons x script)
  obtain h rs where x: "x = (h, rs)" by (cases x)
  obtain s1 t1 where h: "start h s = (s1, t1)" by (cases "start h s")
  obtain s2 t2 where f: "feed rs (s1, t1) = (s2, t2)" by (cases "feed rs (s1, t1)")
  have "loop start env (s, ts) (s1, ts @ [t1])" by (rule loop.spawn) (rule h)
  also have "(loop start env)\<^sup>*\<^sup>* (s1, ts @ t1 # []) (s2, ts @ t2 # [])" by (rule feed_loop [OF f])
  finally have "(loop start env)\<^sup>*\<^sup>* (s, ts) (s2, ts @ [t2])" by simp
  moreover obtain ts' where "(loop start env)\<^sup>*\<^sup>* (s2, ts @ [t2]) (perform start script s2, ts')"
    using Cons.IH by blast
  ultimately show ?case using x h f by (auto intro: rtranclp_trans)
qed

text \<open>The contract between the handlers of a component and the event loop that runs them.\<close>

locale handlers =
  fixes inv :: "'s \<Rightarrow> bool"
    and start :: "'h \<Rightarrow> 's \<Rightarrow> 's \<times> ('s, 'q, 'r, 'a) task"
    and env :: "'s \<Rightarrow> 's \<Rightarrow> bool"
  assumes handler_ok: "segment_ok inv (start h)"
    and env_ok: "inv s \<Longrightarrow> env s s' \<Longrightarrow> inv s'"
begin

definition config_ok :: "'s \<times> ('s, 'q, 'r, 'a) task list \<Rightarrow> bool" where
  "config_ok c \<longleftrightarrow> inv (fst c) \<and> (\<forall>t\<in>set (snd c). safe inv t)"

lemma loop_ok: "loop start env c c' \<Longrightarrow> config_ok c \<Longrightarrow> config_ok c'"
proof (induction rule: loop.induct)
  case (spawn h s s' t ts)
  then show ?case using handler_ok [of h] by (auto simp: config_ok_def segment_ok_def)
next
  case (resume k r s s' t us q vs)
  then have "inv s" "safe inv (Await q k)" by (simp_all add: config_ok_def)
  then have "inv s'" "safe inv t" using resume.hyps by (metis fst_conv snd_conv safe_await)+
  then show ?case using resume.prems by (auto simp: config_ok_def)
next
  case (environment s s' ts)
  then show ?case using env_ok by (auto simp: config_ok_def)
qed

lemma loops_ok: "(loop start env)\<^sup>*\<^sup>* c c' \<Longrightarrow> config_ok c \<Longrightarrow> config_ok c'"
  by (induction rule: rtranclp_induct) (auto intro: loop_ok)

lemma reachable_inv: "(loop start env)\<^sup>*\<^sup>* (s, []) (s', ts) \<Longrightarrow> inv s \<Longrightarrow> inv s'"
  using loops_ok by (fastforce simp: config_ok_def)

end

end
