(* ===== verification/Orchestrator.thy ===== *)
theory Orchestrator
  imports Codex_Resolution Async
begin

text \<open>
  \<^verbatim>\<open>modules/codex/codex_orchestrator.py\<close>: the coroutines that own the sessions and interactions of
  the Codex app-server. The state is the object's fields, the store among them; \<open>calls\<close> is the
  list of outside calls made so far. A method is straight-line code or a coroutine (theory
  \<open>Async\<close>); \<^verbatim>\<open>_emit\<close>, \<^verbatim>\<open>_interrupt_session\<close> and \<^verbatim>\<open>process_notification\<close> are declared \<^verbatim>\<open>async\<close> but
  call nothing outside, so no other coroutine runs while they do. The clock and the identifier
  factory are parameters, read at a counter. The locks of \<^verbatim>\<open>start\<close> and \<^verbatim>\<open>close\<close> are calls whose
  reply is the acquisition.
\<close>

subsection \<open>Configuration, events, state\<close>

datatype event_type =
    SESSION_STARTED | INTERACTION_REQUESTED | INTERACTION_RESOLVED | SESSION_COMPLETED
  | SESSION_INTERRUPTED | TURN_COMPLETED | TURN_INTERRUPTED

fun event_type_value :: "event_type \<Rightarrow> string" where
  "event_type_value SESSION_STARTED = ''session_started''"
| "event_type_value INTERACTION_REQUESTED = ''interaction_requested''"
| "event_type_value INTERACTION_RESOLVED = ''interaction_resolved''"
| "event_type_value SESSION_COMPLETED = ''session_completed''"
| "event_type_value SESSION_INTERRUPTED = ''session_interrupted''"
| "event_type_value TURN_COMPLETED = ''turn_completed''"
| "event_type_value TURN_INTERRUPTED = ''turn_interrupted''"

record orchestrator_event =
  e_type :: event_type
  e_session_id :: string
  e_interaction_id :: "string option"
  e_status :: session_status
  e_summary :: string

record server_request =
  q_id :: rpc_id
  q_method :: string
  q_params :: json_object

record server_notification =
  n_method :: string
  n_params :: json_object

text \<open>\<open>l_responder = None\<close> is the app-server's own \<^verbatim>\<open>respond\<close>; otherwise the caller's callback, by name.\<close>

record live_interaction =
  l_request :: server_request
  l_interaction :: pending_interaction
  l_responder :: "string option"

datatype call =
    CallLock string
  | CallStart
  | CallStartThread string "string option" string
  | CallStartTurn string string
  | CallInterruptTurn string string
  | CallAnswer live_interaction json
  | CallError "string option" rpc_id int string
  | CallGather
  | CallWaitClosed
  | CallClose

record orchestrator_config =
  c_timeout_seconds :: int
  c_queue_capacity :: int
  c_delay :: int
  c_now :: "nat \<Rightarrow> instant"
  c_new_id :: "nat \<Rightarrow> string"

record orchestrator =
  orc_store :: codex_store
  live :: "(string \<times> live_interaction) list"
  interactive_sessions :: "string set"
  final_text :: "((string \<times> string) \<times> (string \<times> bool)) list"
  events :: "orchestrator_event list"
  started :: bool
  closing :: bool
  closed :: bool
  terminal_error :: "exn option"
  app_running :: bool
  clock_reads :: nat
  ids_made :: nat
  calls :: "call list"

datatype reply_value =
    RNone | RBool bool | RText string | RSession codex_session
  | RInteraction "pending_interaction option" | RIds "string list"

type_synonym 'a osync = "(orchestrator, 'a) sync"
type_synonym otask = "(orchestrator, call, string, reply_value) task"
type_synonym segment = "orchestrator \<Rightarrow> orchestrator \<times> otask"

definition REQUEST_KINDS :: "(string \<times> interaction_kind) list" where
  "REQUEST_KINDS =
     [(''item/commandExecution/requestApproval'', EXEC_APPROVAL),
      (''item/fileChange/requestApproval'', FILE_CHANGE_APPROVAL),
      (''item/permissions/requestApproval'', PERMISSION_REQUEST),
      (''item/tool/requestUserInput'', USER_INPUT)]"

definition initial :: "codex_store \<Rightarrow> orchestrator" where
  "initial st = \<lparr>orc_store = st, live = [], interactive_sessions = {}, final_text = [], events = [],
     started = False, closing = False, closed = False, terminal_error = None,
     app_running = False, clock_reads = 0, ids_made = 0, calls = []\<rparr>"

definition new_orchestrator :: "orchestrator_config \<Rightarrow> codex_store \<Rightarrow> orchestrator outcome" where
  "new_orchestrator c st =
     (if c_timeout_seconds c \<le> 0 then value_error ''interaction timeout must be positive''
      else if c_queue_capacity c \<le> 0 then value_error ''event queue capacity must be positive''
      else if c_delay c < 0 then value_error ''notification delay must not be negative''
      else Inr (initial st))"

subsection \<open>The store, the clock, the calls\<close>

definition utc_now :: "orchestrator_config \<Rightarrow> instant osync" where
  "utc_now c = (\<lambda>s. (Inr (c_now c (clock_reads s)), s\<lparr>clock_reads := Suc (clock_reads s)\<rparr>))"

definition fresh_id :: "orchestrator_config \<Rightarrow> string osync" where
  "fresh_id c = (\<lambda>s. (Inr (c_new_id c (ids_made s)), s\<lparr>ids_made := Suc (ids_made s)\<rparr>))"

definition read_store :: "(codex_store \<Rightarrow> 'a outcome) \<Rightarrow> 'a osync" where
  "read_store f = (\<lambda>s. (f (orc_store s), s))"

definition write_store :: "(codex_store \<Rightarrow> ('a \<times> codex_store) outcome) \<Rightarrow> 'a osync" where
  "write_store f = (\<lambda>s. case f (orc_store s) of Inl e \<Rightarrow> (Inl e, s)
     | Inr (x, st) \<Rightarrow> (Inr x, s\<lparr>orc_store := st\<rparr>))"

lemma utc_now_Inr: "utc_now c s = (Inr t, s') \<longleftrightarrow>
   t = c_now c (clock_reads s) \<and> s' = s\<lparr>clock_reads := Suc (clock_reads s)\<rparr>"
  by (auto simp: utc_now_def)

lemma read_store_Inr: "read_store f s = (Inr x, s') \<longleftrightarrow> s' = s \<and> f (orc_store s) = Inr x"
  by (auto simp: read_store_def)

lemma write_store_Inr: "write_store f s = (Inr x, s') \<longleftrightarrow>
   (\<exists>st'. f (orc_store s) = Inr (x, st') \<and> s' = s\<lparr>orc_store := st'\<rparr>)"
  by (auto simp: write_store_def split: sum.split)

lemmas orc_Inr = run_Inr utc_now_Inr read_store_Inr write_store_Inr

definition add_session :: "codex_session \<Rightarrow> unit osync" where
  "add_session session = write_store (\<lambda>st. case store_create_session session st of
     Inl e \<Rightarrow> Inl e | Inr st' \<Rightarrow> Inr ((), st'))"

definition await_call :: "call \<Rightarrow> (string outcome \<Rightarrow> segment) \<Rightarrow> segment" where
  "await_call q k s = (s\<lparr>calls := calls s @ [q]\<rparr>, Await q k)"

definition is_active_session :: "codex_session option \<Rightarrow> bool" where
  "is_active_session session = (case session of None \<Rightarrow> False | Some v \<Rightarrow> is_active (s_status v))"

subsection \<open>Events and interruption\<close>

definition emit ::
  "orchestrator_config \<Rightarrow> event_type \<Rightarrow> string \<Rightarrow> string option \<Rightarrow> session_status \<Rightarrow> string \<Rightarrow>
   unit osync" where
  "emit c ty session_id interaction_id status summary =
     bnd (utc_now c) (\<lambda>created_at.
     bnd (read_store (store_get_session session_id)) (\<lambda>session.
     bnd (write_store (store_enqueue_outbox (''orchestrator:'' @ event_type_value ty) (safe_summary summary)
            (Some session_id) (Some ''codex'')
            (Some (case session of None \<Rightarrow> session_id | Some v \<Rightarrow> s_name v)) interaction_id
            (Some (created_at + c_delay c)) (Some created_at) created_at)) (\<lambda>_.
     modify (\<lambda>s. s\<lparr>events :=
       (let event = \<lparr>e_type = ty, e_session_id = session_id, e_interaction_id = interaction_id,
              e_status = status, e_summary = safe_summary summary\<rparr>
        in opt_or (put_nowait (nat (c_queue_capacity c)) (events s) event) (events s))\<rparr>))))"

definition drop_live_for_session :: "string \<Rightarrow> unit osync" where
  "drop_live_for_session session_id =
     modify (\<lambda>s. s\<lparr>live := filter (\<lambda>(k, l). i_session_id (l_interaction l) \<noteq> session_id) (live s)\<rparr>)"

definition interrupt_session :: "orchestrator_config \<Rightarrow> string \<Rightarrow> string \<Rightarrow> bool osync" where
  "interrupt_session c session_id summary =
     bnd (read_store (store_get_session session_id)) (\<lambda>session.
     if \<not> is_active_session session then return False else
     bnd (utc_now c) (\<lambda>timestamp.
     bnd (write_store (store_claim_session_terminal session_id S_INTERRUPTED summary I_CANCELLED timestamp)) (\<lambda>affected.
     if affected = None then return False else
     bnd (drop_live_for_session session_id) (\<lambda>_.
     bnd (emit c SESSION_INTERRUPTED session_id None S_INTERRUPTED summary) (\<lambda>_.
     return True)))))"

text \<open>\<^verbatim>\<open>for session in list_sessions(): if active: interrupt\<close>, of the monitor and of a failed consumer.\<close>

definition interrupt_active :: "orchestrator_config \<Rightarrow> string \<Rightarrow> unit osync" where
  "interrupt_active c summary =
     bnd (read_store (store_list_sessions None)) (\<lambda>sessions.
     for_each sessions (\<lambda>v. if is_active (s_status v)
       then bnd (interrupt_session c (s_id v) summary) (\<lambda>_. return ()) else return ()))"

subsection \<open>Sessions\<close>

definition new_session ::
  "string \<Rightarrow> string \<Rightarrow> string \<Rightarrow> string option \<Rightarrow> string \<Rightarrow> instant \<Rightarrow> codex_session" where
  "new_session sid name cwd model sandbox t =
     \<lparr>s_id = sid, s_thread_id = None, s_turn_id = None, s_name = name, s_cwd = cwd, s_model = model,
      s_sandbox = sandbox, s_status = S_STARTING, s_summary = '''', s_created_at = t, s_updated_at = t\<rparr>"

definition startup_failed :: "orchestrator_config \<Rightarrow> string \<Rightarrow> exn \<Rightarrow> segment" where
  "startup_failed c session_id err = finish (
     let summary = ''Codex session startup failed ('' @ exn_type err @ '')'' in
     bnd (utc_now c) (\<lambda>t.
     bnd (write_store (store_claim_session_terminal session_id S_FAILED summary I_CANCELLED t)) (\<lambda>won.
     bnd (if won = None then return () else emit c SESSION_COMPLETED session_id None S_FAILED summary) (\<lambda>_.
     raise err))))"

definition check_startup :: "orchestrator_config \<Rightarrow> string \<Rightarrow> session_status list \<Rightarrow>
  string option option \<Rightarrow> string option option \<Rightarrow> unit osync" where
  "check_startup c session_id expected thread_id turn_id =
     bnd (gets app_running) (\<lambda>running.
     if \<not> running then raise (Exn ''RuntimeError'' ''Codex app-server stopped during startup'') else
     bnd (utc_now c) (\<lambda>t.
     bnd (write_store (store_update_session_if_status session_id expected S_RUNNING thread_id turn_id
            None (Some t) t)) (\<lambda>updated.
     if \<not> updated then raise (Exn ''RuntimeError'' ''session stopped during startup'') else return ())))"

definition create_after_turn :: "orchestrator_config \<Rightarrow> string \<Rightarrow> string outcome \<Rightarrow> segment" where
  "create_after_turn c session_id reply =
     (case reply of
        Inl e \<Rightarrow> startup_failed c session_id e
      | Inr turn_id \<Rightarrow>
          run_try
            (bnd (check_startup c session_id ACTIVE_SESSION_STATUSES None (Some (Some turn_id))) (\<lambda>_.
             bnd (read_store (store_get_session session_id)) (\<lambda>current.
             case current of None \<Rightarrow> raise (Exn ''AssertionError'' '''')
             | Some v \<Rightarrow>
                 bnd (emit c SESSION_STARTED session_id None S_RUNNING ''session started'') (\<lambda>_. return v))))
            (startup_failed c session_id)
            (\<lambda>v. finish (return (RSession v))))"

definition create_after_thread :: "orchestrator_config \<Rightarrow> string \<Rightarrow> string \<Rightarrow> string outcome \<Rightarrow> segment" where
  "create_after_thread c session_id prompt reply =
     (case reply of
        Inl e \<Rightarrow> startup_failed c session_id e
      | Inr thread_id \<Rightarrow>
          run_try (check_startup c session_id [S_STARTING] (Some (Some thread_id)) None)
            (startup_failed c session_id)
            (\<lambda>_. await_call (CallStartTurn thread_id prompt) (create_after_turn c session_id)))"

definition create_session ::
  "orchestrator_config \<Rightarrow> string \<Rightarrow> string \<Rightarrow> string \<Rightarrow> string option \<Rightarrow> string \<Rightarrow> segment" where
  "create_session c name cwd prompt model sandbox =
     run_then
       (bnd (utc_now c) (\<lambda>t. bnd (fresh_id c) (\<lambda>session_id.
        bnd (add_session (new_session session_id name cwd model sandbox t)) (\<lambda>_. return session_id))))
       (\<lambda>session_id. await_call (CallStartThread cwd model sandbox)
          (create_after_thread c session_id prompt))"

definition create_interactive_session ::
  "orchestrator_config \<Rightarrow> string \<Rightarrow> string \<Rightarrow> string option \<Rightarrow> string \<Rightarrow> codex_session osync" where
  "create_interactive_session c name cwd model sandbox =
     bnd (utc_now c) (\<lambda>t. bnd (fresh_id c) (\<lambda>session_id.
     let session = new_session session_id name cwd model sandbox t in
     bnd (add_session session) (\<lambda>_.
     bnd (modify (\<lambda>s. s\<lparr>interactive_sessions := insert session_id (interactive_sessions s)\<rparr>)) (\<lambda>_.
     return session))))"

definition bind_interactive_thread ::
  "orchestrator_config \<Rightarrow> string \<Rightarrow> string \<Rightarrow> string option \<Rightarrow> bool osync" where
  "bind_interactive_thread c session_id thread_id turn_id =
     (if thread_id = [] then raise (Exn ''ValueError'' ''thread_id must be a non-empty string'')
      else if turn_id = Some [] then raise (Exn ''ValueError'' ''turn_id must be a non-empty string'')
      else bnd (utc_now c) (\<lambda>t.
        write_store (store_update_session_if_status session_id [S_STARTING] S_RUNNING
          (Some (Some thread_id)) (Some turn_id) None (Some t) t)))"

subsection \<open>Requests of the app-server\<close>

definition respond_request_error ::
  "rpc_id \<Rightarrow> string option \<Rightarrow> int \<Rightarrow> string \<Rightarrow> segment" where
  "respond_request_error request_id responder code msg =
     await_call (CallError responder request_id code msg) (\<lambda>reply.
       case reply of Inl e \<Rightarrow> finish (raise e) | Inr _ \<Rightarrow> finish (return (RInteraction None)))"

text \<open>The session a request is for: the one named by the caller, or the one of its thread.\<close>

definition session_of_request :: "server_request \<Rightarrow> string option \<Rightarrow> codex_session option osync" where
  "session_of_request request session_id =
     (let thread_id = nonempty_str (jget (q_params request) ''threadId'') in
      case session_id of
        Some sid \<Rightarrow>
          bnd (read_store (store_get_session sid)) (\<lambda>session.
          return (case session of None \<Rightarrow> None
            | Some v \<Rightarrow> if thread_id \<noteq> None \<and> s_thread_id v \<noteq> thread_id then None else Some v))
      | None \<Rightarrow>
          (case thread_id of None \<Rightarrow> return None
           | Some t \<Rightarrow> read_store (store_get_session_by_thread t)))"

definition new_interaction ::
  "orchestrator_config \<Rightarrow> server_request \<Rightarrow> interaction_kind \<Rightarrow> codex_session \<Rightarrow> instant \<Rightarrow> string \<Rightarrow>
   pending_interaction" where
  "new_interaction c request kind session t interaction_id =
     \<lparr>i_id = interaction_id, i_session_id = s_id session,
      i_request_id = canonical_request_id (q_id request), i_kind = kind, i_status = I_PENDING,
      i_lark_message_id = None, i_payload_summary = request_summary (q_params request),
      i_requested_at = t, i_resolved_at = None,
      i_expires_at = t + c_timeout_seconds c * 1000000, i_actor_id = None, i_decision = None\<rparr>"

definition waiting_status :: "interaction_kind \<Rightarrow> session_status" where
  "waiting_status kind = (if kind = USER_INPUT then S_WAITING_FOR_INPUT else S_WAITING_FOR_APPROVAL)"

definition register_interaction ::
  "orchestrator_config \<Rightarrow> server_request \<Rightarrow> interaction_kind \<Rightarrow> codex_session \<Rightarrow> string option \<Rightarrow>
   pending_interaction option osync" where
  "register_interaction c request kind session responder =
     bnd (utc_now c) (\<lambda>t. bnd (fresh_id c) (\<lambda>interaction_id.
     let interaction = new_interaction c request kind session t interaction_id in
     bnd (utc_now c) (\<lambda>t2.
     bnd (write_store (store_create_interaction_and_mark_waiting interaction (waiting_status kind) t2)) (\<lambda>created.
     if \<not> created then return None else
     bnd (modify (\<lambda>s. s\<lparr>live := dict_set interaction_id
            \<lparr>l_request = request, l_interaction = interaction, l_responder = responder\<rparr> (live s)\<rparr>)) (\<lambda>_.
     bnd (emit c INTERACTION_REQUESTED (s_id session) (Some interaction_id) (waiting_status kind)
            (i_payload_summary interaction)) (\<lambda>_.
     return (Some interaction)))))))"

definition process_server_request ::
  "orchestrator_config \<Rightarrow> server_request \<Rightarrow> string option \<Rightarrow> string option \<Rightarrow> segment" where
  "process_server_request c request session_id responder =
     (case map_of REQUEST_KINDS (q_method request) of
        None \<Rightarrow> respond_request_error (q_id request) responder (-32601) ''method not found''
      | Some kind \<Rightarrow>
          run_then (bnd (session_of_request request session_id) (\<lambda>session.
                    bnd (gets interactive_sessions) (\<lambda>interactive. return (session, interactive))))
            (\<lambda>(session, interactive).
             case session of
               None \<Rightarrow> respond_request_error (q_id request) responder (-32602) ''invalid or inactive threadId''
             | Some v \<Rightarrow>
                 if \<not> is_active (s_status v)
                 then respond_request_error (q_id request) responder (-32602) ''invalid or inactive threadId''
                 else if s_id v \<in> interactive \<and> as_str (jget (q_params request) ''turnId'') \<noteq> None \<and>
                         as_str (jget (q_params request) ''turnId'') \<noteq> s_turn_id v
                 then respond_request_error (q_id request) responder (-32602)
                        ''request belongs to an inactive turn''
                 else run_then (register_interaction c request kind v responder)
                        (\<lambda>created. case created of
                           None \<Rightarrow> respond_request_error (q_id request) responder (-32600)
                                     ''duplicate or inactive request''
                         | Some interaction \<Rightarrow> finish (return (RInteraction (Some interaction))))))"

subsection \<open>Answers\<close>

text \<open>
  Once the decision is recorded the live entry is removed and the answer is sent; if sending
  fails the session is interrupted and the exception goes on.
\<close>

definition after_answer ::
  "orchestrator_config \<Rightarrow> string \<Rightarrow> live_interaction \<Rightarrow> string \<Rightarrow> string outcome \<Rightarrow> segment" where
  "after_answer c interaction_id l decision reply = finish (
     let session_id = i_session_id (l_interaction l) in
     case reply of
       Inl e \<Rightarrow> bnd (interrupt_session c session_id (safe_summary (exn_str e))) (\<lambda>_. raise e)
     | Inr _ \<Rightarrow>
         bnd (read_store (store_get_session session_id)) (\<lambda>current.
         bnd (if is_active_session current
              then emit c INTERACTION_RESOLVED session_id (Some interaction_id) S_RUNNING decision
              else return ()) (\<lambda>_.
         return (RBool True))))"

definition pop_live :: "string \<Rightarrow> unit osync" where
  "pop_live interaction_id = modify (\<lambda>s. s\<lparr>live := dict_pop interaction_id (live s)\<rparr>)"

definition decide ::
  "orchestrator_config \<Rightarrow> string \<Rightarrow> string \<Rightarrow> string \<Rightarrow> bool osync" where
  "decide c interaction_id decision actor_id =
     bnd (utc_now c) (\<lambda>t.
     bnd (write_store (store_resolve_interaction_and_refresh_session interaction_id decision actor_id t
            I_RESOLVED)) (\<lambda>won.
     if \<not> won then return False else bnd (pop_live interaction_id) (\<lambda>_. return True)))"

definition resolve_interaction ::
  "orchestrator_config \<Rightarrow> string \<Rightarrow> string \<Rightarrow> bool option \<Rightarrow> json_object option \<Rightarrow> segment" where
  "resolve_interaction c interaction_id actor_id allow answers =
     run_then (gets (\<lambda>s. map_of (live s) interaction_id)) (\<lambda>found.
       case found of
         None \<Rightarrow> finish (return (RBool False))
       | Some l \<Rightarrow>
           run_then (from_outcome (resolution (i_kind (l_interaction l)) (q_params (l_request l)) allow answers))
             (\<lambda>(response, decision).
               run_then (decide c interaction_id decision actor_id) (\<lambda>won.
                 if \<not> won then finish (return (RBool False))
                 else await_call (CallAnswer l response) (after_answer c interaction_id l decision))))"

definition find_live_by_request_id :: "rpc_id \<Rightarrow> live_interaction option osync" where
  "find_live_by_request_id request_id = gets (\<lambda>s.
     find (\<lambda>l. i_request_id (l_interaction l) = canonical_request_id request_id) (map snd (live s)))"

definition resolve_terminal_request ::
  "orchestrator_config \<Rightarrow> rpc_id \<Rightarrow> json \<Rightarrow> segment" where
  "resolve_terminal_request c request_id result =
     run_then (find_live_by_request_id request_id) (\<lambda>found.
       case found of
         None \<Rightarrow> finish (return (RBool False))
       | Some l \<Rightarrow>
           run_then (from_outcome (terminal_decision (i_kind (l_interaction l)) (q_params (l_request l)) result))
             (\<lambda>decision.
               run_then (decide c (i_id (l_interaction l)) decision ''terminal'') (\<lambda>won.
                 if \<not> won then finish (return (RBool False))
                 else await_call (CallAnswer l result) (after_answer c (i_id (l_interaction l)) l decision))))"

fun question_id_list :: "json list \<Rightarrow> string list option" where
  "question_id_list [] = Some []"
| "question_id_list (q # qs) =
     (case q of
        JObj d \<Rightarrow> (case nonempty_str (jget d ''id'') of
                    None \<Rightarrow> None
                  | Some i \<Rightarrow> (case question_id_list qs of None \<Rightarrow> None | Some is \<Rightarrow> Some (i # is)))
      | _ \<Rightarrow> None)"

definition get_user_input_question_ids :: "string \<Rightarrow> orchestrator \<Rightarrow> string list" where
  "get_user_input_question_ids interaction_id s =
     (case map_of (live s) interaction_id of
        None \<Rightarrow> []
      | Some l \<Rightarrow>
          if i_kind (l_interaction l) \<noteq> USER_INPUT then []
          else (case as_arr (jget (q_params (l_request l)) ''questions'') of
                  None \<Rightarrow> []
                | Some qs \<Rightarrow> opt_or (question_id_list qs) []))"

subsection \<open>Notifications of the app-server\<close>

definition remember_final_text :: "json_object \<Rightarrow> unit osync" where
  "remember_final_text params =
     (case (jget params ''threadId'', jget params ''turnId'', jget params ''item'') of
        (JStr thread_id, JStr turn_id, JObj item) \<Rightarrow>
          (if jget item ''type'' \<noteq> JStr ''agentMessage'' then return ()
           else case as_str (jget item ''text'') of
                  None \<Rightarrow> return ()
                | Some t \<Rightarrow>
                    modify (\<lambda>s.
                      let is_final = (jget item ''phase'' = JStr ''final_answer'');
                          previous = map_of (final_text s) (thread_id, turn_id)
                      in if previous = None \<or> is_final \<or> \<not> snd (the previous)
                         then s\<lparr>final_text := dict_set (thread_id, turn_id) (safe_summary t, is_final) (final_text s)\<rparr>
                         else s))
      | _ \<Rightarrow> return ())"

definition request_resolved :: "orchestrator_config \<Rightarrow> json_object \<Rightarrow> unit osync" where
  "request_resolved c params =
     (case valid_id (jget params ''requestId'') of
        None \<Rightarrow> return ()
      | Some request_id \<Rightarrow>
          bnd (find_live_by_request_id request_id) (\<lambda>found.
          case found of
            None \<Rightarrow> return ()
          | Some l \<Rightarrow>
              bnd (utc_now c) (\<lambda>t.
              bnd (write_store (store_cancel_interaction_and_refresh_session (i_id (l_interaction l)) t)) (\<lambda>_.
              pop_live (i_id (l_interaction l))))))"

definition turn_started :: "orchestrator_config \<Rightarrow> json_object \<Rightarrow> unit osync" where
  "turn_started c params =
     (case (jget params ''threadId'', jget params ''turn'') of
        (JStr thread_id, JObj turn) \<Rightarrow>
          (case as_str (jget turn ''id'') of
             None \<Rightarrow> return ()
           | Some turn_id \<Rightarrow>
               bnd (read_store (store_get_session_by_thread thread_id)) (\<lambda>session.
               case session of
                 None \<Rightarrow> return ()
               | Some v \<Rightarrow>
                   if \<not> is_active (s_status v) then return () else
                   bnd (utc_now c) (\<lambda>t.
                   bnd (write_store (store_update_session_if_status (s_id v) ACTIVE_SESSION_STATUSES S_RUNNING
                          None (Some (Some turn_id)) None (Some t) t)) (\<lambda>_. return ()))))
      | _ \<Rightarrow> return ())"

text \<open>\<^verbatim>\<open>_final_text.pop((thread_id, turn_id), None)\<close>, and the summary that follows from it.\<close>

definition take_final_text :: "string \<Rightarrow> json \<Rightarrow> string \<Rightarrow> string osync" where
  "take_final_text thread_id turn_id summary =
     (case as_str turn_id of
        None \<Rightarrow> return summary
      | Some t \<Rightarrow> (\<lambda>s. (Inr (case map_of (final_text s) (thread_id, t) of None \<Rightarrow> summary | Some (x, _) \<Rightarrow> x),
                      s\<lparr>final_text := dict_pop (thread_id, t) (final_text s)\<rparr>)))"

definition finish_turn ::
  "orchestrator_config \<Rightarrow> codex_session \<Rightarrow> json \<Rightarrow> session_status \<Rightarrow> string \<Rightarrow> unit osync" where
  "finish_turn c session turn_id status summary =
     (case nonempty_str turn_id of
        None \<Rightarrow> return ()
      | Some t_id \<Rightarrow>
          bnd (utc_now c) (\<lambda>t.
          bnd (write_store (store_finish_interactive_turn (s_id session) t_id summary t)) (\<lambda>affected.
          if affected = None then return () else
          bnd (drop_live_for_session (s_id session)) (\<lambda>_.
          emit c (if status = S_INTERRUPTED then TURN_INTERRUPTED else TURN_COMPLETED)
            (s_id session) None status summary))))"

definition end_session ::
  "orchestrator_config \<Rightarrow> string \<Rightarrow> session_status \<Rightarrow> string \<Rightarrow> bool osync" where
  "end_session c session_id status summary =
     bnd (utc_now c) (\<lambda>t.
     bnd (write_store (store_claim_session_terminal session_id status summary I_CANCELLED t)) (\<lambda>affected.
     if affected = None then return False else
     bnd (drop_live_for_session session_id) (\<lambda>_.
     bnd (emit c (if status = S_INTERRUPTED then SESSION_INTERRUPTED else SESSION_COMPLETED)
       session_id None status summary) (\<lambda>_. return True))))"

definition turn_completed :: "orchestrator_config \<Rightarrow> json_object \<Rightarrow> unit osync" where
  "turn_completed c params =
     (case (jget params ''threadId'', jget params ''turn'') of
        (JStr thread_id, JObj turn) \<Rightarrow>
          bnd (read_store (store_get_session_by_thread thread_id)) (\<lambda>session.
          case session of
            None \<Rightarrow> return ()
          | Some v \<Rightarrow>
              if \<not> is_active (s_status v) then return () else
              bnd (from_outcome (terminal_status (jget turn ''status''))) (\<lambda>status.
              case status of
                None \<Rightarrow> return ()
              | Some st \<Rightarrow>
                  bnd (take_final_text thread_id (jget turn ''id'') (turn_summary params turn)) (\<lambda>summary.
                  bnd (gets interactive_sessions) (\<lambda>interactive.
                  if s_id v \<in> interactive then finish_turn c v (jget turn ''id'') st summary
                  else bnd (end_session c (s_id v) st summary) (\<lambda>_. return ())))))
      | _ \<Rightarrow> return ())"

definition process_notification :: "orchestrator_config \<Rightarrow> server_notification \<Rightarrow> unit osync" where
  "process_notification c n =
     (if n_method n = ''serverRequest/resolved'' then request_resolved c (n_params n)
      else if n_method n = ''item/completed'' then remember_final_text (n_params n)
      else if n_method n = ''turn/started'' then turn_started c (n_params n)
      else if n_method n = ''turn/completed'' then turn_completed c (n_params n)
      else return ())"

subsection \<open>Timeouts\<close>

definition decide_expired ::
  "orchestrator_config \<Rightarrow> instant \<Rightarrow> live_interaction \<Rightarrow> string \<Rightarrow> bool osync" where
  "decide_expired c t l interaction_id =
     (let kind = i_kind (l_interaction l) in
      bnd (from_outcome (if kind = USER_INPUT then Inr ''submitted'' else denial_decision kind)) (\<lambda>decision.
      bnd (write_store (store_resolve_interaction_and_refresh_session interaction_id decision ''timeout'' t
             I_EXPIRED)) (\<lambda>won.
      if \<not> won then return False else bnd (pop_live interaction_id) (\<lambda>_. return True))))"

definition after_denial ::
  "orchestrator_config \<Rightarrow> string \<Rightarrow> live_interaction \<Rightarrow> segment \<Rightarrow> string outcome \<Rightarrow> segment" where
  "after_denial c interaction_id l rest reply =
     (let session_id = i_session_id (l_interaction l) in
      case reply of
        Inl e \<Rightarrow> finish (bnd (interrupt_session c session_id (safe_summary (exn_str e))) (\<lambda>_. raise e))
      | Inr _ \<Rightarrow>
          run_then
            (bnd (read_store (store_get_session session_id)) (\<lambda>session.
             case session of None \<Rightarrow> return ()
             | Some v \<Rightarrow> if is_active (s_status v)
                 then emit c INTERACTION_RESOLVED session_id (Some interaction_id) (s_status v)
                        ''expired and denied''
                 else return ()))
            (\<lambda>_. rest))"

definition after_input_expired ::
  "orchestrator_config \<Rightarrow> string \<Rightarrow> segment \<Rightarrow> string outcome \<Rightarrow> segment" where
  "after_input_expired c session_id rest reply =
     run_then (interrupt_session c session_id ''user input request expired'')
       (\<lambda>_. case reply of Inl e \<Rightarrow> finish (raise e) | Inr _ \<Rightarrow> rest)"

primrec expire_each ::
  "orchestrator_config \<Rightarrow> instant \<Rightarrow> (string \<times> live_interaction) list \<Rightarrow> string list \<Rightarrow> segment" where
  "expire_each c t [] expired = finish (return (RIds expired))"
| "expire_each c t (entry # rest) expired =
     (let interaction_id = fst entry; l = snd entry; interaction = l_interaction l;
          kind = i_kind interaction in
      if t < i_expires_at interaction then expire_each c t rest expired
      else run_then (decide_expired c t l interaction_id) (\<lambda>won.
        if \<not> won then expire_each c t rest expired
        else if kind = USER_INPUT
        then run_then (read_store (store_get_session (i_session_id interaction))) (\<lambda>session.
          let continue = expire_each c t rest (expired @ [interaction_id]) in
          (case session of
             None \<Rightarrow> after_input_expired c (i_session_id interaction) continue (Inr [])
           | Some v \<Rightarrow>
               if opt_or (s_thread_id v) [] \<noteq> [] \<and> opt_or (s_turn_id v) [] \<noteq> []
               then await_call (CallInterruptTurn (the (s_thread_id v)) (the (s_turn_id v)))
                      (after_input_expired c (i_session_id interaction) continue)
               else after_input_expired c (i_session_id interaction) continue (Inr [])))
        else run_then (from_outcome (denial_response kind (q_params (l_request l)))) (\<lambda>response.
          await_call (CallAnswer l response)
            (after_denial c interaction_id l (expire_each c t rest (expired @ [interaction_id]))))))"

definition expire_due_interactions :: "orchestrator_config \<Rightarrow> instant option \<Rightarrow> segment" where
  "expire_due_interactions c now =
     run_then (case now of None \<Rightarrow> utc_now c | Some t \<Rightarrow> return t) (\<lambda>t.
     run_then (gets live) (\<lambda>entries. expire_each c t (sort_key fst entries) []))"

subsection \<open>Cancelling, starting, closing\<close>

definition cancel_session :: "orchestrator_config \<Rightarrow> string \<Rightarrow> segment" where
  "cancel_session c session_id =
     run_then (read_store (store_get_session session_id)) (\<lambda>session.
       case session of
         None \<Rightarrow> finish (return (RBool False))
       | Some v \<Rightarrow>
           if \<not> is_active (s_status v) then finish (return (RBool False))
           else run_then (end_session c session_id S_CANCELLED ''cancelled'') (\<lambda>won.
             if \<not> won then finish (return (RBool False))
             else if opt_or (s_thread_id v) [] \<noteq> [] \<and> opt_or (s_turn_id v) [] \<noteq> []
             then await_call (CallInterruptTurn (the (s_thread_id v)) (the (s_turn_id v))) (\<lambda>reply.
               case reply of
                 Inl e \<Rightarrow> if is_plain_exception e
                   then finish (bnd (modify (\<lambda>s. s\<lparr>terminal_error := Some e\<rparr>)) (\<lambda>_. return (RBool True)))
                   else finish (raise e)
               | Inr _ \<Rightarrow> finish (return (RBool True)))
             else finish (return (RBool True))))"

definition close_interactive_session :: "orchestrator_config \<Rightarrow> string \<Rightarrow> bool osync" where
  "close_interactive_session c session_id =
     bnd (modify (\<lambda>s. s\<lparr>interactive_sessions := interactive_sessions s - {session_id}\<rparr>)) (\<lambda>_.
     bnd (read_store (store_get_session session_id)) (\<lambda>session.
     if \<not> is_active_session session then return False
     else end_session c session_id S_CANCELLED ''interactive session closed''))"

definition finish_start :: "orchestrator_config \<Rightarrow> unit osync" where
  "finish_start c =
     bnd (utc_now c) (\<lambda>t.
     bnd (write_store (store_reconcile_startup (Some t) t)) (\<lambda>reconciliation.
     bnd (for_each (fst reconciliation) (\<lambda>session_id.
            emit c SESSION_INTERRUPTED session_id None S_INTERRUPTED ''interrupted during daemon restart'')) (\<lambda>_.
     modify (\<lambda>s. s\<lparr>started := True\<rparr>))))"

definition start :: "orchestrator_config \<Rightarrow> segment" where
  "start c = await_call (CallLock ''start'') (\<lambda>lock.
     case lock of
       Inl e \<Rightarrow> finish (raise e)
     | Inr _ \<Rightarrow> run_then (gets (\<lambda>s. (started s, closed s))) (\<lambda>(is_started, is_closed).
         if is_started then finish (return RNone)
         else if is_closed then finish (raise (Exn ''RuntimeError'' ''CodexOrchestrator is closed''))
         else await_call CallStart (\<lambda>reply.
           case reply of
             Inl e \<Rightarrow> finish (raise e)
           | Inr _ \<Rightarrow> run_then (finish_start c) (\<lambda>_. finish (return RNone)))))"

definition close_app_server :: segment where
  "close_app_server = await_call CallClose (\<lambda>reply.
     case reply of
       Inl e \<Rightarrow> finish (bnd (modify (\<lambda>s. s\<lparr>terminal_error := Some e, closed := True\<rparr>)) (\<lambda>_. raise e))
     | Inr _ \<Rightarrow> finish (bnd (modify (\<lambda>s. s\<lparr>closed := True\<rparr>)) (\<lambda>_. return RNone)))"

definition close :: segment where
  "close = await_call (CallLock ''close'') (\<lambda>lock.
     case lock of
       Inl e \<Rightarrow> finish (raise e)
     | Inr _ \<Rightarrow> run_then (gets (\<lambda>s. (closed s, started s))) (\<lambda>(is_closed, has_tasks).
         if is_closed then finish (return RNone)
         else run_then (modify (\<lambda>s. s\<lparr>closing := True\<rparr>)) (\<lambda>_.
           if has_tasks
           then await_call CallGather (\<lambda>reply.
             case reply of Inl e \<Rightarrow> finish (raise e) | Inr _ \<Rightarrow> close_app_server)
           else close_app_server)))"

subsection \<open>Consumers\<close>

text \<open>The answer to a failed consumer; closing the app-server is attempted, whatever comes of it.\<close>

definition consumer_failed :: "orchestrator_config \<Rightarrow> exn \<Rightarrow> segment" where
  "consumer_failed c e =
     (if exn_type e = ''CancelledError'' then finish (raise e)
      else run_then
        (bnd (modify (\<lambda>s. s\<lparr>terminal_error := Some e\<rparr>)) (\<lambda>_.
         bnd (interrupt_active c (''Codex orchestrator consumer failed ('' @ exn_type e @ '')'')) (\<lambda>_.
         modify (\<lambda>s. s\<lparr>closing := True\<rparr>))))
        (\<lambda>_. await_call CallClose (\<lambda>_. finish (return RNone))))"

text \<open>One round of the consumer loops, for a request and a notification taken from the queues.\<close>

definition consume_request :: "orchestrator_config \<Rightarrow> server_request \<Rightarrow> segment" where
  "consume_request c request s =
     (case process_server_request c request None None s of (s', t) \<Rightarrow> catch_task (consumer_failed c) t s')"

definition consume_notification :: "orchestrator_config \<Rightarrow> server_notification \<Rightarrow> segment" where
  "consume_notification c n =
     run_try (process_notification c n) (consumer_failed c) (\<lambda>_. finish (return RNone))"

definition monitor_app_server :: "orchestrator_config \<Rightarrow> segment" where
  "monitor_app_server c = await_call CallWaitClosed (\<lambda>reply.
     let watch = (\<lambda>summary. run_then (gets closing) (\<lambda>is_closing.
           if is_closing then finish (return RNone)
           else run_then (interrupt_active c summary) (\<lambda>_. finish (return RNone)))) in
     case reply of
       Inl e \<Rightarrow> if exn_type e = ''CancelledError'' then finish (raise e)
         else watch (safe_summary (exn_str e))
     | Inr _ \<Rightarrow> watch ''Codex app-server closed unexpectedly'')"

subsection \<open>Every entry of the component\<close>

datatype handler =
    HStart
  | HCreateSession string string string "string option" string
  | HCreateInteractive string string "string option" string
  | HBind string string "string option"
  | HRequest server_request "string option" "string option"
  | HResolve string string "bool option" "json_object option"
  | HTerminal rpc_id json
  | HNotification server_notification
  | HExpire "instant option"
  | HCancel string
  | HCloseInteractive string
  | HConsumeRequest server_request
  | HConsumeNotification server_notification
  | HMonitor
  | HClose

primrec start_handler :: "orchestrator_config \<Rightarrow> handler \<Rightarrow> segment" where
  "start_handler c HStart = start c"
| "start_handler c (HCreateSession name cwd prompt model sandbox) = create_session c name cwd prompt model sandbox"
| "start_handler c (HCreateInteractive name cwd model sandbox) =
     finish (bnd (create_interactive_session c name cwd model sandbox) (\<lambda>v. return (RSession v)))"
| "start_handler c (HBind session_id thread_id turn_id) =
     finish (bnd (bind_interactive_thread c session_id thread_id turn_id) (\<lambda>b. return (RBool b)))"
| "start_handler c (HRequest request session_id responder) = process_server_request c request session_id responder"
| "start_handler c (HResolve interaction_id actor_id allow answers) =
     resolve_interaction c interaction_id actor_id allow answers"
| "start_handler c (HTerminal request_id result) = resolve_terminal_request c request_id result"
| "start_handler c (HNotification n) = finish (bnd (process_notification c n) (\<lambda>_. return RNone))"
| "start_handler c (HExpire now) = expire_due_interactions c now"
| "start_handler c (HCancel session_id) = cancel_session c session_id"
| "start_handler c (HCloseInteractive session_id) =
     finish (bnd (close_interactive_session c session_id) (\<lambda>b. return (RBool b)))"
| "start_handler c (HConsumeRequest request) = consume_request c request"
| "start_handler c (HConsumeNotification n) = consume_notification c n"
| "start_handler c HMonitor = monitor_app_server c"
| "start_handler c HClose = close"

text \<open>
  What the rest of the program does to the orchestrator's state between two of its segments: the
  app-server starts or stops, an event is taken from the queue, and the daemon and the control
  router use the store directly (events, outbox, message identifiers, closing it).
\<close>

inductive others :: "codex_store \<Rightarrow> codex_store \<Rightarrow> bool" where
  attach: "store_attach_lark_message_id iid m st = Inr (b, st') \<Longrightarrow> others st st'"
| record_event: "store_record_event_once e r nw st = Inr (b, st') \<Longrightarrow> others st st'"
| enqueue: "store_enqueue_outbox ty p s ag sn i nx cr nw st = Inr (n, st') \<Longrightarrow> others st st'"
| mark_sent: "store_mark_outbox_sent oid t nw st = Inr (b, st') \<Longrightarrow> others st st'"
| record_failure: "store_record_outbox_failure oid e nx st = Inr (b, st') \<Longrightarrow> others st st'"
| record_audit: "store_record_audit ev d s i a c nw st = Inr (n, st') \<Longrightarrow> others st st'"
| close: "others st (store_close st)"

inductive environment :: "orchestrator \<Rightarrow> orchestrator \<Rightarrow> bool" where
  app_server: "environment s (s\<lparr>app_running := b\<rparr>)"
| take_event: "events s = e # es \<Longrightarrow> environment s (s\<lparr>events := es\<rparr>)"
| store: "others (orc_store s) st \<Longrightarrow> environment s (s\<lparr>orc_store := st\<rparr>)"

end
