(* ===== verification/Gateway.thy ===== *)
theory Gateway
  imports Codex_Resolution Orchestrator
begin

text \<open>
  \<^verbatim>\<open>modules/codex/codex_gateway.py\<close>: the gateway between one terminal and the app-server. Every
  message is forwarded; a request of the four approval methods is also shown to the side channel,
  and only one answer to it goes upstream. The state is the object's fields; \<open>g_log\<close> lists, for the
  current connection, the responses sent upstream and the sends that failed, and \<open>g_answers\<close> every
  answer the gateway set out to send, with its payload. A coroutine is a
  task of theory \<open>Async\<close>; its outside calls are the sockets, the callbacks and the response lock
  (whose reply is the acquisition). \<^verbatim>\<open>json.loads\<close> is the parameter \<open>g_loads\<close> of the configuration,
  \<open>None\<close> standing for its exceptions. Waiting for the send lock and sending are one call, as the
  coroutine does nothing in between.
\<close>

subsection \<open>Configuration and state\<close>

record gateway_config =
  g_token :: string
  g_capacity :: nat
  g_loads :: "string \<Rightarrow> json option"
  g_observes_requests :: bool
  g_observes_responses :: bool
  g_observes_notifications :: bool

datatype log_entry = SentResponse rpc_id | FailedResponse rpc_id

record gateway =
  g_upstream :: bool
  g_terminal :: "nat option"
  g_to_terminal :: "string list"
  g_callbacks :: "(nat \<times> server_request) list"
  g_callback_of :: "(rpc_id \<times> nat) list"
  g_next_task :: nat
  g_intercepted :: "rpc_id set"
  g_responded :: "rpc_id set"
  g_requests :: "(rpc_id \<times> (string \<times> json_object)) list"
  g_active_turns :: "(string \<times> string) list"
  g_started :: bool
  g_closing :: bool
  g_log :: "log_entry list"
  g_calls :: "string list"
  g_answers :: "(rpc_id \<times> json_object) list"

datatype gateway_call =
    GLock
  | GConnect
  | GServe
  | GSend string
  | GPut string
  | GTerminalSend nat string
  | GCloseSocket nat int string
  | GCloseUpstream int string
  | GOnServerRequest server_request
  | GOnTerminalResponse rpc_id json_object
  | GOnTerminalRequest rpc_id string json_object
  | GOnUpstreamResponse rpc_id string json_object json_object
  | GOnNotification server_notification
  | GGather

type_synonym 'a gsync = "(gateway, 'a) sync"
type_synonym gtask = "(gateway, gateway_call, unit, bool) task"
type_synonym gsegment = "gateway \<Rightarrow> gateway \<times> gtask"

definition INTERCEPTED_SERVER_METHODS :: "string list" where
  "INTERCEPTED_SERVER_METHODS =
     [''item/commandExecution/requestApproval'', ''item/fileChange/requestApproval'',
      ''item/permissions/requestApproval'', ''item/tool/requestUserInput'']"

definition SESSION_PICKER_UNSUPPORTED_REASON :: string where
  "SESSION_PICKER_UNSUPPORTED_REASON =
     ''session picker unsupported; use resume --last, an explicit session ID, or --no-lark''"

definition new_gateway :: gateway where
  "new_gateway = \<lparr>g_upstream = False, g_terminal = None, g_to_terminal = [], g_callbacks = [],
     g_callback_of = [], g_next_task = 0, g_intercepted = {}, g_responded = {}, g_requests = [],
     g_active_turns = [], g_started = False, g_closing = False, g_log = [], g_calls = [],
     g_answers = []\<rparr>"

definition gateway_init :: "int \<Rightarrow> int \<Rightarrow> int \<Rightarrow> gateway outcome" where
  "gateway_init max_message_size queue_capacity close_timeout =
     (if max_message_size \<le> 0 then value_error ''max_message_size must be positive''
      else if queue_capacity \<le> 0 then value_error ''queue_capacity must be positive''
      else if close_timeout \<le> 0 then value_error ''close_timeout must be positive''
      else Inr new_gateway)"

text \<open>A suspension; what is sent upstream is also kept in \<open>g_calls\<close>, in order.\<close>

definition gawait :: "gateway_call \<Rightarrow> (unit outcome \<Rightarrow> gsegment) \<Rightarrow> gsegment" where
  "gawait q k g = (g\<lparr>g_calls := (case q of GSend m \<Rightarrow> g_calls g @ [m] | _ \<Rightarrow> g_calls g)\<rparr>, Await q k)"

definition gdone :: gsegment where
  "gdone = finish (return True)"

subsection \<open>Reading a message\<close>

definition parse_message :: "gateway_config \<Rightarrow> string \<Rightarrow> json_object option" where
  "parse_message c raw =
     (case g_loads c raw of
        Some (JObj m) \<Rightarrow> if has_key m ''jsonrpc'' \<and> jget m ''jsonrpc'' \<noteq> JStr ''2.0'' then None else Some m
      | _ \<Rightarrow> None)"

definition request_id_of :: "json_object \<Rightarrow> rpc_id option" where
  "request_id_of m = (if as_str (jget m ''method'') = None then None else valid_id (jget m ''id''))"

definition response_id_of :: "json_object \<Rightarrow> rpc_id option" where
  "response_id_of m =
     (if has_key m ''method'' \<or> (\<not> has_key m ''result'' \<and> \<not> has_key m ''error'') then None
      else valid_id (jget m ''id''))"

definition response_payload :: "json_object \<Rightarrow> json_object" where
  "response_payload m =
     (if has_key m ''result'' then [(''result'', jget m ''result'')] else [(''error'', jget m ''error'')])"

definition params_of :: "json_object \<Rightarrow> json_object" where
  "params_of m = (case jget m ''params'' of JObj p \<Rightarrow> p | _ \<Rightarrow> [])"

text \<open>The thread and the turn of a \<^verbatim>\<open>turn/\<close> notification.\<close>

definition turn_of :: "json_object \<Rightarrow> (string \<times> string) option" where
  "turn_of m =
     (case jget m ''params'' of
        JObj p \<Rightarrow> (case (jget p ''threadId'', jget p ''turn'') of
            (JStr t, JObj turn) \<Rightarrow> (case as_str (jget turn ''id'') of None \<Rightarrow> None | Some i \<Rightarrow> Some (t, i))
          | _ \<Rightarrow> None)
      | _ \<Rightarrow> None)"

subsection \<open>Sending\<close>

definition send_upstream :: "string \<Rightarrow> (unit outcome \<Rightarrow> gsegment) \<Rightarrow> gsegment" where
  "send_upstream msg k =
     run_try (bnd (gets g_upstream) (\<lambda>up. if up then return () else raise (Exn ''RuntimeError'' ''upstream is not connected'')))
       (\<lambda>e. k (Inl e)) (\<lambda>_. gawait (GSend msg) k)"

definition response_text :: "rpc_id \<Rightarrow> json_object \<Rightarrow> string" where
  "response_text request_id payload =
     dumps '','' '':'' (JObj ([(''jsonrpc'', JStr ''2.0''), (''id'', id_json request_id)] @ payload))"

definition log_it :: "log_entry \<Rightarrow> unit gsync" where
  "log_it x = modify (\<lambda>g. g\<lparr>g_log := g_log g @ [x]\<rparr>)"

definition mark_responded :: "rpc_id \<Rightarrow> bool gsync" where
  "mark_responded request_id =
     bnd (gets (\<lambda>g. request_id \<notin> g_intercepted g \<or> request_id \<in> g_responded g)) (\<lambda>refused.
     if refused then return False else
     bnd (modify (\<lambda>g. g\<lparr>g_responded := insert request_id (g_responded g)\<rparr>)) (\<lambda>_.
     bnd (log_it (SentResponse request_id)) (\<lambda>_. return True)))"

definition unmark_responded :: "rpc_id \<Rightarrow> unit gsync" where
  "unmark_responded request_id =
     bnd (modify (\<lambda>g. g\<lparr>g_responded := g_responded g - {request_id}\<rparr>)) (\<lambda>_. log_it (FailedResponse request_id))"

definition respond_with_payload :: "rpc_id \<Rightarrow> json_object \<Rightarrow> gsegment" where
  "respond_with_payload request_id payload = gawait GLock (\<lambda>lock.
     case lock of
       Inl e \<Rightarrow> finish (raise e)
     | Inr _ \<Rightarrow>
         run_then (mark_responded request_id) (\<lambda>won.
           if \<not> won then finish (return False)
           else run_then (modify (\<lambda>g. g\<lparr>g_answers := g_answers g @ [(request_id, payload)]\<rparr>)) (\<lambda>_.
             send_upstream (response_text request_id payload) (\<lambda>reply.
               case reply of
                 Inl e \<Rightarrow> run_then (unmark_responded request_id) (\<lambda>_. finish (raise e))
               | Inr _ \<Rightarrow> finish (return True)))))"

definition respond_upstream :: "rpc_id \<Rightarrow> json \<Rightarrow> json option \<Rightarrow> gsegment" where
  "respond_upstream request_id result err =
     respond_with_payload request_id
       (case err of Some e \<Rightarrow> [(''error'', e)] | None \<Rightarrow> [(''result'', result)])"

text \<open>\<^verbatim>\<open>_observe\<close>: an observer that raises an \<^verbatim>\<open>Exception\<close> is ignored.\<close>

definition observe :: "gateway_call \<Rightarrow> gsegment \<Rightarrow> gsegment" where
  "observe q rest = gawait q (\<lambda>reply.
     case reply of
       Inl e \<Rightarrow> if is_plain_exception e then rest else finish (raise e)
     | Inr _ \<Rightarrow> rest)"

subsection \<open>Messages of the terminal\<close>

definition answer_terminal :: "json_object \<Rightarrow> string \<Rightarrow> gsegment" where
  "answer_terminal m raw =
     run_then (gets g_intercepted) (\<lambda>intercepted.
       case response_id_of m of
         None \<Rightarrow> send_upstream raw (\<lambda>reply. case reply of Inl e \<Rightarrow> finish (raise e) | Inr _ \<Rightarrow> gdone)
       | Some i \<Rightarrow>
           if i \<notin> intercepted
           then send_upstream raw (\<lambda>reply. case reply of Inl e \<Rightarrow> finish (raise e) | Inr _ \<Rightarrow> gdone)
           else gawait (GOnTerminalResponse i (response_payload m)) (\<lambda>reply.
             case reply of
               Inl e \<Rightarrow> if is_plain_exception e then gdone else finish (raise e)
             | Inr _ \<Rightarrow> gdone))"

definition handle_terminal_message :: "gateway_config \<Rightarrow> json_object \<Rightarrow> string \<Rightarrow> gsegment" where
  "handle_terminal_message c m raw =
     (case request_id_of m of
        None \<Rightarrow> answer_terminal m raw
      | Some i \<Rightarrow>
          (let method = opt_or (as_str (jget m ''method'')) [] in
           run_then (modify (\<lambda>g. g\<lparr>g_requests := dict_set i (method, params_of m) (g_requests g)\<rparr>)) (\<lambda>_.
             if g_observes_requests c
             then observe (GOnTerminalRequest i method (params_of m)) (answer_terminal m raw)
             else answer_terminal m raw)))"

subsection \<open>Messages of the app-server\<close>

definition note_intercepted :: "json_object \<Rightarrow> bool gsync" where
  "note_intercepted m =
     (case (request_id_of m, as_str (jget m ''method'')) of
        (Some i, Some method) \<Rightarrow>
          if method \<in> set INTERCEPTED_SERVER_METHODS
          then bnd (modify (\<lambda>g. g\<lparr>g_intercepted := insert i (g_intercepted g)\<rparr>)) (\<lambda>_. return True)
          else return False
      | _ \<Rightarrow> return False)"

text \<open>
  A request the app-server reports as resolved is closed for every other answer, and its
  callback is cancelled: it never starts, or finds \<^verbatim>\<open>CancelledError\<close> at its suspension.
\<close>

definition note_resolved :: "json_object \<Rightarrow> unit gsync" where
  "note_resolved m =
     (if jget m ''method'' \<noteq> JStr ''serverRequest/resolved'' then return ()
      else case jget m ''params'' of
             JObj p \<Rightarrow>
               (case valid_id (jget p ''requestId'') of
                  None \<Rightarrow> return ()
                | Some i \<Rightarrow> modify (\<lambda>g.
                    g\<lparr>g_responded := insert i (g_responded g),
                      g_callback_of := dict_pop i (g_callback_of g),
                      g_callbacks := (case map_of (g_callback_of g) i of
                          None \<Rightarrow> g_callbacks g | Some n \<Rightarrow> dict_pop n (g_callbacks g))\<rparr>))
           | _ \<Rightarrow> return ())"

definition note_turn_started :: "json_object \<Rightarrow> unit gsync" where
  "note_turn_started m =
     (if request_id_of m = None \<and> jget m ''method'' = JStr ''turn/started''
      then (case turn_of m of
              None \<Rightarrow> return ()
            | Some (t, i) \<Rightarrow> modify (\<lambda>g. g\<lparr>g_active_turns := dict_set t i (g_active_turns g)\<rparr>))
      else return ())"

definition note_turn_completed :: "json_object \<Rightarrow> unit gsync" where
  "note_turn_completed m =
     (if request_id_of m = None \<and> jget m ''method'' = JStr ''turn/completed''
      then (case turn_of m of
              None \<Rightarrow> return ()
            | Some (t, i) \<Rightarrow> modify (\<lambda>g. if map_of (g_active_turns g) t = Some i
                then g\<lparr>g_active_turns := dict_pop t (g_active_turns g)\<rparr> else g))
      else return ())"

text \<open>The request shown to the side channel carries the active turn of its thread, if it has none.\<close>

definition with_turn :: "json_object \<Rightarrow> (string \<times> string) list \<Rightarrow> json_object" where
  "with_turn params turns =
     (case as_str (jget params ''threadId'') of
        None \<Rightarrow> params
      | Some t \<Rightarrow>
          if has_key params ''turnId'' then params
          else (case map_of turns t of None \<Rightarrow> params
                | Some i \<Rightarrow> dict_set ''turnId'' (JStr i) params))"

definition create_callback :: "json_object \<Rightarrow> unit gsync" where
  "create_callback m =
     (case request_id_of m of
        None \<Rightarrow> return ()
      | Some i \<Rightarrow> modify (\<lambda>g.
          let request = \<lparr>q_id = i, q_method = opt_or (as_str (jget m ''method'')) [],
                q_params = with_turn (params_of m) (g_active_turns g)\<rparr>
          in g\<lparr>g_callbacks := g_callbacks g @ [(g_next_task g, request)],
               g_callback_of := dict_set i (g_next_task g) (g_callback_of g),
               g_next_task := Suc (g_next_task g)\<rparr>))"

definition put_terminal :: "gateway_config \<Rightarrow> string \<Rightarrow> gsegment \<Rightarrow> gsegment" where
  "put_terminal c raw rest =
     run_then (gets g_to_terminal) (\<lambda>q.
       case put_nowait (g_capacity c) q raw of
         Some q' \<Rightarrow> run_then (modify (\<lambda>g. g\<lparr>g_to_terminal := q'\<rparr>)) (\<lambda>_. rest)
       | None \<Rightarrow> gawait (GPut raw) (\<lambda>reply.
           case reply of
             Inl e \<Rightarrow> finish (raise e)
           | Inr _ \<Rightarrow> run_then (modify (\<lambda>g. g\<lparr>g_to_terminal := g_to_terminal g @ [raw]\<rparr>)) (\<lambda>_. rest)))"

definition forward_to_terminal :: "gateway_config \<Rightarrow> json_object \<Rightarrow> string \<Rightarrow> bool \<Rightarrow> gsegment" where
  "forward_to_terminal c m raw intercepted =
     put_terminal c raw
       (run_then (bnd (if intercepted then create_callback m else return ()) (\<lambda>_. note_turn_completed m))
          (\<lambda>_. gdone))"

definition observe_response ::
  "gateway_config \<Rightarrow> rpc_id \<Rightarrow> json_object \<Rightarrow> (string \<times> json_object) option \<Rightarrow> gsegment \<Rightarrow> gsegment" where
  "observe_response c i m request rest =
     (case request of
        None \<Rightarrow> rest
      | Some (method, params) \<Rightarrow>
          if g_observes_responses c
          then observe (GOnUpstreamResponse i method params (response_payload m)) rest
          else rest)"

definition handle_upstream_message :: "gateway_config \<Rightarrow> json_object \<Rightarrow> string \<Rightarrow> gsegment" where
  "handle_upstream_message c m raw =
     run_then (bnd (note_intercepted m) (\<lambda>intercepted.
               bnd (note_resolved m) (\<lambda>_. bnd (note_turn_started m) (\<lambda>_. return intercepted))))
       (\<lambda>intercepted.
         let rest = forward_to_terminal c m raw intercepted in
         case response_id_of m of
           Some i \<Rightarrow>
             run_then (\<lambda>g. (Inr (map_of (g_requests g) i), g\<lparr>g_requests := dict_pop i (g_requests g)\<rparr>))
               (\<lambda>request. observe_response c i m request rest)
         | None \<Rightarrow>
             (case (request_id_of m, as_str (jget m ''method'')) of
                (None, Some method) \<Rightarrow>
                  if g_observes_notifications c
                  then observe (GOnNotification \<lparr>n_method = method, n_params = params_of m\<rparr>) rest
                  else rest
              | _ \<Rightarrow> rest))"

text \<open>A created callback starts, unless it was cancelled before.\<close>

definition callback_finished :: "rpc_id \<Rightarrow> nat \<Rightarrow> unit gsync" where
  "callback_finished i n = modify (\<lambda>g.
     if map_of (g_callback_of g) i = Some n then g\<lparr>g_callback_of := dict_pop i (g_callback_of g)\<rparr> else g)"

definition run_server_request_callback :: "nat \<Rightarrow> gsegment" where
  "run_server_request_callback n =
     run_then (\<lambda>g. (Inr (map_of (g_callbacks g) n, g_responded g),
                    g\<lparr>g_callbacks := dict_pop n (g_callbacks g)\<rparr>))
       (\<lambda>(found, responded).
         case found of
           None \<Rightarrow> gdone
         | Some request \<Rightarrow>
             let over = (\<lambda>r. run_then (callback_finished (q_id request) n) (\<lambda>_. r)) in
             if q_id request \<in> responded then over gdone
             else gawait (GOnServerRequest request) (\<lambda>reply.
               case reply of
                 Inl e \<Rightarrow> if is_plain_exception e then over gdone else over (finish (raise e))
               | Inr _ \<Rightarrow> over gdone))"

subsection \<open>Connections\<close>

text \<open>\<^verbatim>\<open>_authenticate\<close>, before a connection is taken; \<^verbatim>\<open>compare_digest\<close> refuses a text that is not ASCII.\<close>

definition authenticate_terminal :: "gateway_config \<Rightarrow> string option \<Rightarrow> bool outcome" where
  "authenticate_terminal c header =
     (let supplied = opt_or header []; expected = ''Bearer '' @ g_token c in
      if \<exists>x\<in>set (supplied @ expected). 128 \<le> ord x
      then type_error ''comparing strings with non-ASCII characters is not supported''
      else Inr (supplied = expected))"

lemma only_the_token_connects:
  "authenticate_terminal c header = Inr True \<Longrightarrow> header = Some (''Bearer '' @ g_token c)"
  by (cases header) (auto simp: authenticate_terminal_def Let_def split: if_splits)

datatype frame = TextFrame string | BinaryFrame

definition wait_call :: "gateway_call \<Rightarrow> gsegment \<Rightarrow> gsegment" where
  "wait_call q rest = gawait q (\<lambda>reply. case reply of Inl e \<Rightarrow> finish (raise e) | Inr _ \<Rightarrow> rest)"

text \<open>The \<^verbatim>\<open>finally\<close> of \<^verbatim>\<open>_handle_terminal\<close>: the sender stops and the place is free again.\<close>

definition leave_terminal :: "nat \<Rightarrow> gsegment \<Rightarrow> gsegment" where
  "leave_terminal ws rest = wait_call GGather
     (run_then (modify (\<lambda>g. if g_terminal g = Some ws then g\<lparr>g_terminal := None\<rparr> else g)) (\<lambda>_. rest))"

definition connect_terminal :: "nat \<Rightarrow> gsegment" where
  "connect_terminal ws =
     run_then (gets g_terminal) (\<lambda>terminal.
       if terminal \<noteq> None
       then wait_call (GCloseSocket ws 1008 SESSION_PICKER_UNSUPPORTED_REASON) gdone
       else run_then (modify (\<lambda>g. g\<lparr>g_terminal := Some ws\<rparr>)) (\<lambda>_. gdone))"

definition stop_terminal :: "nat \<Rightarrow> exn \<Rightarrow> gsegment" where
  "stop_terminal ws e = leave_terminal ws
     (if exn_type e = ''ConnectionClosed'' then gdone else finish (raise e))"

definition terminal_frame_body :: "gateway_config \<Rightarrow> nat \<Rightarrow> frame \<Rightarrow> gsegment" where
  "terminal_frame_body c ws f =
     (case f of
        BinaryFrame \<Rightarrow> wait_call (GCloseSocket ws 1003 ''text JSON messages required'') (leave_terminal ws gdone)
      | TextFrame raw \<Rightarrow>
          (case parse_message c raw of
             None \<Rightarrow> wait_call (GCloseSocket ws 1007 ''malformed JSON-RPC message'') (leave_terminal ws gdone)
           | Some m \<Rightarrow> handle_terminal_message c m raw))"

definition terminal_frame :: "gateway_config \<Rightarrow> nat \<Rightarrow> frame \<Rightarrow> gsegment" where
  "terminal_frame c ws f g =
     (case terminal_frame_body c ws f g of (g', t) \<Rightarrow> catch_task (stop_terminal ws) t g')"

text \<open>One round of \<^verbatim>\<open>_send_to_terminal\<close>.\<close>

definition deliver_next :: "nat \<Rightarrow> gsegment" where
  "deliver_next ws =
     run_then (gets g_to_terminal) (\<lambda>q.
       case q of
         [] \<Rightarrow> gdone
       | raw # rest \<Rightarrow> run_then (modify (\<lambda>g. g\<lparr>g_to_terminal := rest\<rparr>)) (\<lambda>_.
           gawait (GTerminalSend ws raw) (\<lambda>reply.
             case reply of
               Inl e \<Rightarrow> if exn_type e = ''ConnectionClosed'' then gdone else finish (raise e)
             | Inr _ \<Rightarrow> gdone)))"

definition close_terminal :: "int \<Rightarrow> string \<Rightarrow> gsegment" where
  "close_terminal code reason =
     run_then (gets g_terminal) (\<lambda>terminal.
       case terminal of None \<Rightarrow> gdone | Some ws \<Rightarrow> wait_call (GCloseSocket ws code reason) gdone)"

definition upstream_frame_body :: "gateway_config \<Rightarrow> frame \<Rightarrow> gsegment" where
  "upstream_frame_body c f =
     (case f of
        BinaryFrame \<Rightarrow> wait_call (GCloseUpstream 1003 ''text JSON messages required'')
          (close_terminal 1003 ''text JSON messages required'')
      | TextFrame raw \<Rightarrow>
          (case parse_message c raw of
             None \<Rightarrow> wait_call (GCloseUpstream 1007 ''malformed JSON-RPC message'')
               (close_terminal 1007 ''malformed upstream JSON-RPC message'')
           | Some m \<Rightarrow> handle_upstream_message c m raw))"

definition upstream_closed :: "exn \<Rightarrow> gsegment" where
  "upstream_closed e =
     (if exn_type e = ''ConnectionClosed'' then close_terminal 1011 ''upstream connection closed''
      else finish (raise e))"

definition upstream_frame :: "gateway_config \<Rightarrow> frame \<Rightarrow> gsegment" where
  "upstream_frame c f g =
     (case upstream_frame_body c f g of (g', t) \<Rightarrow> catch_task upstream_closed t g')"

subsection \<open>Start and close\<close>

definition finish_close :: "gsegment \<Rightarrow> gsegment" where
  "finish_close rest =
     run_then (modify (\<lambda>g. g\<lparr>g_terminal := None, g_intercepted := {}, g_responded := {}, g_requests := [],
         g_started := False, g_log := []\<rparr>)) (\<lambda>_. rest)"

definition close_gateway :: "gsegment \<Rightarrow> gsegment" where
  "close_gateway rest =
     run_then (gets (\<lambda>g. (g_closing g, g_upstream g))) (\<lambda>(is_closing, connected).
       if is_closing then rest
       else run_then (modify (\<lambda>g. g\<lparr>g_closing := True, g_upstream := False, g_callbacks := [],
              g_callback_of := [], g_active_turns := []\<rparr>)) (\<lambda>_.
         wait_call GGather
           (if connected then wait_call (GCloseUpstream 1000 '''') (wait_call GGather (finish_close rest))
            else wait_call GGather (finish_close rest))))"

definition start_gateway :: "gateway_config \<Rightarrow> gsegment" where
  "start_gateway c =
     run_then (gets g_started) (\<lambda>is_started.
       if is_started then finish (raise (Exn ''RuntimeError'' ''gateway is already started''))
       else run_then (modify (\<lambda>g. g\<lparr>g_started := True, g_closing := False\<rparr>)) (\<lambda>_.
         let failed = (\<lambda>e. close_gateway (finish (raise e))) in
         gawait GConnect (\<lambda>reply.
           case reply of
             Inl e \<Rightarrow> failed e
           | Inr _ \<Rightarrow> run_then (modify (\<lambda>g. g\<lparr>g_upstream := True\<rparr>)) (\<lambda>_.
               gawait GServe (\<lambda>reply2. case reply2 of Inl e \<Rightarrow> failed e | Inr _ \<Rightarrow> gdone)))))"

subsection \<open>Every entry of the component\<close>

datatype gateway_handler =
    GHStart
  | GHClose
  | GHConnect nat
  | GHDisconnect nat
  | GHTerminal nat frame
  | GHDeliver nat
  | GHUpstream frame
  | GHUpstreamClosed
  | GHCallback nat
  | GHRespond rpc_id json "json option"

primrec gateway_entry :: "gateway_config \<Rightarrow> gateway_handler \<Rightarrow> gsegment" where
  "gateway_entry c GHStart = start_gateway c"
| "gateway_entry c GHClose = close_gateway gdone"
| "gateway_entry c (GHConnect ws) = connect_terminal ws"
| "gateway_entry c (GHDisconnect ws) = leave_terminal ws gdone"
| "gateway_entry c (GHTerminal ws f) = terminal_frame c ws f"
| "gateway_entry c (GHDeliver ws) = deliver_next ws"
| "gateway_entry c (GHUpstream f) = upstream_frame c f"
| "gateway_entry c GHUpstreamClosed = close_terminal 1011 ''upstream connection closed''"
| "gateway_entry c (GHCallback n) = run_server_request_callback n"
| "gateway_entry c (GHRespond i result err) = respond_upstream i result err"

text \<open>\<^verbatim>\<open>respond_upstream\<close> is what the gateway hands to its callbacks; the other entries are called from outside.\<close>

definition answers_itself :: "gateway_handler \<Rightarrow> bool" where
  "answers_itself h \<longleftrightarrow> (case h of GHRespond _ _ _ \<Rightarrow> True | _ \<Rightarrow> False)"

section \<open>One answer to each intercepted request\<close>

text \<open>
  In the log of a connection, the responses sent for an identifier exceed the failed ones by at
  most one, and by none while the identifier is not marked as responded.
\<close>

definition sends :: "rpc_id \<Rightarrow> log_entry list \<Rightarrow> int" where
  "sends i log = int (count_list log (SentResponse i)) - int (count_list log (FailedResponse i))"

definition gateway_inv :: "gateway \<Rightarrow> bool" where
  "gateway_inv g \<longleftrightarrow> (\<forall>i. sends i (g_log g) \<le> (if i \<in> g_responded g then 1 else 0))"

abbreviation gkeeps :: "'a gsync \<Rightarrow> bool" where
  "gkeeps \<equiv> keeps gateway_inv"

abbreviation gok :: "gsegment \<Rightarrow> bool" where
  "gok \<equiv> segment_ok gateway_inv"

lemma sends_append [simp]:
  "sends i (log @ [SentResponse j]) = sends i log + (if i = j then 1 else 0)"
  "sends i (log @ [FailedResponse j]) = sends i log - (if i = j then 1 else 0)"
  "sends i [] = 0"
  by (simp_all add: sends_def)

lemma gateway_frame:
  "gateway_inv g \<Longrightarrow> g_log g' = g_log g \<Longrightarrow> g_responded g \<subseteq> g_responded g' \<Longrightarrow> gateway_inv g'"
  unfolding gateway_inv_def by (smt (verit, best) subsetD)

lemma gkeeps_frame:
  "(\<And>g. g_log (f g) = g_log g) \<Longrightarrow> (\<And>g. g_responded g \<subseteq> g_responded (f g)) \<Longrightarrow> gkeeps (modify f)"
  by (rule keeps_modify) (rule gateway_frame)

lemma gkeeps_mark [keeps_rules]: "gkeeps (mark_responded i)"
  by (rule keepsI)
    (auto simp: mark_responded_def log_it_def bnd_def gateway_inv_def sync_defs split: if_splits)

lemma gkeeps_unmark [keeps_rules]: "gkeeps (unmark_responded i)"
  by (rule keepsI)
    (auto simp: unmark_responded_def log_it_def bnd_def gateway_inv_def sync_defs split: if_splits)

lemma gkeeps_answer [keeps_rules]: "gkeeps (modify (\<lambda>g. g\<lparr>g_answers := g_answers g @ [x]\<rparr>))"
  by (rule gkeeps_frame) simp_all

lemma gok_await [keeps_rules]: "(\<And>r. gok (k r)) \<Longrightarrow> gok (gawait q k)"
  by (auto simp: segment_ok_def gawait_def intro: gateway_frame)

lemma gok_done [keeps_rules]: "gok gdone"
  unfolding gdone_def by (intro keeps_rules)

lemma gok_send [keeps_rules]: "(\<And>r. gok (k r)) \<Longrightarrow> gok (send_upstream m k)"
  unfolding send_upstream_def by (intro keeps_rules)

lemma gok_respond [keeps_rules]: "gok (respond_with_payload i p)"
  unfolding respond_with_payload_def by (intro keeps_rules)

lemma gok_respond_upstream [keeps_rules]: "gok (respond_upstream i r e)"
  unfolding respond_upstream_def by (intro keeps_rules)

lemma gok_observe [keeps_rules]: "gok rest \<Longrightarrow> gok (observe q rest)"
  unfolding observe_def by (intro keeps_rules)

lemma gok_wait [keeps_rules]: "gok rest \<Longrightarrow> gok (wait_call q rest)"
  unfolding wait_call_def by (intro keeps_rules)

lemma gok_modify [keeps_rules]:
  "(\<And>g. g_log (f g) = g_log g) \<Longrightarrow> (\<And>g. g_responded g \<subseteq> g_responded (f g)) \<Longrightarrow> gok rest \<Longrightarrow>
   gok (run_then (modify f) (\<lambda>_. rest))"
  by (rule segment_run_then [OF gkeeps_frame])

lemma gok_answer_terminal [keeps_rules]: "gok (answer_terminal m raw)"
  unfolding answer_terminal_def by (intro keeps_rules)

lemma gok_terminal_message [keeps_rules]: "gok (handle_terminal_message c m raw)"
  unfolding handle_terminal_message_def Let_def by (intro keeps_rules) simp_all

lemma gkeeps_notes [keeps_rules]:
  "gkeeps (note_intercepted m)" "gkeeps (note_resolved m)" "gkeeps (note_turn_started m)"
  "gkeeps (note_turn_completed m)" "gkeeps (create_callback m)" "gkeeps (callback_finished i n)"
  by (rule keepsI, erule gateway_frame;
      auto simp: note_intercepted_def note_resolved_def note_turn_started_def note_turn_completed_def
        create_callback_def callback_finished_def bnd_def sync_defs Let_def
        split: option.splits json.splits prod.splits)+

lemma gok_put [keeps_rules]: "gok rest \<Longrightarrow> gok (put_terminal c raw rest)"
  unfolding put_terminal_def by (intro keeps_rules) simp_all

lemma gok_forward [keeps_rules]: "gok (forward_to_terminal c m raw b)"
  unfolding forward_to_terminal_def by (intro keeps_rules)

lemma gok_observe_response [keeps_rules]: "gok rest \<Longrightarrow> gok (observe_response c i m q rest)"
  unfolding observe_response_def by (intro keeps_rules)

lemma gkeeps_take [keeps_rules]:
  "gkeeps (\<lambda>g. (Inr (map_of (g_requests g) i), g\<lparr>g_requests := dict_pop i (g_requests g)\<rparr>))"
  "gkeeps (\<lambda>g. (Inr (map_of (g_callbacks g) n, g_responded g), g\<lparr>g_callbacks := dict_pop n (g_callbacks g)\<rparr>))"
  by (rule keepsI, simp, erule gateway_frame; simp)+

lemma segment_case_pair [keeps_rules]:
  "(\<And>x. segment_ok P (f x)) \<Longrightarrow> segment_ok P g \<Longrightarrow>
   segment_ok P (case (a, b) of (None, Some x) \<Rightarrow> f x | _ \<Rightarrow> g)"
  by (cases a; cases b) simp_all

lemma gok_upstream_message [keeps_rules]: "gok (handle_upstream_message c m raw)"
  unfolding handle_upstream_message_def Let_def by (intro keeps_rules)

lemma gok_callback [keeps_rules]: "gok (run_server_request_callback n)"
  unfolding run_server_request_callback_def Let_def by (intro keeps_rules)

lemma gok_leave [keeps_rules]: "gok rest \<Longrightarrow> gok (leave_terminal ws rest)"
  unfolding leave_terminal_def by (intro keeps_rules) simp_all

lemma gok_connect [keeps_rules]: "gok (connect_terminal ws)"
  unfolding connect_terminal_def by (intro keeps_rules) simp_all

lemma gok_stop [keeps_rules]: "gok (stop_terminal ws e)"
  unfolding stop_terminal_def by (intro keeps_rules)

lemma gok_close_terminal [keeps_rules]: "gok (close_terminal n reason)"
  unfolding close_terminal_def by (intro keeps_rules)

lemma segment_case_frame [keeps_rules]:
  "segment_ok P a \<Longrightarrow> (\<And>x. segment_ok P (f x)) \<Longrightarrow>
   segment_ok P (case v of BinaryFrame \<Rightarrow> a | TextFrame x \<Rightarrow> f x)"
  by (cases v) simp_all

lemma gok_bodies [keeps_rules]: "gok (terminal_frame_body c ws f)" "gok (upstream_frame_body c f)"
  unfolding terminal_frame_body_def upstream_frame_body_def by (intro keeps_rules)+

lemma gok_caught:
  assumes "gok f" "\<And>e. gok (h e)"
  shows "gok (\<lambda>g. case f g of (g', t) \<Rightarrow> catch_task h t g')"
  unfolding segment_ok_def
proof (intro allI impI)
  fix g assume "gateway_inv g"
  then have "gateway_inv (fst (f g))" "safe gateway_inv (snd (f g))"
    using assms(1) by (simp_all add: segment_ok_def)
  then show "gateway_inv (fst (case f g of (g', t) \<Rightarrow> catch_task h t g')) \<and>
      safe gateway_inv (snd (case f g of (g', t) \<Rightarrow> catch_task h t g'))"
    using segment_catch_task [of gateway_inv h "snd (f g)"] assms(2)
    by (cases "f g") (simp add: segment_ok_def)
qed

lemma gok_upstream_closed [keeps_rules]: "gok (upstream_closed e)"
  unfolding upstream_closed_def by (intro keeps_rules)

lemma gok_frames [keeps_rules]: "gok (terminal_frame c ws f)" "gok (upstream_frame c f)"
  unfolding terminal_frame_def [abs_def] upstream_frame_def [abs_def]
  by (rule gok_caught; intro keeps_rules)+

lemma gok_deliver [keeps_rules]: "gok (deliver_next ws)"
  unfolding deliver_next_def by (intro keeps_rules) simp_all

lemma gok_finish_close [keeps_rules]: "gok rest \<Longrightarrow> gok (finish_close rest)"
  unfolding finish_close_def
  by (rule segment_run_then, rule keeps_modify) (simp_all add: gateway_inv_def)

lemma gok_close [keeps_rules]: "gok rest \<Longrightarrow> gok (close_gateway rest)"
  unfolding close_gateway_def by (intro keeps_rules) simp_all

lemma gok_start [keeps_rules]: "gok (start_gateway c)"
  unfolding start_gateway_def Let_def by (intro keeps_rules) simp_all

lemma gok_entry: "gok (gateway_entry c h)"
  by (cases h; simp only: gateway_entry.simps; intro keeps_rules)

interpretation gate: handlers gateway_inv "gateway_entry c" "\<lambda>_ _. False" for c
  by unfold_locales (auto intro: gok_entry)

section \<open>The properties\<close>

definition gateway_run :: "gateway_config \<Rightarrow> gateway \<Rightarrow> bool" where
  "gateway_run c g \<longleftrightarrow> (\<exists>ts. (loop (gateway_entry c) (\<lambda>_ _. False))\<^sup>*\<^sup>* (new_gateway, []) (g, ts))"

lemma gateway_script: "gateway_run c (perform (gateway_entry c) script new_gateway)"
  unfolding gateway_run_def by (rule perform_loop)

lemma new_gateway_inv: "gateway_inv new_gateway"
  by (simp add: gateway_inv_def new_gateway_def)

lemma gateway_run_inv: "gateway_run c g \<Longrightarrow> gateway_inv g"
  unfolding gateway_run_def using gate.reachable_inv new_gateway_inv by blast

definition ex_gateway :: gateway_config where
  "ex_gateway = \<lparr>g_token = ''t'', g_capacity = 2, g_loads = (\<lambda>raw. if raw = ''ask''
       then Some (JObj [(''id'', JInt 7), (''method'', JStr ''item/tool/requestUserInput'')]) else None),
     g_observes_requests = False, g_observes_responses = True, g_observes_notifications = True\<rparr>"

definition ex_gateway_script :: "(gateway_handler \<times> unit outcome list) list" where
  "ex_gateway_script =
     [(GHStart, [Inr (), Inr ()]), (GHUpstream (TextFrame ''ask''), []),
      (GHRespond (IdInt 7) JNull None, [Inr (), Inl (Exn ''ConnectionClosed'' '''')]),
      (GHRespond (IdInt 7) JNull None, [Inr (), Inr ()]),
      (GHRespond (IdInt 7) JNull None, [Inr (), Inr ()])]"

lemma gateway_inv_sends:
  assumes "gateway_inv g"
  shows "count_list (g_log g) (SentResponse i) \<le> count_list (g_log g) (FailedResponse i) + 1"
proof -
  have "sends i (g_log g) \<le> 1"
    using assms unfolding gateway_inv_def by (smt (verit))
  then show ?thesis by (simp add: sends_def)
qed

text \<open>
  Whatever answers race for an intercepted request, on one connection at most one response to it goes
  upstream without failing: the responses sent are at most the failed ones and one more.
\<close>

theorem one_response_upstream:
  assumes "gateway_run c g"
  shows "count_list (g_log g) (SentResponse i) \<le> count_list (g_log g) (FailedResponse i) + 1"
  by (rule gateway_inv_sends [OF gateway_run_inv [OF assms]])

theorem one_response_upstream_ex:
  "g_log (perform (gateway_entry ex_gateway) ex_gateway_script new_gateway) =
     [SentResponse (IdInt 7), FailedResponse (IdInt 7), SentResponse (IdInt 7)] \<and>
   count_list (g_log (perform (gateway_entry ex_gateway) ex_gateway_script new_gateway)) (SentResponse (IdInt 7)) \<le>
   count_list (g_log (perform (gateway_entry ex_gateway) ex_gateway_script new_gateway)) (FailedResponse (IdInt 7)) + 1"
proof
  show "g_log (perform (gateway_entry ex_gateway) ex_gateway_script new_gateway) =
     [SentResponse (IdInt 7), FailedResponse (IdInt 7), SentResponse (IdInt 7)]"
    by code_simp
qed (rule one_response_upstream [OF gateway_script])

lemma put_terminal_room:
  "length (g_to_terminal g) < g_capacity c \<Longrightarrow>
   put_terminal c raw rest g = rest (g\<lparr>g_to_terminal := g_to_terminal g @ [raw]\<rparr>)"
  by (simp add: put_terminal_def run_then_def gets_def put_nowait_def modify_def)

lemma quiet_notes:
  "g_to_terminal (snd (note_intercepted m g)) = g_to_terminal g"
  "g_to_terminal (snd (note_resolved m g)) = g_to_terminal g"
  "g_to_terminal (snd (note_turn_started m g)) = g_to_terminal g"
  "g_to_terminal (snd (note_turn_completed m g)) = g_to_terminal g"
  "g_to_terminal (snd (create_callback m g)) = g_to_terminal g"
  by (auto simp: note_intercepted_def note_resolved_def note_turn_started_def note_turn_completed_def
      create_callback_def bnd_def sync_defs Let_def split: option.splits json.splits)


lemma notes_return [returns_rules]:
  "returns (note_intercepted m)" "returns (note_resolved m)" "returns (note_turn_started m)"
  "returns (note_turn_completed m)" "returns (create_callback m)"
proof -
  show "returns (note_resolved m)"
    unfolding note_resolved_def
    by (cases "jget m ''params''"; simp only: json.case; intro returns_rules)
qed (unfold note_intercepted_def note_turn_started_def note_turn_completed_def create_callback_def;
     intro returns_rules)+

lemma forward_room:
  assumes "length (g_to_terminal g) < g_capacity c"
  shows "\<exists>g'. forward_to_terminal c m raw b g = (g', Done (Inr True)) \<and> g_to_terminal g' = g_to_terminal g @ [raw]"
proof -
  let ?m = "bnd (if b then create_callback m else return ()) (\<lambda>_. note_turn_completed m)"
  have ok: "\<exists>g'. ?m g1 = (Inr (), g') \<and> g_to_terminal g' = g_to_terminal g1" for g1
  proof -
    have "returns (if b then create_callback m else return ())" by (intro returns_rules notes_return)
    then obtain u g2 where 2: "(if b then create_callback m else return ()) g1 = (Inr u, g2)"
      by (rule returnsE)
    obtain v g3 where 3: "note_turn_completed m g2 = (Inr v, g3)"
      using notes_return(4) by (rule returnsE)
    have "g_to_terminal g2 = g_to_terminal g1" using 2 quiet_notes(5) [of m g1]
      by (cases b) (auto simp: return_def)
    moreover have "g_to_terminal g3 = g_to_terminal g2" using 3 quiet_notes(4) [of m g2] by simp
    ultimately show ?thesis using 2 3 by (simp add: bnd_def)
  qed
  obtain g' where g': "?m (g\<lparr>g_to_terminal := g_to_terminal g @ [raw]\<rparr>) = (Inr (), g')"
    "g_to_terminal g' = g_to_terminal g @ [raw]"
    using ok [of "g\<lparr>g_to_terminal := g_to_terminal g @ [raw]\<rparr>"] by auto
  then have "forward_to_terminal c m raw b g = (g', Done (Inr True))"
    by (simp add: forward_to_terminal_def put_terminal_room [OF assms] run_then_def gdone_def finish_def return_def)
  then show ?thesis using g'(2) by blast
qed

lemma observed_forward:
  assumes "length (g_to_terminal g) < g_capacity c" "\<And>e. r = Inl e \<Longrightarrow> is_plain_exception e"
    "\<And>msg. q \<noteq> GSend msg"
  shows "g_to_terminal (fst (feed [r] (observe q (forward_to_terminal c m raw b) g))) = g_to_terminal g @ [raw]"
proof -
  have o: "observe q (forward_to_terminal c m raw b) g = (g, Await q (\<lambda>reply. case reply of
       Inl e \<Rightarrow> if is_plain_exception e then forward_to_terminal c m raw b else finish (raise e)
     | Inr _ \<Rightarrow> forward_to_terminal c m raw b))"
    using assms(3) by (simp add: observe_def gawait_def split: gateway_call.split)
  obtain g' where g': "forward_to_terminal c m raw b g = (g', Done (Inr True))"
    "g_to_terminal g' = g_to_terminal g @ [raw]" using forward_room [OF assms(1)] by blast
  show ?thesis using assms(2) g' by (cases r) (simp_all add: o)
qed

lemma unobserved_forward:
  assumes "length (g_to_terminal g) < g_capacity c"
  shows "g_to_terminal (fst (feed [r] (forward_to_terminal c m raw b g))) = g_to_terminal g @ [raw]"
proof -
  obtain g' where "forward_to_terminal c m raw b g = (g', Done (Inr True))"
    "g_to_terminal g' = g_to_terminal g @ [raw]" using forward_room [OF assms] by blast
  then show ?thesis by simp
qed

lemma notes_run:
  "\<exists>b g'. bnd (note_intercepted m) (\<lambda>b. bnd (note_resolved m) (\<lambda>_. bnd (note_turn_started m) (\<lambda>_. return b))) g =
     (Inr b, g') \<and> g_to_terminal g' = g_to_terminal g"
proof -
  obtain b g1 where 1: "note_intercepted m g = (Inr b, g1)"
    using notes_return(1) by (rule returnsE)
  obtain u g2 where 2: "note_resolved m g1 = (Inr u, g2)"
    using notes_return(2) by (rule returnsE)
  obtain v g3 where 3: "note_turn_started m g2 = (Inr v, g3)"
    using notes_return(3) by (rule returnsE)
  have "g_to_terminal g3 = g_to_terminal g"
    using 1 2 3 quiet_notes(1) [of m g] quiet_notes(2) [of m g1] quiet_notes(3) [of m g2] by simp
  then show ?thesis using 1 2 3 by (simp add: bnd_def return_def)
qed

text \<open>
  C17. Every message of the app-server reaches the terminal, unchanged and once, even where the observers of
  the side channel raise.
\<close>

theorem upstream_message_forwarded:
  assumes "length (g_to_terminal g) < g_capacity c" "\<And>e. r = Inl e \<Longrightarrow> is_plain_exception e"
  shows "g_to_terminal (fst (feed [r] (handle_upstream_message c m raw g))) = g_to_terminal g @ [raw]"
proof -
  obtain b g1 where ns: "bnd (note_intercepted m) (\<lambda>b. bnd (note_resolved m)
      (\<lambda>_. bnd (note_turn_started m) (\<lambda>_. return b))) g = (Inr b, g1)" "g_to_terminal g1 = g_to_terminal g"
    using notes_run by blast
  have room: "length (g_to_terminal g1) < g_capacity c" using assms(1) ns(2) by simp
  let ?rest = "forward_to_terminal c m raw b"
  have msg: "handle_upstream_message c m raw g =
    (case response_id_of m of
       Some i \<Rightarrow> observe_response c i m (map_of (g_requests g1) i) ?rest (g1\<lparr>g_requests := dict_pop i (g_requests g1)\<rparr>)
     | None \<Rightarrow>
         (case (request_id_of m, as_str (jget m ''method'')) of
            (None, Some method) \<Rightarrow>
              if g_observes_notifications c
              then observe (GOnNotification \<lparr>n_method = method, n_params = params_of m\<rparr>) ?rest g1
              else ?rest g1
          | _ \<Rightarrow> ?rest g1))"
    by (simp add: handle_upstream_message_def run_then_def ns(1) split: option.split)
  have response: "g_to_terminal (fst (feed [r] (observe_response c i m q ?rest g2))) = g_to_terminal g2 @ [raw]"
    if "length (g_to_terminal g2) < g_capacity c" for i q g2
    unfolding observe_response_def
    using unobserved_forward [OF that] observed_forward [OF that assms(2)]
    by (simp del: feed.simps split: option.split prod.split)
  show ?thesis
    unfolding msg
    using room ns(2) response unobserved_forward [OF room] observed_forward [OF room assms(2)]
    by (simp del: feed.simps split: option.split)
qed

theorem upstream_message_forwarded_ex:
  "g_to_terminal (fst (feed [Inl (Exn ''ValueError'' ''x'')]
     (handle_upstream_message ex_gateway [(''method'', JStr ''turn/started'')] ''raw'' new_gateway))) = [''raw'']"
  using upstream_message_forwarded [of new_gateway ex_gateway "Inl (Exn ''ValueError'' ''x'')"]
  by (simp add: new_gateway_def ex_gateway_def is_plain_exception_def)



end
