(* ===== verification/Orchestrator_Invariant.thy ===== *)
theory Orchestrator_Invariant
  imports Orchestrator Store_Coherence
begin

text \<open>
  The invariant of the orchestrator under any interleaving of its coroutines: the store is well
  formed and coherent, every pending interaction has a live entry that agrees with its row, an
  interaction that was answered is closed, with the decision the answer says, and was answered once,
  and the event queue respects its capacity. Each method is shown to keep it; the event loop of theory \<open>Async\<close> does the rest.
\<close>

subsection \<open>The invariant\<close>

definition answered_ids :: "orchestrator \<Rightarrow> string list" where
  "answered_ids s = List.map_filter
     (\<lambda>q. case q of CallAnswer l _ \<Rightarrow> Some (i_id (l_interaction l)) | _ \<Rightarrow> None) (calls s)"

definition live_agrees :: "codex_store \<Rightarrow> (string \<times> live_interaction) list \<Rightarrow> bool" where
  "live_agrees st d \<longleftrightarrow> distinct (map fst d) \<and>
     (\<forall>(k, l)\<in>set d. i_id (l_interaction l) = k \<and> i_key (l_interaction l) \<in> i_key ` set (interactions st))"

definition pending_live :: "codex_store \<Rightarrow> (string \<times> live_interaction) list \<Rightarrow> bool" where
  "pending_live st d \<longleftrightarrow> (\<forall>i\<in>set (interactions st). is_pending i \<longrightarrow> i_id i \<in> fst ` set d)"

text \<open>
  The decision an answer says: the one it was built with for a user, the one the terminal's result is read as, or the
  denial of a request that was not answered in time.
\<close>

definition says :: "live_interaction \<Rightarrow> json \<Rightarrow> string \<Rightarrow> bool" where
  "says l response decision \<longleftrightarrow>
     (let kind = i_kind (l_interaction l); params = q_params (l_request l) in
      (\<exists>allow answers. resolution kind params allow answers = Inr (response, decision)) \<or>
      terminal_decision kind params response = Inr decision \<or>
      denial_response kind params = Inr response \<and> denial_decision kind = Inr decision)"

text \<open>The row of an interaction holds a decision.\<close>

definition decided_as :: "codex_store \<Rightarrow> string \<Rightarrow> string \<Rightarrow> bool" where
  "decided_as st interaction_id decision \<longleftrightarrow>
     (\<exists>row\<in>set (interactions st). i_id row = interaction_id \<and> i_status row \<in> {I_RESOLVED, I_EXPIRED} \<and>
        (\<exists>d. normalize_decision (i_kind row) decision = Inr d \<and> i_decision row = Some d))"

definition answer_recorded :: "codex_store \<Rightarrow> live_interaction \<Rightarrow> json \<Rightarrow> bool" where
  "answer_recorded st l response \<longleftrightarrow>
     (\<exists>decision. says l response decision \<and> decided_as st (i_id (l_interaction l)) decision)"

fun call_recorded :: "codex_store \<Rightarrow> call \<Rightarrow> bool" where
  "call_recorded st (CallAnswer l response) = answer_recorded st l response"
| "call_recorded st _ = True"

definition orch_inv :: "orchestrator_config \<Rightarrow> bool \<Rightarrow> orchestrator \<Rightarrow> bool" where
  "orch_inv c sp s \<longleftrightarrow>
     store_wf (orc_store s) \<and> coherent (orc_store s) \<and>
     live_agrees (orc_store s) (live s) \<and>
     (sp \<or> started s \<longrightarrow> pending_live (orc_store s) (live s)) \<and>
     distinct (answered_ids s) \<and> set (answered_ids s) \<subseteq> closed_ids (orc_store s) \<and>
     length (events s) \<le> nat (c_queue_capacity c) \<and> list_all (call_recorded (orc_store s)) (calls s)"

text \<open>A decided row is closed, and stays as it is.\<close>

lemma decided_as_evolves:
  assumes "evolves p st st'" and "decided_as st iid d"
  shows "decided_as st' iid d"
proof -
  obtain f new where fn: "interactions st' = map f (interactions st) @ new" and same: "\<And>x. \<not> is_pending x \<Longrightarrow> f x = x"
    using assms(1) unfolding evolves_def rows_evolve_def by blast
  obtain row where row: "row \<in> set (interactions st)" "i_id row = iid" "i_status row \<in> {I_RESOLVED, I_EXPIRED}"
    "\<exists>e. normalize_decision (i_kind row) d = Inr e \<and> i_decision row = Some e"
    using assms(2) unfolding decided_as_def by blast
  then have "f row = row"
    using same [of row] by (auto simp: is_pending_def)
  then have "row \<in> f ` set (interactions st)"
    using row(1) by (metis imageI)
  then have "row \<in> set (interactions st')"
    by (simp add: fn)
  then show ?thesis
    using row unfolding decided_as_def by blast
qed

lemma calls_recorded_step:
  assumes "guarded_step st st'" and "list_all (call_recorded st) qs"
  shows "list_all (call_recorded st') qs"
proof -
  have "call_recorded st q \<Longrightarrow> call_recorded st' q" for q
    using decided_as_evolves [OF guarded_step_evolves [OF assms(1)]] by (cases q) (auto simp: answer_recorded_def)
  then show ?thesis
    using assms(2) by (auto simp: list_all_iff)
qed

text \<open>Store steps that add no interaction: the pending rows can only become fewer.\<close>

definition quiet_step :: "codex_store \<Rightarrow> codex_store \<Rightarrow> bool" where
  "quiet_step st st' \<longleftrightarrow> guarded_step st st' \<and> length (interactions st') = length (interactions st)"

lemma quiet_rows:
  assumes "quiet_step st st'"
  shows "i_key ` set (interactions st') = i_key ` set (interactions st)"
    and "i \<in> set (interactions st') \<Longrightarrow> is_pending i \<Longrightarrow>
      \<exists>r\<in>set (interactions st). is_pending r \<and> i_key r = i_key i"
proof -
  have "rows_evolve is_pending i_key (interactions st) (interactions st')"
    using assms guarded_step_evolves unfolding quiet_step_def evolves_def by blast
  then obtain f new where fn: "interactions st' = map f (interactions st) @ new"
    and same: "\<And>x. \<not> is_pending x \<Longrightarrow> f x = x" and key: "\<And>x. i_key (f x) = i_key x"
    unfolding rows_evolve_def by blast
  have f: "interactions st' = map f (interactions st)"
    using fn assms by (simp add: quiet_step_def)
  show "i_key ` set (interactions st') = i_key ` set (interactions st)"
    unfolding f by (simp add: image_image key)
  show "\<exists>r\<in>set (interactions st). is_pending r \<and> i_key r = i_key i"
    if "i \<in> set (interactions st')" "is_pending i"
  proof -
    have "i \<in> f ` set (interactions st)" using that(1) unfolding f by simp
    then obtain x where x: "x \<in> set (interactions st)" "i = f x" by blast
    have "is_pending x" using x same [of x] that(2) by (cases "is_pending x") simp_all
    moreover have "i_key x = i_key i" using x(2) key [of x] by simp
    ultimately show ?thesis using x(1) by blast
  qed
qed

lemma quiet_inv:
  assumes "quiet_step (orc_store s) st'" "orch_inv c sp s"
  shows "orch_inv c sp (s\<lparr>orc_store := st'\<rparr>)"
proof -
  have g: "guarded_step (orc_store s) st'" using assms(1) by (simp add: quiet_step_def)
  have "store_wf st'" "coherent st'"
    using g assms(2) guarded_step_wf guarded_step_coherent unfolding orch_inv_def by blast+
  moreover have "live_agrees st' (live s)"
    using assms(2) quiet_rows(1) [OF assms(1)] by (simp add: orch_inv_def live_agrees_def)
  moreover have "pending_live st' (live s)" if need: "sp \<or> started s"
    unfolding pending_live_def
  proof (intro ballI impI)
    fix i assume "i \<in> set (interactions st')" "is_pending i"
    then obtain r where "r \<in> set (interactions (orc_store s))" "is_pending r" "i_key r = i_key i"
      using quiet_rows(2) [OF assms(1)] by blast
    moreover from this have "i_id r \<in> fst ` set (live s)"
      using assms(2) need unfolding orch_inv_def pending_live_def by blast
    ultimately show "i_id i \<in> fst ` set (live s)" by simp
  qed
  moreover have "closed_ids (orc_store s) \<subseteq> closed_ids st'"
    using g by (rule closed_ids_step [OF store_step.guarded])
  then have "set (answered_ids s) \<subseteq> closed_ids st'"
    using assms(2) unfolding orch_inv_def by blast
  moreover have "list_all (call_recorded st') (calls s)"
    using calls_recorded_step [OF g] assms(2) unfolding orch_inv_def by blast
  ultimately show ?thesis using assms(2) by (simp add: orch_inv_def answered_ids_def)
qed

lemma keeps_write:
  assumes "\<And>st x st'. f st = Inr (x, st') \<Longrightarrow> quiet_step st st'"
  shows "keeps (orch_inv c sp) (write_store f)"
  by (rule keepsI) (auto simp: write_store_def intro: quiet_inv assms split: sum.split prod.split)

subsection \<open>The quiet methods of the store\<close>

lemma length_update_rows [simp]: "length (close_pending a b t rows) = length rows"
  by (simp add: close_pending_def)

lemma quiet_update: "set ex \<subseteq> set ACTIVE_SESSION_STATUSES \<Longrightarrow>
   store_update_session_if_status sid ex S_RUNNING th tu su ts nw st = Inr (b, st') \<Longrightarrow> quiet_step st st'"
  unfolding quiet_step_def
  by (rule conjI, erule (1) guarded_step.update_if_status)
    (auto simp: store_update_session_if_status_def with_connection_split split: if_splits)

lemma quiet_create: "s_status v = S_STARTING \<Longrightarrow> store_create_session v st = Inr st' \<Longrightarrow> quiet_step st st'"
  unfolding quiet_step_def
  by (rule conjI, erule (1) guarded_step.create_session)
    (auto simp: store_create_session_def with_connection_def split: if_splits)

lemma quiet_resolve:
  "store_resolve_interaction_and_refresh_session iid d a ts v st = Inr (b, st') \<Longrightarrow> quiet_step st st'"
  unfolding quiet_step_def
  by (rule conjI, erule guarded_step.resolve_refresh)
    (auto simp: store_resolve_interaction_and_refresh_session_def with_connection_split
      split: if_splits option.splits sum.splits)

lemma quiet_cancel:
  "store_cancel_interaction_and_refresh_session iid ts st = Inr (b, st') \<Longrightarrow> quiet_step st st'"
  unfolding quiet_step_def
  by (rule conjI, erule guarded_step.cancel_refresh)
    (auto simp: store_cancel_interaction_and_refresh_session_def with_connection_split
      split: if_splits option.splits)

lemma quiet_claim: "store_claim_session_terminal sid t su p ts st = Inr (r, st') \<Longrightarrow> quiet_step st st'"
  unfolding quiet_step_def
  by (rule conjI, erule guarded_step.claim)
    (auto simp: store_claim_session_terminal_def with_connection_split split: if_splits)

lemma quiet_finish: "store_finish_interactive_turn sid tu su ts st = Inr (r, st') \<Longrightarrow> quiet_step st st'"
  unfolding quiet_step_def
  by (rule conjI, erule guarded_step.finish_turn)
    (auto simp: store_finish_interactive_turn_def with_connection_split split: if_splits)

lemma quiet_reconcile: "store_reconcile_startup t nw st = Inr (r, st') \<Longrightarrow> quiet_step st st'"
  unfolding quiet_step_def
  by (rule conjI, erule guarded_step.reconcile)
    (auto simp: store_reconcile_startup_def with_connection_split split: if_splits)

lemma quiet_enqueue:
  "store_enqueue_outbox ty p s ag sn i nx cr nw st = Inr (n, st') \<Longrightarrow> quiet_step st st'"
  unfolding quiet_step_def
  by (rule conjI, erule guarded_step.enqueue)
    (auto simp: store_enqueue_outbox_def with_connection_split split: if_splits)

lemma others_guarded: "others st st' \<Longrightarrow> guarded_step st st'"
  by (induction rule: others.induct) (blast intro: guarded_step.intros)+

lemma others_length: "others st st' \<Longrightarrow> length (interactions st') = length (interactions st)"
  by (induction rule: others.induct)
    (auto simp: store_attach_lark_message_id_def store_record_event_once_def
      store_mark_outbox_sent_def store_record_outbox_failure_def store_record_audit_def
      store_enqueue_outbox_def store_close_def with_connection_split split: if_splits)

lemma quiet_others: "others st st' \<Longrightarrow> quiet_step st st'"
  by (simp add: quiet_step_def others_guarded others_length)

subsection \<open>Straight-line code\<close>

abbreviation okp :: "orchestrator_config \<Rightarrow> bool \<Rightarrow> 'a osync \<Rightarrow> bool" where
  "okp c sp \<equiv> keeps (orch_inv c sp)"

lemma inv_frame:
  "orch_inv c sp s \<Longrightarrow> orc_store s' = orc_store s \<Longrightarrow> live s' = live s \<Longrightarrow> calls s' = calls s \<Longrightarrow>
   events s' = events s \<Longrightarrow> started s' = started s \<Longrightarrow> orch_inv c sp s'"
  by (simp add: orch_inv_def answered_ids_def)

lemma okp_utc_now [keeps_rules]: "okp c sp (utc_now c')"
  by (rule keepsI) (auto simp: utc_now_def intro: inv_frame)

lemma okp_fresh_id [keeps_rules]: "okp c sp (fresh_id c')"
  by (rule keepsI) (auto simp: fresh_id_def intro: inv_frame)

lemma okp_read [keeps_rules]: "okp c sp (read_store f)"
  by (rule keepsI) (simp add: read_store_def)

lemma okp_frame [keeps_rules]:
  "okp c sp (modify (\<lambda>s. s\<lparr>terminal_error := e s\<rparr>))" "okp c sp (modify (\<lambda>s. s\<lparr>closing := b\<rparr>))"
  "okp c sp (modify (\<lambda>s. s\<lparr>closed := b\<rparr>))"
  "okp c sp (modify (\<lambda>s. s\<lparr>terminal_error := e s, closed := b\<rparr>))"
  "okp c sp (modify (\<lambda>s. s\<lparr>interactive_sessions := f s\<rparr>))"
  by (rule keeps_modify, erule inv_frame; simp)+

lemma okp_writes [keeps_rules]:
  "okp c sp (write_store (store_resolve_interaction_and_refresh_session iid d a ts v))"
  "okp c sp (write_store (store_cancel_interaction_and_refresh_session iid ts))"
  "okp c sp (write_store (store_claim_session_terminal sid t su p ts))"
  "okp c sp (write_store (store_finish_interactive_turn sid tu su ts))"
  "okp c sp (write_store (store_reconcile_startup t' nw))"
  "okp c sp (write_store (store_enqueue_outbox ty p' s ag sn i nx cr nw))"
  by (rule keeps_write, erule quiet_resolve quiet_cancel quiet_claim quiet_finish quiet_reconcile
      quiet_enqueue)+

lemma okp_update [keeps_rules]: "set ex \<subseteq> set ACTIVE_SESSION_STATUSES \<Longrightarrow>
   okp c sp (write_store (store_update_session_if_status sid ex S_RUNNING th tu su ts nw))"
  by (rule keeps_write) (rule quiet_update)

lemma active_subsets [keeps_rules, simp]:
  "set [S_STARTING] \<subseteq> set ACTIVE_SESSION_STATUSES" "set ACTIVE_SESSION_STATUSES \<subseteq> set ACTIVE_SESSION_STATUSES"
  by (simp_all add: ACTIVE_SESSION_STATUSES_def)

lemma okp_add_session: "s_status v = S_STARTING \<Longrightarrow> okp c sp (add_session v)"
  unfolding add_session_def by (rule keeps_write) (auto intro: quiet_create split: sum.splits)

lemma opt_or_put: "length q \<le> n \<Longrightarrow> length (opt_or (put_nowait n q x) q) \<le> n"
  by (simp add: put_nowait_def)

lemma okp_emit [keeps_rules]: "okp c sp (emit c ty sid iid st su)"
proof -
  have "okp c sp (modify (\<lambda>s. s\<lparr>events := opt_or (put_nowait (nat (c_queue_capacity c)) (events s) e) (events s)\<rparr>))" for e
    by (rule keeps_modify) (simp add: orch_inv_def answered_ids_def opt_or_put)
  then show ?thesis unfolding emit_def Let_def by (intro keeps_rules)
qed

text \<open>Removing live entries, where no pending row needs them.\<close>

lemma inv_drop:
  assumes "orch_inv c sp s" and "\<And>i. i \<in> set (interactions (orc_store s)) \<Longrightarrow> i_session_id i = sid \<Longrightarrow> \<not> is_pending i"
  shows "orch_inv c sp (s\<lparr>live := filter (\<lambda>(k, l). i_session_id (l_interaction l) \<noteq> sid) (live s)\<rparr>)"
    (is "orch_inv c sp (s\<lparr>live := ?live\<rparr>)")
proof -
  let ?st = "orc_store s"
  have la: "live_agrees ?st (live s)" and wf: "store_wf ?st"
    using assms(1) by (simp_all add: orch_inv_def)
  have d: "distinct (map i_id (interactions ?st))" using wf by (simp add: store_wf_def wf_interactions_def)
  have "live_agrees ?st ?live"
    using la by (auto simp: live_agrees_def distinct_map_filter)
  moreover have "pending_live ?st ?live" if need: "sp \<or> started s"
    unfolding pending_live_def
  proof (intro ballI impI)
    fix i assume i: "i \<in> set (interactions ?st)" "is_pending i"
    then obtain l where l: "(i_id i, l) \<in> set (live s)"
      using assms(1) need by (auto simp: orch_inv_def pending_live_def)
    then obtain r where r: "r \<in> set (interactions ?st)" "i_key (l_interaction l) = i_key r" "i_id (l_interaction l) = i_id i"
      using la unfolding live_agrees_def by (auto simp: image_iff)
    have "r = i" using unique_row [OF d r(1) i(1)] r by simp
    then have "i_session_id (l_interaction l) \<noteq> sid" using r i assms(2) by auto
    then have "(i_id i, l) \<in> set ?live" using l by simp
    then show "i_id i \<in> fst ` set ?live" by (rule rev_image_eqI) simp
  qed
  ultimately show ?thesis using assms(1) by (simp add: orch_inv_def answered_ids_def)
qed

lemma inv_pop:
  assumes "orch_inv c sp s" and "\<And>i. i \<in> set (interactions (orc_store s)) \<Longrightarrow> i_id i = iid \<Longrightarrow> \<not> is_pending i"
  shows "orch_inv c sp (s\<lparr>live := dict_pop iid (live s)\<rparr>)"
proof -
  have "live_agrees (orc_store s) (dict_pop iid (live s))"
    using assms(1) by (auto simp: orch_inv_def live_agrees_def AList.delete_eq distinct_map_filter)
  moreover have "pending_live (orc_store s) (dict_pop iid (live s))" if "sp \<or> started s"
    using assms that by (fastforce simp: orch_inv_def pending_live_def AList.delete_eq)
  ultimately show ?thesis using assms(1) by (simp add: orch_inv_def answered_ids_def)
qed

subsection \<open>Ending a session, deciding and registering an interaction\<close>

lemma closed_for_session:
  "store_claim_session_terminal sid t su p ts st = Inr (Some ids, st') \<Longrightarrow> p \<noteq> I_PENDING \<Longrightarrow>
     i \<in> set (interactions st') \<Longrightarrow> i_session_id i = sid \<Longrightarrow> \<not> is_pending i"
  "store_finish_interactive_turn sid tu su ts st = Inr (Some ids, st') \<Longrightarrow>
     i \<in> set (interactions st') \<Longrightarrow> i_session_id i = sid \<Longrightarrow> \<not> is_pending i"
  by (auto simp: store_claim_session_terminal_def store_finish_interactive_turn_def
      with_connection_split close_pending_def set_update_where split: if_splits)

lemma okp_write_drop:
  assumes "okp c sp (write_store f)" "\<And>x. okp c sp (rest x)" "\<And>s. okp c sp none"
    and "\<And>st ids st' i. f st = Inr (Some ids, st') \<Longrightarrow> i \<in> set (interactions st') \<Longrightarrow>
      i_session_id i = sid \<Longrightarrow> \<not> is_pending i"
  shows "okp c sp (bnd (write_store f) (\<lambda>affected. if affected = None then none
      else bnd (drop_live_for_session sid) rest))"
proof (rule keeps_bnd_post)
  show "triple (orch_inv c sp) (write_store f) (\<lambda>a s. a = None \<or>
      (\<forall>i\<in>set (interactions (orc_store s)). i_session_id i = sid \<longrightarrow> \<not> is_pending i))"
    unfolding triple_def
  proof (intro allI impI conjI)
    fix s assume s: "orch_inv c sp s"
    show "orch_inv c sp (snd (write_store f s))" by (rule keepsD [OF assms(1) s])
    fix x assume "fst (write_store f s) = Inr x"
    then show "x = None \<or> (\<forall>i\<in>set (interactions (orc_store (snd (write_store f s)))).
        i_session_id i = sid \<longrightarrow> \<not> is_pending i)"
      using assms(4) by (cases x) (auto simp: write_store_def split: sum.splits prod.splits)
  qed
  fix a s assume s: "orch_inv c sp s" and a: "a = None \<or>
      (\<forall>i\<in>set (interactions (orc_store s)). i_session_id i = sid \<longrightarrow> \<not> is_pending i)"
  show "orch_inv c sp (snd ((if a = None then none else bnd (drop_live_for_session sid) rest) s))"
  proof (cases "a = None")
    case True
    then show ?thesis using keepsD [OF assms(3) s] by simp
  next
    case False
    then have "orch_inv c sp (s\<lparr>live := filter (\<lambda>(k, l). i_session_id (l_interaction l) \<noteq> sid) (live s)\<rparr>)"
      using a by (intro inv_drop [OF s]) auto
    then show ?thesis
      using False keepsD [OF assms(2)] by (auto simp: bnd_def drop_live_for_session_def modify_def)
  qed
qed

lemma okp_end_session [keeps_rules]: "okp c sp (end_session c sid t su)"
  unfolding end_session_def
  by (rule keeps_bnd, rule okp_utc_now, rule okp_write_drop)
    ((intro keeps_rules)+, rule closed_for_session(1), auto)

lemma okp_interrupt [keeps_rules]: "okp c sp (interrupt_session c sid su)"
  unfolding interrupt_session_def
  by (rule keeps_bnd, rule okp_read, rule keeps_if, rule keeps_return, rule keeps_bnd, rule okp_utc_now,
      rule okp_write_drop)
    ((intro keeps_rules)+, rule closed_for_session(1), auto)

lemma okp_finish_turn [keeps_rules]: "okp c sp (finish_turn c v ti t su)"
  unfolding finish_turn_def
  by (rule keeps_case_option, rule keeps_return, rule keeps_bnd, rule okp_utc_now, rule okp_write_drop)
    ((intro keeps_rules)+, rule closed_for_session(2), auto)

lemma okp_interrupt_active [keeps_rules]: "okp c sp (interrupt_active c su)"
  unfolding interrupt_active_def by (intro keeps_rules)

text \<open>A decision that wins closes the interaction, which was not closed before.\<close>

abbreviation ready_for :: "string \<Rightarrow> string \<Rightarrow> orchestrator \<Rightarrow> bool" where
  "ready_for iid d s \<equiv>
     iid \<in> closed_ids (orc_store s) \<and> iid \<notin> set (answered_ids s) \<and> decided_as (orc_store s) iid d"

definition wins :: "orchestrator_config \<Rightarrow> bool \<Rightarrow> string \<Rightarrow> string \<Rightarrow> bool osync \<Rightarrow> bool" where
  "wins c sp iid d m \<longleftrightarrow> triple (orch_inv c sp) m (\<lambda>won s. won \<longrightarrow> ready_for iid d s)"

lemma resolve_decides:
  assumes "store_resolve_interaction_and_refresh_session iid d a t v st = Inr (True, st')"
    and wf: "store_wf st"
  shows "decided_as st' iid d"
proof -
  obtain row e where row: "find (\<lambda>i. i_id i = iid) (interactions st) = Some row"
    and e: "normalize_decision (i_kind row) d = Inr e" and v: "v \<in> {I_RESOLVED, I_EXPIRED}"
    and one: "count_where (\<lambda>i. i_id i = iid \<and> is_pending i) (interactions st) = 1"
    and st': "interactions st' = update_where (\<lambda>i. i_id i = iid \<and> is_pending i) (decide_row v e a t) (interactions st)"
    using assms(1)
    by (auto simp: store_resolve_interaction_and_refresh_session_def with_connection_split split: if_splits option.splits sum.splits)
  have "\<exists>x\<in>set (interactions st). i_id x = iid \<and> is_pending x"
    using one by (auto simp: count_where_def filter_empty_conv dest!: sym [of 1] split: if_splits)
      (metis (mono_tags, lifting) One_nat_def filter_False list.size(3) zero_neq_one)
  then obtain x where x: "x \<in> set (interactions st)" "i_id x = iid" "is_pending x"
    by blast
  have "distinct (map i_id (interactions st))"
    using wf by (simp add: store_wf_def wf_interactions_def)
  moreover have "row \<in> set (interactions st)" "i_id row = iid"
    using row by (auto simp: find_Some_iff)
  ultimately have "x = row"
    using unique_row [of i_id "interactions st" x row] x by simp
  then have "decide_row v e a t row \<in> set (interactions st')"
    using x unfolding st' set_update_where by (auto intro: rev_image_eqI)
  then show ?thesis
    using e v x \<open>x = row\<close> unfolding decided_as_def by (intro bexI [of _ "decide_row v e a t row"]) (auto simp: decide_row_def)
qed

lemma closed_not_pending:
  assumes "store_wf st" "iid \<in> closed_ids st" "i \<in> set (interactions st)" "i_id i = iid"
  shows "\<not> is_pending i"
proof -
  obtain r where r: "r \<in> set (interactions st)" "\<not> is_pending r" "i_id r = iid"
    using assms(2) unfolding closed_ids_def by blast
  have "distinct (map i_id (interactions st))" using assms(1) by (simp add: store_wf_def wf_interactions_def)
  then have "r = i" using unique_row [of i_id "interactions st" r i] r assms(3,4) by simp
  then show ?thesis using r by simp
qed

lemma wins_write_pop:
  "wins c sp iid d (bnd (write_store (store_resolve_interaction_and_refresh_session iid d a t v)) (\<lambda>won.
     if \<not> won then return False else bnd (pop_live iid) (\<lambda>_. return True)))"
  (is "wins c sp iid d (bnd (write_store ?f) ?k)")
  unfolding wins_def triple_def
proof (intro allI impI)
  fix s assume s: "orch_inv c sp s"
  let ?m = "bnd (write_store ?f) ?k"
  show "orch_inv c sp (snd (?m s)) \<and> (\<forall>x. fst (?m s) = Inr x \<longrightarrow> x \<longrightarrow>
      ready_for iid d (snd (?m s)))"
  proof (cases "?f (orc_store s)")
    case (Inl e)
    then show ?thesis using s by (simp add: bnd_def write_store_def)
  next
    case (Inr r)
    then obtain b st' where r: "?f (orc_store s) = Inr (b, st')" by (cases r) simp
    let ?s' = "s\<lparr>orc_store := st'\<rparr>"
    have s': "orch_inv c sp ?s'" using s quiet_resolve [OF r] quiet_inv by blast
    show ?thesis
    proof (cases b)
      case False
      then show ?thesis using s' r by (simp add: bnd_def write_store_def return_def)
    next
      case True
      then have "decides_interaction iid (orc_store s) True st'"
        using r unfolding decides_interaction_def by auto
      then have c: "iid \<notin> closed_ids (orc_store s)" "iid \<in> closed_ids st'"
        using decides_facts s unfolding orch_inv_def by blast+
      have "iid \<notin> set (answered_ids s)" using c(1) s unfolding orch_inv_def by blast
      moreover have "orch_inv c sp (?s'\<lparr>live := dict_pop iid (live ?s')\<rparr>)"
        using s' closed_not_pending [OF _ c(2)] by (intro inv_pop) (auto simp: orch_inv_def)
      moreover have "decided_as st' iid d"
        using resolve_decides [of iid d a t v "orc_store s" st'] r True s by (simp add: orch_inv_def)
      ultimately show ?thesis
        using True r c(2) by (simp add: bnd_def write_store_def pop_live_def modify_def return_def
            answered_ids_def)
    qed
  qed
qed

lemma wins_bnd: "okp c sp m \<Longrightarrow> (\<And>x s s'. m s = (Inr x, s') \<Longrightarrow> wins c sp iid d (f x)) \<Longrightarrow> wins c sp iid d (bnd m f)"
  unfolding wins_def triple_def bnd_def
  by (fastforce dest: keepsD split: prod.splits sum.splits)

lemma wins_decide: "wins c sp iid d (decide c iid d a)"
  unfolding decide_def by (rule wins_bnd [OF okp_utc_now wins_write_pop])

lemma wins_decide_expired:
  "(if i_kind (l_interaction l) = USER_INPUT then Inr ''submitted'' else denial_decision (i_kind (l_interaction l))) = Inr d \<Longrightarrow>
   wins c sp iid d (decide_expired c t l iid)"
  unfolding decide_expired_def Let_def
  by (rule wins_bnd [OF keeps_from_outcome]) (auto simp: from_outcome_def intro: wins_write_pop)

lemma waiting_status_guard: "waiting_status k = (if k = USER_INPUT then S_WAITING_FOR_INPUT else S_WAITING_FOR_APPROVAL)"
  by (simp add: waiting_status_def)

text \<open>A new interaction is pending in the store and live in the same segment.\<close>

lemma create_effect:
  assumes "store_create_interaction_and_mark_waiting i w ts st = Inr (b, st')"
  shows "b \<Longrightarrow> i_id i \<notin> i_id ` set (interactions st) \<and>
      (\<exists>x. i_key x = i_key i \<and> interactions st' = interactions st @ [x])"
    and "\<not> b \<Longrightarrow> interactions st' = interactions st"
  using assms
  by (auto simp: store_create_interaction_and_mark_waiting_def with_connection_split
      insert_interaction_def split: if_splits sum.splits)

lemma inv_not_created:
  assumes s: "orch_inv c sp s" and i: "i_status i = I_PENDING"
    and r: "store_create_interaction_and_mark_waiting i (waiting_status (i_kind i)) t (orc_store s) = Inr (False, st')"
  shows "orch_inv c sp (s\<lparr>orc_store := st'\<rparr>)"
proof (rule quiet_inv [OF _ s])
  show "quiet_step (orc_store s) st'"
    unfolding quiet_step_def using create_effect(2) [OF r] guarded_step.mark_waiting [OF r i]
    by (simp add: waiting_status_def)
qed

lemma inv_created:
  assumes s: "orch_inv c sp s" and i: "i_status i = I_PENDING"
    and r: "store_create_interaction_and_mark_waiting i (waiting_status (i_kind i)) t (orc_store s) = Inr (True, st')"
    and l: "l_interaction l = i"
  shows "orch_inv c sp (s\<lparr>orc_store := st', live := dict_set (i_id i) l (live s)\<rparr>)"
proof -
  have g: "guarded_step (orc_store s) st'"
    using guarded_step.mark_waiting [OF r i] by (simp add: waiting_status_def)
  have wf: "store_wf st'" "coherent st'"
    using s g guarded_step_wf guarded_step_coherent unfolding orch_inv_def by blast+
  obtain x where x: "i_key x = i_key i" "interactions st' = interactions (orc_store s) @ [x]"
    using create_effect(1) [OF r] by blast
  have "closed_ids (orc_store s) \<subseteq> closed_ids st'" by (rule closed_ids_step [OF store_step.guarded [OF g]])
  then have "set (answered_ids s) \<subseteq> closed_ids st'" using s unfolding orch_inv_def by blast
  moreover have "list_all (call_recorded st') (calls s)"
    using calls_recorded_step [OF g] s unfolding orch_inv_def by blast
  moreover have "live_agrees st' (dict_set (i_id i) l (live s))"
    unfolding live_agrees_def
  proof (intro conjI ballI)
    show "distinct (map fst (dict_set (i_id i) l (live s)))"
      using s by (auto simp: orch_inv_def live_agrees_def)
    fix kv assume kv: "kv \<in> set (dict_set (i_id i) l (live s))"
    have keys: "i_key ` set (interactions st') = insert (i_key i) (i_key ` set (interactions (orc_store s)))"
      using x by simp
    show "case kv of (k, l') \<Rightarrow> i_id (l_interaction l') = k \<and>
        i_key (l_interaction l') \<in> i_key ` set (interactions st')"
    proof (cases "kv = (i_id i, l)")
      case True
      then show ?thesis using l keys by simp
    next
      case False
      then have "kv \<in> set (live s)" using kv set_dict_set by fastforce
      then show ?thesis using s unfolding keys orch_inv_def live_agrees_def by fastforce
    qed
  qed
  moreover have "pending_live st' (dict_set (i_id i) l (live s))" if "sp \<or> started s"
    using s x that by (auto simp: orch_inv_def pending_live_def dom_update)
  ultimately show ?thesis using s wf by (simp add: orch_inv_def answered_ids_def)
qed

lemma okp_create_live:
  assumes i: "i_status i = I_PENDING" "i_id i = iid" "l_interaction l = i" "k = i_kind i"
    and rest: "\<And>x. okp c sp (rest x)"
  shows "okp c sp (bnd (write_store (store_create_interaction_and_mark_waiting i (waiting_status k) t))
    (\<lambda>created. if \<not> created then return None
      else bnd (modify (\<lambda>s. s\<lparr>live := dict_set iid l (live s)\<rparr>)) rest))"
proof (rule keepsI)
  fix s assume s: "orch_inv c sp s"
  let ?f = "store_create_interaction_and_mark_waiting i (waiting_status k) t"
  let ?m = "bnd (write_store ?f) (\<lambda>created. if \<not> created then return None
      else bnd (modify (\<lambda>s. s\<lparr>live := dict_set iid l (live s)\<rparr>)) rest)"
  show "orch_inv c sp (snd (?m s))"
  proof (cases "?f (orc_store s)")
    case (Inl e)
    then show ?thesis using s by (simp add: bnd_def write_store_def)
  next
    case (Inr r)
    then obtain b st' where r: "?f (orc_store s) = Inr (b, st')" by (cases r) simp
    show ?thesis
    proof (cases b)
      case False
      then have "orch_inv c sp (s\<lparr>orc_store := st'\<rparr>)" using inv_not_created [OF s i(1)] r i(4) by simp
      then show ?thesis using False r by (simp add: bnd_def write_store_def return_def)
    next
      case True
      then have "orch_inv c sp (s\<lparr>orc_store := st', live := dict_set (i_id i) l (live s)\<rparr>)"
        using inv_created [OF s i(1) _ i(3)] r i(4) by simp
      then have "orch_inv c sp (snd (rest () (s\<lparr>orc_store := st', live := dict_set iid l (live s)\<rparr>)))"
        using keepsD [OF rest] i(2) by blast
      then show ?thesis using True r by (simp add: bnd_def write_store_def modify_def)
    qed
  qed
qed

lemma okp_register [keeps_rules]: "okp c sp (register_interaction c request kind v responder)"
  unfolding register_interaction_def Let_def
  by (rule keeps_bnd, rule okp_utc_now, rule keeps_bnd, rule okp_fresh_id, rule keeps_bnd, rule okp_utc_now,
      rule okp_create_live)
    (auto simp: new_interaction_def intro!: keeps_rules)

lemma cancel_closes:
  assumes "store_wf st" "store_cancel_interaction_and_refresh_session iid t st = Inr (b, st')"
    "i \<in> set (interactions st')" "i_id i = iid"
  shows "\<not> is_pending i"
proof -
  have d: "distinct (map i_id (interactions st))" using assms(1) by (simp add: store_wf_def wf_interactions_def)
  have "interactions st' = update_where (\<lambda>i. i_id i = iid \<and> is_pending i) (close_row I_CANCELLED t) (interactions st)"
    using assms(2) key_count_cases [OF d, of iid is_pending]
    by (auto simp: store_cancel_interaction_and_refresh_session_def with_connection_split update_where_id
        dest: find_None_all split: if_splits option.splits)
  then show ?thesis using assms(3,4) by (auto simp: set_update_where)
qed

lemma okp_cancel_pop:
  "okp c sp (bnd (write_store (store_cancel_interaction_and_refresh_session iid t)) (\<lambda>_. pop_live iid))"
proof (rule keepsI)
  fix s assume s: "orch_inv c sp s"
  let ?f = "store_cancel_interaction_and_refresh_session iid t"
  show "orch_inv c sp (snd (bnd (write_store ?f) (\<lambda>_. pop_live iid) s))"
  proof (cases "?f (orc_store s)")
    case (Inl e)
    then show ?thesis using s by (simp add: bnd_def write_store_def)
  next
    case (Inr r)
    then obtain b st' where r: "?f (orc_store s) = Inr (b, st')" by (cases r) simp
    then have s': "orch_inv c sp (s\<lparr>orc_store := st'\<rparr>)" using s quiet_cancel [OF r] quiet_inv by blast
    have "store_wf (orc_store s)" using s by (simp add: orch_inv_def)
    then have "orch_inv c sp (s\<lparr>orc_store := st', live := dict_pop iid (live (s\<lparr>orc_store := st'\<rparr>))\<rparr>)"
      by (intro inv_pop [OF s']) (simp add: cancel_closes [OF _ r])
    then show ?thesis using r by (simp add: bnd_def write_store_def pop_live_def modify_def)
  qed
qed

lemma okp_request_resolved [keeps_rules]: "okp c sp (request_resolved c params)"
  unfolding request_resolved_def find_live_by_request_id_def
  by (rule keeps_case_option, rule keeps_return, rule keeps_bnd, rule keeps_gets, rule keeps_case_option,
      rule keeps_return, rule keeps_bnd, rule okp_utc_now, rule okp_cancel_pop)

lemma keeps_case_json_pair [keeps_rules]:
  "(\<And>t d. keeps P (f t d)) \<Longrightarrow> keeps P g \<Longrightarrow>
   keeps P (case (a, b) of (JStr t, JObj d) \<Rightarrow> f t d | _ \<Rightarrow> g)"
  by (cases a; cases b) simp_all

lemma okp_remember [keeps_rules]: "okp c sp (remember_final_text params)"
  by (rule keepsI)
    (auto simp: remember_final_text_def sync_defs Let_def intro: inv_frame split: json.splits option.splits)

lemma okp_turn_started [keeps_rules]: "okp c sp (turn_started c params)"
  unfolding turn_started_def by (intro keeps_rules)

lemma okp_take_final_text [keeps_rules]: "okp c sp (take_final_text t i su)"
  by (rule keepsI) (auto simp: take_final_text_def sync_defs intro: inv_frame split: option.splits)

lemma okp_turn_completed [keeps_rules]: "okp c sp (turn_completed c params)"
  unfolding turn_completed_def by (intro keeps_rules)

lemma okp_notification [keeps_rules]: "okp c sp (process_notification c n)"
  unfolding process_notification_def by (intro keeps_rules)

subsection \<open>Coroutines\<close>

abbreviation okseg :: "orchestrator_config \<Rightarrow> bool \<Rightarrow> segment \<Rightarrow> bool" where
  "okseg c sp \<equiv> segment_ok (orch_inv c sp)"

fun is_answer :: "call \<Rightarrow> bool" where
  "is_answer (CallAnswer _ _) = True"
| "is_answer _ = False"

lemma segment_await [keeps_rules]:
  assumes "\<not> is_answer q" "\<And>r. okseg c sp (k r)"
  shows "okseg c sp (await_call q k)"
proof -
  have "orch_inv c sp s \<Longrightarrow> orch_inv c sp (s\<lparr>calls := calls s @ [q]\<rparr>)" for s
    using assms(1) by (cases q) (simp_all add: orch_inv_def answered_ids_def map_filter_def)
  then show ?thesis using assms(2) by (auto simp: segment_ok_def await_call_def)
qed

lemma not_answer [keeps_rules, simp]:
  "\<not> is_answer (CallLock n)" "\<not> is_answer CallStart" "\<not> is_answer (CallStartThread a m b)"
  "\<not> is_answer (CallStartTurn a b)" "\<not> is_answer (CallInterruptTurn a b)"
  "\<not> is_answer (CallError p i co txt)" "\<not> is_answer CallGather" "\<not> is_answer CallWaitClosed"
  "\<not> is_answer CallClose"
  by simp_all

text \<open>The segment that records a decision and sends the answer.\<close>

lemma await_answer:
  assumes "i_id (l_interaction l) = iid" "says l x d" "\<And>r. okseg c sp (k r)"
  shows "segment_from (orch_inv c sp) (ready_for iid d) (await_call (CallAnswer l x) k)"
  using assms
  by (auto simp: segment_from_def await_call_def orch_inv_def answered_ids_def map_filter_def segment_ok_def answer_recorded_def)

lemma decide_then_answer:
  assumes "wins c sp iid d m" "i_id (l_interaction l) = iid" "says l x d" "okseg c sp none" "\<And>r. okseg c sp (k r)"
  shows "okseg c sp (run_then m (\<lambda>won. if \<not> won then none else await_call (CallAnswer l x) k))"
proof (rule segment_run_then_post)
  show "triple (orch_inv c sp) m (\<lambda>won s. won \<longrightarrow> ready_for iid d s)"
    using assms(1) by (simp add: wins_def)
  show "segment_from (orch_inv c sp) (\<lambda>s. won \<longrightarrow> ready_for iid d s)
      (if \<not> won then none else await_call (CallAnswer l x) k)" for won
  proof (cases won)
    case True
    then show ?thesis using await_answer [OF assms(2,3,5)] by simp
  next
    case False
    then show ?thesis using segment_from_ok [OF assms(4)] by simp
  qed
qed

lemma okseg_startup_failed [keeps_rules]: "okseg c sp (startup_failed c sid e)"
  unfolding startup_failed_def Let_def by (intro keeps_rules)

lemma okp_check_startup [keeps_rules]: "set ex \<subseteq> set ACTIVE_SESSION_STATUSES \<Longrightarrow> okp c sp (check_startup c sid ex th tu)"
  unfolding check_startup_def by (intro keeps_rules)

lemma okseg_create_after_turn [keeps_rules]: "okseg c sp (create_after_turn c sid r)"
  unfolding create_after_turn_def by (intro keeps_rules)

lemma okseg_create_after_thread [keeps_rules]: "okseg c sp (create_after_thread c sid p r)"
  unfolding create_after_thread_def by (intro keeps_rules)

lemma okp_add_new [keeps_rules]: "okp c sp (add_session (new_session sid name cwd model sandbox t))"
  by (rule okp_add_session) (simp add: new_session_def)

lemma okseg_create_session [keeps_rules]: "okseg c sp (create_session c name cwd prompt model sandbox)"
  unfolding create_session_def by (intro keeps_rules)

lemma okp_create_interactive [keeps_rules]: "okp c sp (create_interactive_session c name cwd model sandbox)"
  unfolding create_interactive_session_def Let_def by (intro keeps_rules)

lemma okp_bind [keeps_rules]: "okp c sp (bind_interactive_thread c sid th tu)"
  unfolding bind_interactive_thread_def by (intro keeps_rules)

lemma okseg_error [keeps_rules]: "okseg c sp (respond_request_error i p n m)"
  unfolding respond_request_error_def by (intro keeps_rules)

lemma okp_session_of [keeps_rules]: "okp c sp (session_of_request q sid)"
  unfolding session_of_request_def Let_def by (intro keeps_rules)

lemma okseg_request [keeps_rules]: "okseg c sp (process_server_request c q sid p)"
  unfolding process_server_request_def by (intro keeps_rules)

lemma okseg_after_answer [keeps_rules]: "okseg c sp (after_answer c iid l d r)"
  unfolding after_answer_def Let_def
  by (cases r; simp only: sum.case; intro keeps_rules)

lemma segment_outcome:
  "(\<And>x. r = Inr x \<Longrightarrow> segment_ok P (k x)) \<Longrightarrow> segment_ok P (run_then (from_outcome r) k)"
  by (cases r) (simp_all add: run_then_def from_outcome_def segment_ok_def)

lemma okseg_answer:
  assumes "i_id (l_interaction l) = iid" and "\<And>x d. r = Inr (x, d) \<Longrightarrow> says l x d"
  shows "okseg c sp (run_then (from_outcome r) (\<lambda>(response, decision).
    run_then (decide c iid decision a) (\<lambda>won. if \<not> won then finish (return (RBool False))
      else await_call (CallAnswer l response) (after_answer c iid l decision))))"
proof (rule segment_outcome)
  fix y assume y: "r = Inr y"
  obtain x d where xd: "y = (x, d)"
    by (cases y)
  have "okseg c sp (run_then (decide c iid d a) (\<lambda>won. if \<not> won then finish (return (RBool False))
      else await_call (CallAnswer l x) (after_answer c iid l d)))"
    using assms y xd by (intro decide_then_answer [OF wins_decide assms(1)]) (auto intro!: keeps_rules)
  then show "okseg c sp (case y of (response, decision) \<Rightarrow>
      run_then (decide c iid decision a) (\<lambda>won. if \<not> won then finish (return (RBool False))
        else await_call (CallAnswer l response) (after_answer c iid l decision)))"
    by (simp add: xd)
qed

lemma okseg_resolve [keeps_rules]: "okseg c sp (resolve_interaction c iid a al ans)"
  unfolding resolve_interaction_def
proof (rule segment_run_then_post)
  show "triple (orch_inv c sp) (gets (\<lambda>s. map_of (live s) iid))
      (\<lambda>found s. \<forall>l. found = Some l \<longrightarrow> i_id (l_interaction l) = iid)"
    by (auto simp: triple_def gets_def orch_inv_def live_agrees_def dest!: map_of_SomeD)
  show "segment_from (orch_inv c sp) (\<lambda>s. \<forall>l. found = Some l \<longrightarrow> i_id (l_interaction l) = iid)
     (case found of None \<Rightarrow> finish (return (RBool False))
      | Some l \<Rightarrow> run_then (from_outcome (resolution (i_kind (l_interaction l)) (q_params (l_request l)) al ans))
          (\<lambda>(response, decision). run_then (decide c iid decision a)
            (\<lambda>won. if \<not> won then finish (return (RBool False))
              else await_call (CallAnswer l response) (after_answer c iid l decision))))" for found
  proof (cases found)
    case None
    then show ?thesis by (simp add: segment_from_ok segment_finish)
  next
    case (Some l)
    show ?thesis
    proof (cases "i_id (l_interaction l) = iid")
      case True
      then have "okseg c sp (run_then (from_outcome (resolution (i_kind (l_interaction l)) (q_params (l_request l)) al ans))
          (\<lambda>(response, decision). run_then (decide c iid decision a)
            (\<lambda>won. if \<not> won then finish (return (RBool False))
              else await_call (CallAnswer l response) (after_answer c iid l decision))))"
        by (rule okseg_answer) (auto simp: says_def Let_def)
      then show ?thesis using Some by (simp add: segment_from_ok)
    qed (simp add: segment_from_def Some)
  qed
qed

lemma okseg_terminal [keeps_rules]: "okseg c sp (resolve_terminal_request c q x)"
  unfolding resolve_terminal_request_def find_live_by_request_id_def
  by (rule segment_run_then, rule keeps_gets, rule segment_case_option, rule segment_finish, rule keeps_return,
      rule segment_outcome, rule decide_then_answer [OF wins_decide refl], simp add: says_def)
    (intro keeps_rules)+

text \<open>The timeout loop, by induction on the entries that are left.\<close>

lemma okseg_after_denial: "okseg c sp rest \<Longrightarrow> okseg c sp (after_denial c iid l rest r)"
  unfolding after_denial_def Let_def
  by (cases r; simp only: sum.case; intro keeps_rules)

lemma okseg_after_input: "okseg c sp rest \<Longrightarrow> okseg c sp (after_input_expired c sid rest r)"
  unfolding after_input_expired_def
  by (cases r; simp only: sum.case; intro keeps_rules)

lemma okseg_input_expired:
  assumes "okseg c sp rest"
  shows "okseg c sp (case session of
      None \<Rightarrow> after_input_expired c sid rest (Inr [])
    | Some v \<Rightarrow> if opt_or (s_thread_id v) [] \<noteq> [] \<and> opt_or (s_turn_id v) [] \<noteq> []
        then await_call (CallInterruptTurn (the (s_thread_id v)) (the (s_turn_id v))) (after_input_expired c sid rest)
        else after_input_expired c sid rest (Inr []))"
  by (rule segment_case_option, rule okseg_after_input [OF assms], rule segment_if, rule segment_await)
    (simp_all add: okseg_after_input [OF assms])

text \<open>What the expiry of an interaction records: the denial, or that its input was given up.\<close>

abbreviation expiry_decision :: "interaction_kind \<Rightarrow> string outcome" where
  "expiry_decision kind \<equiv> (if kind = USER_INPUT then Inr ''submitted'' else denial_decision kind)"

lemma decide_expired_post:
  "triple (orch_inv c sp) (decide_expired c t l iid)
     (\<lambda>won s. won \<longrightarrow> (\<exists>d. expiry_decision (i_kind (l_interaction l)) = Inr d \<and> ready_for iid d s))"
proof (cases "expiry_decision (i_kind (l_interaction l))")
  case (Inl e)
  then show ?thesis
    by (auto simp: triple_def decide_expired_def Let_def bnd_def from_outcome_def)
next
  case (Inr d)
  show ?thesis
    using wins_decide_expired [OF Inr] unfolding wins_def Inr by simp
qed

lemma okseg_expire_each:
  "(\<And>k l. (k, l) \<in> set entries \<Longrightarrow> i_id (l_interaction l) = k) \<Longrightarrow> okseg c sp (expire_each c t entries expired)"
proof (induction entries arbitrary: expired)
  case Nil
  then show ?case by (simp add: segment_finish)
next
  case (Cons entry rest)
  obtain iid l where e: "entry = (iid, l)" by (cases entry)
  have id: "i_id (l_interaction l) = iid" using Cons.prems e by simp
  have rest: "okseg c sp (expire_each c t rest ex)" for ex
    using Cons.prems by (intro Cons.IH) auto
  have deny: "segment_from (orch_inv c sp)
      (\<lambda>s. \<exists>d. expiry_decision (i_kind (l_interaction l)) = Inr d \<and> ready_for iid d s)
      (run_then (from_outcome (denial_response (i_kind (l_interaction l)) (q_params (l_request l)))) (\<lambda>response.
        await_call (CallAnswer l response) (after_denial c iid l (expire_each c t rest ex))))"
    if kind: "i_kind (l_interaction l) \<noteq> USER_INPUT" for ex
  proof (cases "denial_response (i_kind (l_interaction l)) (q_params (l_request l))")
    case (Inl e)
    then show ?thesis
      by (auto simp: segment_from_def run_then_def from_outcome_def)
  next
    case (Inr x)
    have "segment_from (orch_inv c sp) (ready_for iid d)
        (await_call (CallAnswer l x) (after_denial c iid l (expire_each c t rest ex)))"
      if "denial_decision (i_kind (l_interaction l)) = Inr d" for d
      using that Inr by (intro await_answer [OF id _ okseg_after_denial [OF rest]]) (simp add: says_def)
    then show ?thesis
      using kind Inr by (auto simp: segment_from_def run_then_def from_outcome_def)
  qed
  have ask: "okseg c sp (run_then (read_store (store_get_session sid)) (\<lambda>session.
      case session of
        None \<Rightarrow> after_input_expired c sid (expire_each c t rest ex) (Inr [])
      | Some v \<Rightarrow> if opt_or (s_thread_id v) [] \<noteq> [] \<and> opt_or (s_turn_id v) [] \<noteq> []
        then await_call (CallInterruptTurn (the (s_thread_id v)) (the (s_turn_id v)))
          (after_input_expired c sid (expire_each c t rest ex))
        else after_input_expired c sid (expire_each c t rest ex) (Inr [])))" for sid ex
    by (rule segment_run_then [OF okp_read okseg_input_expired [OF rest]])
  show ?case
  proof (cases "t < i_expires_at (l_interaction l)")
    case True
    then show ?thesis using rest by (simp add: e)
  next
    case False
    show ?thesis
      unfolding expire_each.simps e Let_def fst_conv snd_conv if_not_P [OF False]
    proof (rule segment_run_then_post)
      show "triple (orch_inv c sp) (decide_expired c t l iid)
          (\<lambda>won s. won \<longrightarrow> (\<exists>d. expiry_decision (i_kind (l_interaction l)) = Inr d \<and> ready_for iid d s))"
        by (rule decide_expired_post)
    qed (use rest deny ask in \<open>auto simp: segment_from_ok\<close>)
  qed
qed

lemma okseg_expire [keeps_rules]: "okseg c sp (expire_due_interactions c t)"
  unfolding expire_due_interactions_def
proof (rule segment_run_then)
  show "okp c sp (case t of None \<Rightarrow> utc_now c | Some t \<Rightarrow> return t)" by (intro keeps_rules)
  show "okseg c sp (run_then (gets live) (\<lambda>entries. expire_each c u (sort_key fst entries) []))" for u
  proof (rule segment_run_then_post)
    show "triple (orch_inv c sp) (gets live) (\<lambda>entries s. \<forall>(k, l)\<in>set entries. i_id (l_interaction l) = k)"
      by (auto simp: triple_def gets_def orch_inv_def live_agrees_def)
    show "segment_from (orch_inv c sp) (\<lambda>s. \<forall>(k, l)\<in>set entries. i_id (l_interaction l) = k)
        (expire_each c u (sort_key fst entries) [])" for entries
    proof (cases "\<forall>(k, l)\<in>set entries. i_id (l_interaction l) = k")
      case True
      then show ?thesis by (intro segment_from_ok okseg_expire_each) auto
    next
      case False
      then show ?thesis unfolding segment_from_def by blast
    qed
  qed
qed

lemma okseg_cancel [keeps_rules]: "okseg c sp (cancel_session c sid)"
  unfolding cancel_session_def by (intro keeps_rules)

lemma okp_close_interactive [keeps_rules]: "okp c sp (close_interactive_session c sid)"
  unfolding close_interactive_session_def by (intro keeps_rules)

lemma inv_strict: "orch_inv c True s \<Longrightarrow> orch_inv c sp s" "orch_inv c True s \<Longrightarrow> orch_inv c sp (s\<lparr>started := b\<rparr>)"
  by (simp_all add: orch_inv_def answered_ids_def)

lemma reconcile_no_pending:
  "store_reconcile_startup t nw st = Inr (r, st') \<Longrightarrow> i \<in> set (interactions st') \<Longrightarrow> \<not> is_pending i"
  by (auto simp: store_reconcile_startup_def with_connection_split set_update_where split: if_splits)

lemma inv_reconciled:
  assumes "orch_inv c sp s" "store_reconcile_startup t nw (orc_store s) = Inr (r, st')"
  shows "orch_inv c True (s\<lparr>orc_store := st'\<rparr>)"
proof -
  have "orch_inv c sp (s\<lparr>orc_store := st'\<rparr>)"
    by (rule quiet_inv [OF quiet_reconcile [OF assms(2)] assms(1)])
  moreover have "pending_live st' (live s)"
    using reconcile_no_pending [OF assms(2)] by (simp add: pending_live_def)
  ultimately show ?thesis by (simp add: orch_inv_def)
qed

lemma okp_finish_start [keeps_rules]: "okp c sp (finish_start c)"
  unfolding finish_start_def
proof (rule keeps_bnd [OF okp_utc_now], rule keepsI)
  fix t s assume s: "orch_inv c sp s"
  let ?rest = "\<lambda>rec. bnd (for_each (fst rec) (\<lambda>sid. emit c SESSION_INTERRUPTED sid None S_INTERRUPTED
      ''interrupted during daemon restart'')) (\<lambda>_. modify (\<lambda>s. s\<lparr>started := True\<rparr>))"
  have rest: "orch_inv c sp (snd (?rest rec s1))" if "orch_inv c True s1" for rec s1
  proof -
    let ?m = "for_each (fst rec) (\<lambda>sid. emit c SESSION_INTERRUPTED sid None S_INTERRUPTED
        ''interrupted during daemon restart'')"
    have "okp c True ?m" by (intro keeps_rules)
    then have "orch_inv c True (snd (?m s1))" using that unfolding keeps_def by blast
    then show ?thesis
      by (cases "?m s1"; cases "fst (?m s1)") (auto simp: bnd_def modify_def intro: inv_strict)
  qed
  show "orch_inv c sp (snd (bnd (write_store (store_reconcile_startup (Some t) t)) ?rest s))"
  proof (cases "store_reconcile_startup (Some t) t (orc_store s)")
    case (Inl e)
    then have "write_store (store_reconcile_startup (Some t) t) s = (Inl e, s)" by (simp add: write_store_def)
    then show ?thesis using s by (simp add: bnd_run)
  next
    case (Inr r)
    then obtain rec st' where r: "store_reconcile_startup (Some t) t (orc_store s) = Inr (rec, st')"
      by (cases r) simp
    then have "write_store (store_reconcile_startup (Some t) t) s = (Inr rec, s\<lparr>orc_store := st'\<rparr>)"
      by (simp add: write_store_def)
    then show ?thesis using rest [OF inv_reconciled [OF s r]] by (simp add: bnd_run)
  qed
qed

lemma okseg_start [keeps_rules]: "okseg c sp (start c)"
  unfolding start_def by (intro keeps_rules)

lemma okseg_close_app_server [keeps_rules]: "okseg c sp close_app_server"
  unfolding close_app_server_def by (intro keeps_rules)

lemma okseg_close [keeps_rules]: "okseg c sp close"
  unfolding close_def by (intro keeps_rules)

lemma okseg_consumer_failed [keeps_rules]: "okseg c sp (consumer_failed c e)"
  unfolding consumer_failed_def by (intro keeps_rules)

lemma okseg_consume_request [keeps_rules]: "okseg c sp (consume_request c q)"
  unfolding segment_ok_def
proof (intro allI impI)
  fix s assume s: "orch_inv c sp s"
  obtain s' t where r: "process_server_request c q None None s = (s', t)"
    by (cases "process_server_request c q None None s")
  then have "orch_inv c sp s'" "safe (orch_inv c sp) t"
    using okseg_request [of c sp q None None] s unfolding segment_ok_def by (metis fst_conv snd_conv)+
  then show "orch_inv c sp (fst (consume_request c q s)) \<and> safe (orch_inv c sp) (snd (consume_request c q s))"
    using segment_catch_task [OF okseg_consumer_failed] by (simp add: consume_request_def r segment_ok_def)
qed

lemma okseg_consume_notification [keeps_rules]: "okseg c sp (consume_notification c n)"
  unfolding consume_notification_def by (intro keeps_rules)

lemma okseg_monitor [keeps_rules]: "okseg c sp (monitor_app_server c)"
  unfolding monitor_app_server_def Let_def by (intro keeps_rules)

lemma okseg_handler: "okseg c sp (start_handler c h)"
  by (cases h; simp only: start_handler.simps; intro keeps_rules)

lemma environment_inv: "environment s s' \<Longrightarrow> orch_inv c sp s \<Longrightarrow> orch_inv c sp s'"
proof (induction rule: environment.induct)
  case (app_server s b)
  then show ?case by (auto intro: inv_frame)
next
  case (take_event s e es)
  then show ?case by (simp add: orch_inv_def answered_ids_def)
next
  case (store s st)
  then show ?case by (blast intro: quiet_inv quiet_others)
qed

interpretation orch: handlers "orch_inv c sp" "start_handler c" environment for c sp
  by unfold_locales (auto intro: okseg_handler environment_inv)

text \<open>Where the orchestrator starts: the store a previous process left, not yet reconciled.\<close>

lemma initial_inv:
  assumes "store_wf st" "coherent st"
  shows "orch_inv c False (initial st)"
  using assms by (simp add: orch_inv_def initial_def answered_ids_def live_agrees_def pending_live_def
      map_filter_def)

lemma pending_live_entry:
  assumes inv: "orch_inv c sp s" and "started s" and i: "i \<in> set (interactions (orc_store s))" "is_pending i"
  shows "\<exists>l. map_of (live s) (i_id i) = Some l \<and> i_key (l_interaction l) = i_key i"
proof -
  have "i_id i \<in> fst ` set (live s)" using inv assms(2) i by (simp add: orch_inv_def pending_live_def)
  then obtain l where l: "map_of (live s) (i_id i) = Some l"
    by (metis domIff dom_map_of_conv_image_fst not_Some_eq)
  then have "(i_id i, l) \<in> set (live s)" by (rule map_of_SomeD)
  then obtain r where r: "r \<in> set (interactions (orc_store s))" "i_key (l_interaction l) = i_key r"
    "i_id (l_interaction l) = i_id i"
    using inv by (fastforce simp: orch_inv_def live_agrees_def)
  have "distinct (map i_id (interactions (orc_store s)))"
    using inv by (simp add: orch_inv_def store_wf_def wf_interactions_def)
  then have "r = i" using unique_row [of i_id "interactions (orc_store s)" r i] r i(1) by simp
  then show ?thesis using l r by simp
qed

end
