(* ===== verification/Orchestrator_Properties.thy ===== *)
theory Orchestrator_Properties
  imports Orchestrator_Invariant
begin

text \<open>
  The properties of the orchestrator over every interleaving of its coroutines, with every reply
  or failure of the outside calls, and what single methods achieve. The example is a script: a
  start, an interactive session bound to a thread, a request for an approval, its answer.
\<close>

subsection \<open>Runs\<close>

definition orch_run :: "orchestrator_config \<Rightarrow> codex_store \<Rightarrow> orchestrator \<Rightarrow> bool" where
  "orch_run c st s \<longleftrightarrow> (\<exists>ts. (loop (start_handler c) environment)\<^sup>*\<^sup>* (initial st, []) (s, ts))"

lemma orch_run_inv: "orch_run c st s \<Longrightarrow> guarded_reachable st \<Longrightarrow> orch_inv c False s"
  unfolding orch_run_def
  using orch.reachable_inv initial_inv guarded_reachable_wf guarded_reachable_coherent by blast

lemma script_run: "orch_run c st (perform (start_handler c) script (initial st))"
  unfolding orch_run_def by (rule perform_loop)

definition ex_config :: orchestrator_config where
  "ex_config = \<lparr>c_timeout_seconds = 1800, c_queue_capacity = 2, c_delay = 0, c_now = (\<lambda>n. int n),
     c_new_id = (\<lambda>n. if n = 0 then ''s1'' else ''i1'')\<rparr>"

definition ex_approval :: server_request where
  "ex_approval = \<lparr>q_id = IdInt 7, q_method = ''item/commandExecution/requestApproval'',
     q_params = []\<rparr>"

definition ex_script :: "(handler \<times> string outcome list) list" where
  "ex_script =
     [(HStart, [Inr [], Inr []]),
      (HCreateInteractive ''demo'' ''/tmp'' None ''workspace-write'', []),
      (HBind ''s1'' ''t1'' None, []),
      (HRequest ex_approval (Some ''s1'') (Some ''gateway''), [])]"

definition ex_asked :: orchestrator where
  "ex_asked = perform (start_handler ex_config) ex_script (initial empty_store)"

definition ex_answered :: orchestrator where
  "ex_answered = perform (start_handler ex_config)
     [(HResolve ''i1'' ''ou_1'' (Some True) None, [Inr []])] ex_asked"

lemma ex_asked_run: "orch_run ex_config empty_store ex_asked"
  unfolding ex_asked_def by (rule script_run)

lemma perform_append: "perform f (xs @ ys) s = perform f ys (perform f xs s)"
proof (induction xs arbitrary: s)
  case (Cons x xs)
  then show ?case by (cases x) simp
qed simp

lemma ex_answered_run: "orch_run ex_config empty_store ex_answered"
  unfolding ex_answered_def ex_asked_def perform_append [symmetric] by (rule script_run)

lemma ex_answered_ids: "answered_ids ex_answered = [''i1'']"
  by code_simp

lemma ex_asked_facts:
  "started ex_asked" "map i_id (interactions (orc_store ex_asked)) = [''i1'']"
  "list_all is_pending (interactions (orc_store ex_asked))"
  "map i_kind (interactions (orc_store ex_asked)) = [EXEC_APPROVAL]"
  "\<not> store_closed (orc_store ex_asked)"
  by code_simp+

subsection \<open>Safety over every interleaving\<close>

text \<open>
  C9. Whatever the interleaving of Lark replies, terminal replies, timeouts, notifications and failures,
  the orchestrator answers an interaction at most once, and never before it is decided: an
  interaction that is still pending in the store has not been answered.
\<close>

theorem interaction_answered_once:
  assumes "guarded_reachable st" "orch_run c st s"
  shows "distinct (answered_ids s) \<and>
    (\<forall>i\<in>set (interactions (orc_store s)). is_pending i \<longrightarrow> i_id i \<notin> set (answered_ids s))"
proof -
  have inv: "orch_inv c False s" by (rule orch_run_inv [OF assms(2,1)])
  then have "distinct (answered_ids s)" "set (answered_ids s) \<subseteq> closed_ids (orc_store s)" "store_wf (orc_store s)"
    by (simp_all add: orch_inv_def)
  then show ?thesis using closed_not_pending by blast
qed

theorem interaction_answered_once_ex: "answered_ids ex_answered = [''i1''] \<and> distinct (answered_ids ex_answered)"
  using interaction_answered_once [OF guarded_reachable.fresh ex_answered_run] ex_answered_ids by simp

text \<open>
  C10. Once the orchestrator has started, every interaction pending in the store can be answered: it has
  a live entry, under its identifier, for the same session, request and kind.
\<close>

theorem pending_interaction_live:
  assumes "guarded_reachable st" "orch_run c st s" "started s"
    "i \<in> set (interactions (orc_store s))" "is_pending i"
  shows "\<exists>l. map_of (live s) (i_id i) = Some l \<and> i_key (l_interaction l) = i_key i"
  by (rule pending_live_entry [OF orch_run_inv [OF assms(2,1)] assms(3-5)])

theorem pending_interaction_live_ex: "\<exists>l. map_of (live ex_asked) ''i1'' = Some l"
proof -
  obtain i where "i \<in> set (interactions (orc_store ex_asked))" "is_pending i" "i_id i = ''i1''"
    using ex_asked_facts(2,3) by (cases "interactions (orc_store ex_asked)") auto
  then show ?thesis
    using pending_interaction_live [OF guarded_reachable.fresh ex_asked_run ex_asked_facts(1)] by metis
qed

text \<open>
  In every reachable state the store the orchestrator works on is well formed, its sessions agree with
  their interactions, and the event queue holds no more events than its capacity.
\<close>

theorem orchestrator_state_ok:
  assumes "guarded_reachable st" "orch_run c st s"
  shows "store_wf (orc_store s) \<and> coherent (orc_store s) \<and> length (events s) \<le> nat (c_queue_capacity c)"
  using orch_run_inv [OF assms(2,1)] by (simp add: orch_inv_def)

theorem orchestrator_state_ok_ex: "store_wf (orc_store ex_answered) \<and> coherent (orc_store ex_answered)"
  using orchestrator_state_ok [OF guarded_reachable.fresh ex_answered_run] by blast

text \<open>
  C12. The agent is told what was decided: whatever the interleaving, an answer the orchestrator sends is built from a
  decision, of a user, of the terminal or of a timeout, and the store holds that decision, closed, for the interaction
  that asked.
\<close>

theorem answers_follow_decisions:
  assumes "guarded_reachable st" "orch_run c st s" "CallAnswer l response \<in> set (calls s)"
  shows "\<exists>row decision d. row \<in> set (interactions (orc_store s)) \<and> i_id row = i_id (l_interaction l) \<and>
    i_status row \<in> {I_RESOLVED, I_EXPIRED} \<and> says l response decision \<and>
    normalize_decision (i_kind row) decision = Inr d \<and> i_decision row = Some d"
proof -
  have "call_recorded (orc_store s) (CallAnswer l response)"
    using orch_run_inv [OF assms(2,1)] assms(3) unfolding orch_inv_def list_all_iff by blast
  then show ?thesis
    unfolding call_recorded.simps answer_recorded_def decided_as_def by blast
qed

theorem answers_follow_decisions_ex:
  "\<exists>l decision row. says l (JObj [(''decision'', JStr ''accept'')]) decision \<and>
    row \<in> set (interactions (orc_store ex_answered)) \<and> i_decision row = Some APPROVED \<and>
    normalize_decision (i_kind row) decision = Inr APPROVED"
proof -
  have rows: "map i_decision (interactions (orc_store ex_answered)) = [Some APPROVED]"
    by code_simp
  have "\<exists>p q l. calls ex_answered = [p, q, CallAnswer l (JObj [(''decision'', JStr ''accept'')])]"
    by (rule exI, rule exI, rule exI) code_simp
  then obtain l where "CallAnswer l (JObj [(''decision'', JStr ''accept'')]) \<in> set (calls ex_answered)"
    by (metis list.set_intros(1,2))
  from answers_follow_decisions [OF guarded_reachable.fresh ex_answered_run this]
  obtain row decision d where "row \<in> set (interactions (orc_store ex_answered))"
    "says l (JObj [(''decision'', JStr ''accept'')]) decision"
    "normalize_decision (i_kind row) decision = Inr d" "i_decision row = Some d"
    by blast
  moreover have "i_decision row \<in> set (map i_decision (interactions (orc_store ex_answered)))"
    using calculation(1) by simp
  ultimately show ?thesis
    unfolding rows by auto
qed

subsection \<open>What single methods achieve\<close>

lemma decide_run:
  assumes "store_resolve_interaction_and_refresh_session iid d a (c_now c (clock_reads s)) I_RESOLVED (orc_store s) =
    Inr (True, st')"
  shows "decide c iid d a s = (Inr True, s\<lparr>clock_reads := Suc (clock_reads s), orc_store := st',
    live := dict_pop iid (live s)\<rparr>)"
  using assms
  by (simp add: decide_def bnd_def utc_now_def write_store_def pop_live_def modify_def return_def)

lemma resolve_pending_sends:
  assumes inv: "orch_inv c False s" and "started s" "\<not> store_closed (orc_store s)"
    "i \<in> set (interactions (orc_store s))" "is_pending i" "map_of (live s) (i_id i) = Some l"
    "resolution (i_kind i) (q_params (l_request l)) allow answers = Inr (response, d)"
  shows "\<exists>s' k row e. resolve_interaction c (i_id i) actor allow answers s = (s', Await (CallAnswer l response) k) \<and>
    calls s' = calls s @ [CallAnswer l response] \<and> map_of (live s') (i_id i) = None \<and>
    event_dedupe (orc_store s') = event_dedupe (orc_store s) \<and>
    normalize_decision (i_kind i) d = Inr e \<and> row \<in> set (interactions (orc_store s')) \<and>
    row = decide_row I_RESOLVED e actor (c_now c (clock_reads s)) i"
proof -
  have wf: "store_wf (orc_store s)" using inv by (simp add: orch_inv_def)
  have kind: "i_kind (l_interaction l) = i_kind i"
    using pending_live_entry [OF inv assms(2,4,5)] assms(6) by auto
  obtain e where e: "normalize_decision (i_kind i) d = Inr e"
    using decision_texts_normal [OF resolution_texts [OF assms(7)]] by blast
  let ?t = "c_now c (clock_reads s)"
  obtain st' where st': "store_resolve_interaction_and_refresh_session (i_id i) d actor ?t I_RESOLVED (orc_store s) =
      Inr (True, st')"
    "interactions st' = update_where (\<lambda>j. j = i) (decide_row I_RESOLVED e actor ?t) (interactions (orc_store s))"
    using decide_pending [OF wf assms(3,4,5), of I_RESOLVED d actor ?t] e by auto
  have dedupe: "event_dedupe st' = event_dedupe (orc_store s)"
    using st'(1) by (auto simp: writer_defs refresh_session_def Let_def split: if_splits sum.splits option.splits)
  let ?s1 = "s\<lparr>clock_reads := Suc (clock_reads s), orc_store := st', live := dict_pop (i_id i) (live s)\<rparr>"
  have "resolve_interaction c (i_id i) actor allow answers s =
      await_call (CallAnswer l response) (after_answer c (i_id i) l d) ?s1"
    using assms(6,7) kind decide_run [OF st'(1)]
    by (simp add: resolve_interaction_def run_then_def gets_def from_outcome_def)
  moreover have "decide_row I_RESOLVED e actor ?t i \<in> set (interactions st')"
    using assms(4) unfolding st'(2) set_update_where by (auto intro: rev_image_eqI)
  ultimately show ?thesis using e dedupe by (simp add: await_call_def)
qed

text \<open>
  C11. A pending interaction is answered when its answer arrives: with an answer that fits the request, the
  payload goes to the party that asked, the decision and the actor are recorded, and the entry is
  gone before any other coroutine runs.
\<close>

theorem answer_is_sent:
  assumes "guarded_reachable st" "orch_run c st s" "started s" "\<not> store_closed (orc_store s)"
    "i \<in> set (interactions (orc_store s))" "is_pending i" "map_of (live s) (i_id i) = Some l"
    "resolution (i_kind i) (q_params (l_request l)) allow answers = Inr (response, d)"
  shows "\<exists>s' k row e. resolve_interaction c (i_id i) actor allow answers s = (s', Await (CallAnswer l response) k) \<and>
    calls s' = calls s @ [CallAnswer l response] \<and> map_of (live s') (i_id i) = None \<and>
    normalize_decision (i_kind i) d = Inr e \<and> row \<in> set (interactions (orc_store s')) \<and>
    row = decide_row I_RESOLVED e actor (c_now c (clock_reads s)) i"
  using resolve_pending_sends [OF orch_run_inv [OF assms(2,1)] assms(3-8), of actor] by blast

theorem answer_is_sent_ex:
  "\<exists>s' l k. resolve_interaction ex_config ''i1'' ''ou_1'' (Some True) None ex_asked =
     (s', Await (CallAnswer l (JObj [(''decision'', JStr ''accept'')])) k)"
proof -
  obtain i where i: "interactions (orc_store ex_asked) = [i]" "i_id i = ''i1''"
    using ex_asked_facts(2) by (cases "interactions (orc_store ex_asked)") auto
  have p: "is_pending i" "i_kind i = EXEC_APPROVAL" using i ex_asked_facts(3,4) by simp_all
  have mem: "i \<in> set (interactions (orc_store ex_asked))" using i by simp
  obtain l where l: "map_of (live ex_asked) (i_id i) = Some l"
    using pending_live_entry [OF orch_run_inv [OF ex_asked_run guarded_reachable.fresh] ex_asked_facts(1) mem p(1)]
    by blast
  have r: "resolution (i_kind i) (q_params (l_request l)) (Some True) None =
      Inr (command_approval_response True, ''approved'')"
    by (simp add: p(2) resolution_def)
  show ?thesis
    using answer_is_sent [OF guarded_reachable.fresh ex_asked_run ex_asked_facts(1,5) mem p(1) l r, of "''ou_1''"]
    by (auto simp: i(2) command_approval_response_def)
qed

lemma expire_skips:
  "\<forall>entry\<in>set xs. t < i_expires_at (l_interaction (snd entry)) \<Longrightarrow> expire_each c t (xs @ ys) ids = expire_each c t ys ids"
  by (induction xs) (simp_all add: Let_def)

lemma first_due_entry:
  assumes "distinct (map fst d)" and "map_of d key = Some l"
    and "\<forall>entry\<in>set d. fst entry < key \<longrightarrow> t < i_expires_at (l_interaction (snd entry))"
  obtains rest where "expire_each c t (sort_key fst d) ids = expire_each c t ((key, l) # rest) ids"
proof -
  have "(key, l) \<in> set (sort_key fst d)"
    using map_of_SomeD [OF assms(2)] by simp
  then obtain xs ys where d: "sort_key fst d = xs @ (key, l) # ys"
    by (blast dest: split_list)
  have "sorted (map fst (sort_key fst d))" "distinct (map fst (sort_key fst d))"
    using assms(1) by (simp_all add: distinct_map)
  then have "\<forall>entry\<in>set xs. fst entry < key"
    unfolding d by (force simp: sorted_append less_le)
  moreover have "set xs \<subseteq> set d"
    using arg_cong [OF d, of set] by auto
  ultimately have "expire_each c t (sort_key fst d) ids = expire_each c t ((key, l) # ys) ids"
    unfolding d using assms(3) by (intro expire_skips) blast
  then show thesis
    by (rule that)
qed



definition active_ids :: "codex_store \<Rightarrow> string set" where
  "active_ids st = s_id ` {v \<in> set (sessions st). active_row v}"

lemma claim_active_ids:
  assumes "store_claim_session_terminal sid t su p ts st = Inr (r, st')"
  shows "active_ids st' \<subseteq> active_ids st - {sid}"
proof -
  let ?f = "\<lambda>s. s\<lparr>s_status := t, s_summary := safe_summary su, s_updated_at := ts\<rparr>"
  have t: "\<not> is_active t" and st': "sessions st' = update_where (\<lambda>s. s_id s = sid \<and> active_row s) ?f (sessions st)"
    using assms by (auto simp: store_claim_session_terminal_def with_connection_split
        dest!: terminal_not_active split: if_splits)
  show ?thesis
  proof
    fix x assume "x \<in> active_ids st'"
    then obtain v where v: "v \<in> set (sessions st')" "active_row v" "x = s_id v"
      unfolding active_ids_def by blast
    then obtain w where w: "w \<in> set (sessions st)" "v = (if s_id w = sid \<and> active_row w then ?f w else w)"
      unfolding st' set_update_where by blast
    then have "\<not> (s_id w = sid \<and> active_row w)" using v(2) t by (cases "s_id w = sid \<and> active_row w") simp_all
    then show "x \<in> active_ids st - {sid}" using v w unfolding active_ids_def by auto
  qed
qed

lemma enqueue_sessions: "store_enqueue_outbox ty p s ag sn i nx cr nw st = Inr (n, st') \<Longrightarrow> sessions st' = sessions st"
  by (auto simp: store_enqueue_outbox_def with_connection_split split: if_splits)

lemma emit_sessions: "emit c ty sid iid t su s = (Inr u, s') \<Longrightarrow> sessions (orc_store s') = sessions (orc_store s)"
  unfolding emit_def orc_Inr by (elim exE conjE) (simp add: enqueue_sessions)

lemma interrupt_active_ids:
  assumes "interrupt_session c sid su s = (Inr b, s')" "store_wf (orc_store s)"
  shows "active_ids (orc_store s') \<subseteq> active_ids (orc_store s) - {sid}"
proof -
  obtain session where get: "store_get_session sid (orc_store s) = Inr session"
    using assms(1) by (auto simp: interrupt_session_def orc_Inr)
  show ?thesis
  proof (cases "is_active_session session")
    case False
    then have "s' = s" using assms(1) get by (auto simp: interrupt_session_def orc_Inr)
    moreover have "sid \<notin> active_ids (orc_store s)"
    proof
      assume "sid \<in> active_ids (orc_store s)"
      then obtain v where v: "v \<in> set (sessions (orc_store s))" "active_row v" "s_id v = sid"
        by (auto simp: active_ids_def)
      then have "session = Some v"
        using get assms(2) find_key_unique [of s_id "sessions (orc_store s)" v sid]
        by (auto simp: store_get_session_def with_connection_def store_wf_def split: if_splits)
      then show False using False v(2) by (simp add: is_active_session_def)
    qed
    ultimately show ?thesis by simp
  next
    case True
    then obtain st' r t where cl: "store_claim_session_terminal sid S_INTERRUPTED su I_CANCELLED t (orc_store s) = Inr (r, st')"
      and "sessions (orc_store s') = sessions st'"
      using assms(1) get
      by (auto simp: interrupt_session_def orc_Inr drop_live_for_session_def dest!: emit_sessions split: if_splits)
    then show ?thesis using claim_active_ids [OF cl] by (simp add: active_ids_def)
  qed
qed

lemma interrupt_each_active_ids:
  assumes "for_each vs (\<lambda>v. if active_row v then bnd (interrupt_session c (s_id v) su) (\<lambda>_. return ()) else return ()) s =
      (Inr u, s')" and "orch_inv c sp s"
  shows "active_ids (orc_store s') \<subseteq> active_ids (orc_store s) - s_id ` {v \<in> set vs. active_row v}"
  using assms
proof (induction vs arbitrary: s)
  case Nil
  then show ?case by (simp add: orc_Inr)
next
  case (Cons v vs)
  let ?each = "\<lambda>v. if active_row v then bnd (interrupt_session c (s_id v) su) (\<lambda>_. return ()) else return ()"
  obtain s1 where v: "?each v s = (Inr (), s1)" and vs: "for_each vs ?each s1 = (Inr u, s')"
    using Cons.prems(1) by (auto simp: bnd_Inr)
  have "okp c sp (?each v)" by (intro keeps_rules)
  then have inv: "orch_inv c sp s1" using v Cons.prems(2) unfolding keeps_def by (metis snd_conv)
  have "active_ids (orc_store s1) \<subseteq> active_ids (orc_store s) - (if active_row v then {s_id v} else {})"
    using v Cons.prems(2) interrupt_active_ids [of c "s_id v" su s]
    by (auto simp: orc_Inr orch_inv_def split: if_splits)
  then show ?case using Cons.IH [OF vs inv] by (auto split: if_splits)
qed

text \<open>
  When the app-server dies or a consumer fails, no session is left running: once the interruption of the
  active sessions has gone through, every session of the store has ended.
\<close>


theorem all_sessions_interrupted:
  assumes "guarded_reachable st" "orch_run c st s" "interrupt_active c summary s = (Inr u, s')"
  shows "\<forall>v\<in>set (sessions (orc_store s')). \<not> is_active (s_status v)"
proof -
  have inv: "orch_inv c False s" by (rule orch_run_inv [OF assms(2,1)])
  obtain vs where vs: "store_list_sessions None (orc_store s) = Inr vs"
    and each: "for_each vs (\<lambda>v. if active_row v then bnd (interrupt_session c (s_id v) summary) (\<lambda>_. return ())
      else return ()) s = (Inr u, s')"
    using assms(3) by (auto simp: interrupt_active_def orc_Inr)
  have "set vs = set (sessions (orc_store s))"
    using vs by (auto simp: store_list_sessions_def with_connection_def split: if_splits)
  then have "active_ids (orc_store s') = {}"
    using interrupt_each_active_ids [OF each inv] by (auto simp: active_ids_def)
  then show ?thesis by (auto simp: active_ids_def)
qed

definition ex_interrupted :: orchestrator where
  "ex_interrupted = snd (interrupt_active ex_config ''gone'' ex_asked)"

theorem all_sessions_interrupted_ex:
  "map s_status (sessions (orc_store ex_interrupted)) = [S_INTERRUPTED] \<and>
   \<not> is_active (s_status (hd (sessions (orc_store ex_interrupted))))"
proof -
  have a: "interrupt_active ex_config ''gone'' ex_asked = (Inr (), ex_interrupted)"
    unfolding ex_interrupted_def by (rule prod_eqI) (code_simp, simp)
  have b: "map s_status (sessions (orc_store ex_interrupted)) = [S_INTERRUPTED]"
    by code_simp
  then have "hd (sessions (orc_store ex_interrupted)) \<in> set (sessions (orc_store ex_interrupted))"
    by (cases "sessions (orc_store ex_interrupted)") simp_all
  then show ?thesis using b all_sessions_interrupted [OF guarded_reachable.fresh ex_asked_run a] by blast
qed

end
