(* ===== verification/Interactive.thy ===== *)
theory Interactive
  imports Gateway Orchestrator_Properties
begin

text \<open>
  \<^verbatim>\<open>modules/codex/codex_interactive.py\<close>: the manager that owns one app-server process and one gateway per
  terminal session, and the callbacks that join the gateway to the orchestrator. The process
  factory, the listener check, the gateway and the orchestrator are outside calls; a process is
  known by the handle its creation returned. \<open>m_loopback\<close> is the check of the endpoint the
  factory made (\<^verbatim>\<open>urlsplit\<close>), a parameter.
\<close>

subsection \<open>The callbacks of one session\<close>

text \<open>The thread a successful \<^verbatim>\<open>thread/start\<close> or \<^verbatim>\<open>thread/resume\<close> of the terminal binds.\<close>

definition bound_thread :: "string \<Rightarrow> json_object \<Rightarrow> json_object \<Rightarrow> string option" where
  "bound_thread method params payload =
     (if \<not> has_key payload ''result'' \<or> has_key payload ''error'' then None
      else if method = ''thread/start''
      then (case jget payload ''result'' of
              JObj r \<Rightarrow> (case jget r ''thread'' of JObj t \<Rightarrow> nonempty_str (jget t ''id'') | _ \<Rightarrow> None)
            | _ \<Rightarrow> None)
      else if method = ''thread/resume'' then nonempty_str (jget params ''threadId'')
      else None)"

definition on_upstream_response ::
  "orchestrator_config \<Rightarrow> string \<Rightarrow> string \<Rightarrow> json_object \<Rightarrow> json_object \<Rightarrow> unit osync" where
  "on_upstream_response c session_id method params payload =
     (case bound_thread method params payload of
        None \<Rightarrow> return ()
      | Some thread_id \<Rightarrow> bnd (bind_interactive_thread c session_id thread_id None) (\<lambda>_. return ()))"

definition on_server_request :: "orchestrator_config \<Rightarrow> string \<Rightarrow> server_request \<Rightarrow> segment" where
  "on_server_request c session_id request = process_server_request c request (Some session_id) (Some session_id)"

definition on_notification :: "orchestrator_config \<Rightarrow> server_notification \<Rightarrow> unit osync" where
  "on_notification c n = process_notification c n"

datatype terminal_action = AnswerError rpc_id json | ResolveTerminal rpc_id json

definition on_terminal_response :: "rpc_id \<Rightarrow> json_object \<Rightarrow> terminal_action" where
  "on_terminal_response request_id result_or_error =
     (if \<not> has_key result_or_error ''result''
      then AnswerError request_id (case jget result_or_error ''error'' of JObj e \<Rightarrow> JObj e | _ \<Rightarrow> JObj [])
      else ResolveTerminal request_id (jget result_or_error ''result''))"

subsection \<open>The manager\<close>

record manager_config =
  m_codex_path :: string
  m_which :: "string \<Rightarrow> string option"
  m_endpoint :: "nat \<Rightarrow> string"
  m_loopback :: "string \<Rightarrow> unit outcome"
  m_gateway :: "string \<Rightarrow> string \<times> string"

datatype manager_call =
    MSpawn string string
  | MWaitListener string string
  | MCreateInteractive string string "string option" string
  | MGatewayStart string
  | MGatewayClose string
  | MLock
  | MTerminate string
  | MWaitProcess string
  | MKill string
  | MCloseInteractive string

record manager =
  m_sessions :: "(string \<times> string) list"
  m_started :: bool
  m_closed :: bool
  m_endpoints :: nat
  m_exited :: "string set"
  m_calls :: "manager_call list"

record descriptor =
  d_session_id :: string
  d_endpoint :: string
  d_token :: string

datatype manager_value = MDescriptor descriptor | MBool bool | MNone

type_synonym 'a msync = "(manager, 'a) sync"
type_synonym msegment = "manager \<Rightarrow> manager \<times> (manager, manager_call, string, manager_value) task"

definition new_manager :: manager where
  "new_manager = \<lparr>m_sessions = [], m_started = False, m_closed = False, m_endpoints = 0, m_exited = {},
     m_calls = []\<rparr>"

definition mcall :: "manager_call \<Rightarrow> unit msync" where
  "mcall q = modify (\<lambda>m. m\<lparr>m_calls := m_calls m @ [q]\<rparr>)"

definition mawait :: "manager_call \<Rightarrow> (string outcome \<Rightarrow> msegment) \<Rightarrow> msegment" where
  "mawait q k m = (m\<lparr>m_calls := m_calls m @ [q]\<rparr>, Await q k)"

text \<open>A call inside \<^verbatim>\<open>try\<close>: \<open>failed\<close> is the handler.\<close>

definition mtry :: "manager_call \<Rightarrow> (exn \<Rightarrow> msegment) \<Rightarrow> (string \<Rightarrow> msegment) \<Rightarrow> msegment" where
  "mtry q failed rest = mawait q (\<lambda>reply. case reply of Inl e \<Rightarrow> failed e | Inr x \<Rightarrow> rest x)"

definition propagate :: "exn \<Rightarrow> msegment" where
  "propagate e = finish (raise e)"

definition start_manager :: "unit msync" where
  "start_manager = bnd (gets m_closed) (\<lambda>is_closed.
     if is_closed then raise (Exn ''RuntimeError'' ''interactive session manager is closed'')
     else modify (\<lambda>m. m\<lparr>m_started := True\<rparr>))"

definition stop_process :: "string \<Rightarrow> (exn \<Rightarrow> msegment) \<Rightarrow> msegment \<Rightarrow> msegment" where
  "stop_process process failed rest =
     run_then (gets (\<lambda>m. process \<in> m_exited m)) (\<lambda>exited.
       if exited then rest
       else run_then (mcall (MTerminate process)) (\<lambda>_.
         mtry (MWaitProcess process)
           (\<lambda>e. if exn_type e = ''TimeoutError''
             then run_then (mcall (MKill process)) (\<lambda>_. mtry (MWaitProcess process) failed (\<lambda>_. rest))
             else failed e)
           (\<lambda>_. rest)))"

text \<open>The \<^verbatim>\<open>except\<close> clause of \<^verbatim>\<open>create_session\<close>: what was acquired is given back, then the exception goes on.\<close>

definition abandon :: "bool \<Rightarrow> string \<Rightarrow> string option \<Rightarrow> exn \<Rightarrow> msegment" where
  "abandon has_gateway process session_id e =
     (let close_session = (case session_id of
            None \<Rightarrow> propagate e
          | Some sid \<Rightarrow> mtry (MCloseInteractive sid) propagate (\<lambda>_. propagate e));
          stop = stop_process process propagate close_session
      in if has_gateway then mtry (MGatewayClose (opt_or session_id [])) propagate (\<lambda>_. stop) else stop)"

definition prepare_endpoint :: "manager_config \<Rightarrow> (string \<times> string) msync" where
  "prepare_endpoint c =
     bnd (gets (\<lambda>m. m_started m \<and> \<not> m_closed m)) (\<lambda>running.
     if \<not> running then raise (Exn ''RuntimeError'' ''interactive session manager is not running'')
     else case m_which c (m_codex_path c) of
       None \<Rightarrow> raise (Exn ''RuntimeError'' ''Codex executable is unavailable'')
     | Some executable \<Rightarrow>
         bnd (\<lambda>m. (Inr (m_endpoint c (m_endpoints m)), m\<lparr>m_endpoints := Suc (m_endpoints m)\<rparr>)) (\<lambda>endpoint.
         bnd (from_outcome (m_loopback c endpoint)) (\<lambda>_. return (executable, endpoint))))"

definition create_managed_session ::
  "manager_config \<Rightarrow> string \<Rightarrow> string \<Rightarrow> string option \<Rightarrow> string \<Rightarrow> msegment" where
  "create_managed_session c name cwd model sandbox =
     run_then (prepare_endpoint c)
       (\<lambda>(executable, endpoint).
         mtry (MSpawn executable endpoint) propagate (\<lambda>process.
         mtry (MWaitListener endpoint process) (abandon False process None) (\<lambda>_.
         mtry (MCreateInteractive name cwd model sandbox) (abandon False process None) (\<lambda>sid.
         mtry (MGatewayStart sid) (abandon True process (Some sid)) (\<lambda>_.
         mtry MLock (abandon True process (Some sid)) (\<lambda>_.
         run_then (modify (\<lambda>m. m\<lparr>m_sessions := dict_set sid process (m_sessions m)\<rparr>)) (\<lambda>_.
           finish (return (MDescriptor \<lparr>d_session_id = sid, d_endpoint = fst (m_gateway c sid),
             d_token = snd (m_gateway c sid)\<rparr>)))))))))"

text \<open>\<^verbatim>\<open>close_session\<close>, followed by \<open>rest\<close> with its result, or by \<open>failed\<close> with its exception.\<close>

definition close_managed_session :: "string \<Rightarrow> (bool \<Rightarrow> msegment) \<Rightarrow> (exn \<Rightarrow> msegment) \<Rightarrow> msegment" where
  "close_managed_session session_id rest failed =
     mtry MLock failed (\<lambda>_.
       run_then (\<lambda>m. (Inr (map_of (m_sessions m) session_id),
                      m\<lparr>m_sessions := dict_pop session_id (m_sessions m)\<rparr>)) (\<lambda>runtime.
         case runtime of
           None \<Rightarrow> rest False
         | Some process \<Rightarrow>
             mtry (MGatewayClose session_id) failed (\<lambda>_.
             stop_process process failed
               (mtry (MCloseInteractive session_id) failed (\<lambda>_. rest True)))))"

primrec close_each :: "string list \<Rightarrow> msegment" where
  "close_each [] = finish (return MNone)"
| "close_each (sid # sids) = close_managed_session sid (\<lambda>_. close_each sids) (\<lambda>_. close_each sids)"

definition close_manager :: msegment where
  "close_manager =
     run_then (gets (\<lambda>m. (m_closed m, map fst (m_sessions m)))) (\<lambda>(is_closed, sids).
       if is_closed then finish (return MNone)
       else run_then (modify (\<lambda>m. m\<lparr>m_closed := True\<rparr>)) (\<lambda>_. close_each sids))"

subsection \<open>Nothing is left behind\<close>

text \<open>
  Feeding replies to a task that starts with a call; the calls are kept in order, so what a failed
  creation did can be read off them.
\<close>

lemma feed_mtry:
  "feed [] (mtry q failed rest m) = (m\<lparr>m_calls := m_calls m @ [q]\<rparr>,
     Await q (\<lambda>reply. case reply of Inl e \<Rightarrow> failed e | Inr x \<Rightarrow> rest x))"
  "feed (Inr x # rs) (mtry q failed rest m) = feed rs (rest x (m\<lparr>m_calls := m_calls m @ [q]\<rparr>))"
  "feed (Inl e # rs) (mtry q failed rest m) = feed rs (failed e (m\<lparr>m_calls := m_calls m @ [q]\<rparr>))"
  by (simp_all add: mtry_def mawait_def)

lemma feed_propagate: "feed rs (propagate e m) = (m, Done (Inl e))"
  by (cases rs) (simp_all add: propagate_def finish_def raise_def)

lemma run_then_mcall: "run_then (mcall q) k m = k () (m\<lparr>m_calls := m_calls m @ [q]\<rparr>)"
  by (simp add: run_then_def mcall_def modify_def)

lemmas run_then_simps = run_then_mcall run_then_modify


definition ex_manager :: manager_config where
  "ex_manager = \<lparr>m_codex_path = ''codex'', m_which = (\<lambda>p. Some p), m_endpoint = (\<lambda>_. ''ws://127.0.0.1:1''),
     m_loopback = (\<lambda>_. Inr ()), m_gateway = (\<lambda>_. (''ws://127.0.0.1:2'', ''t''))\<rparr>"


subsection \<open>The terminal's answer to a request that is not live\<close>



end
