(* ===== verification/App_Server_Client.thy ===== *)
theory App_Server_Client
  imports Redaction Orchestrator
begin

text \<open>
  \<^verbatim>\<open>modules/codex/app_server/app_server_client.py\<close>: the JSON-RPC client of one app-server process.
  The state is the object's fields; \<open>a_written\<close> lists the lines written to the process. No section
  that holds the lifecycle lock suspends, so such a section is straight-line code. The readers
  and the wait task are handlers, one per line, chunk or exit; the startup and cleanup tasks are
  coroutines that run once. \<^verbatim>\<open>json.loads\<close> and the decoding of bytes are parameters of the configuration.

  A future is settled once and then read by the coroutine that waits for it. \<^verbatim>\<open>await future\<close> is a
  suspension; where it is resumed without an outcome, the wait was cancelled.
\<close>

subsection \<open>Configuration and state\<close>

datatype lifecycle = NEW_CLIENT | STARTING_CLIENT | RUNNING_CLIENT | CLOSING_CLIENT | CLOSED_CLIENT

datatype future = Waiting | Settled "json outcome"

datatype task_state = NotCreated | Created | Begun | Finished

record client_config =
  a_codex_path :: string
  a_version :: string
  a_max_line :: nat
  a_tail_lines :: nat
  a_request_capacity :: nat
  a_notification_capacity :: nat
  a_loads :: "string \<Rightarrow> json outcome"
  a_decode :: "string \<Rightarrow> string"

text \<open>
  \<open>a_process\<close> is \<open>None\<close> without a process, and \<open>Some r\<close> with one whose \<^verbatim>\<open>returncode\<close> is \<open>r\<close>. An entry
  of the tail of the error output is its redacted text and whether the mark of a truncation follows.
\<close>

record client =
  a_lifecycle :: lifecycle
  a_process :: "int option option"
  a_next_id :: int
  a_pending :: "(int \<times> future) list"
  a_requests :: "server_request list"
  a_notifications :: "server_notification list"
  a_stderr_buffer :: "string \<times> bool"
  a_stderr_tail :: "(string \<times> bool) list"
  a_startup :: task_state
  a_cleanup :: task_state
  a_reading :: bool
  a_draining :: bool
  a_waiting :: bool
  a_explicit_close :: bool
  a_terminal_error :: "exn option"
  a_closing_error :: "exn option"
  a_closed_event :: bool
  a_written :: "string list"

datatype client_call =
    CSpawn string
  | CStartup
  | CCleanup
  | CWriteLock
  | CDrain
  | CFuture int
  | CClosed
  | CGather
  | CTerminate
  | CWaitProcess
  | CKill
  | CStdinClosed

datatype client_reply = COk | CDrainCancelled

type_synonym 'a csync = "(client, 'a) sync"
type_synonym ctask = "(client, client_call, client_reply, json) task"
type_synonym csegment = "client \<Rightarrow> client \<times> ctask"

definition new_client :: client where
  "new_client = \<lparr>a_lifecycle = NEW_CLIENT, a_process = None, a_next_id = 1, a_pending = [], a_requests = [],
     a_notifications = [], a_stderr_buffer = ([], False), a_stderr_tail = [], a_startup = NotCreated,
     a_cleanup = NotCreated, a_reading = False, a_draining = False, a_waiting = False, a_explicit_close = False, a_terminal_error = None,
     a_closing_error = None, a_closed_event = False, a_written = []\<rparr>"

definition client_init :: "int \<Rightarrow> int \<Rightarrow> int \<Rightarrow> int \<Rightarrow> int \<Rightarrow> client outcome" where
  "client_init max_line_bytes stderr_tail_lines request_capacity notification_capacity close_timeout =
     (if max_line_bytes \<le> 0 then value_error ''max_line_bytes must be positive''
      else if stderr_tail_lines \<le> 0 then value_error ''stderr_tail_lines must be positive''
      else if request_capacity \<le> 0 \<or> notification_capacity \<le> 0 then value_error ''queue capacity must be positive''
      else if close_timeout \<le> 0 then value_error ''close_timeout must be positive''
      else Inr new_client)"

subsection \<open>The exceptions\<close>

definition protocol_error :: "string \<Rightarrow> exn" where
  "protocol_error m = Exn ''ProtocolError'' m"

definition process_exited :: "int option \<Rightarrow> string option \<Rightarrow> exn" where
  "process_exited code message =
     (let detail = (case message of Some m \<Rightarrow> (if m = [] then ''Codex app-server process exited'' else m)
                    | None \<Rightarrow> ''Codex app-server process exited'')
      in Exn ''ProcessExitedError''
           (case code of None \<Rightarrow> detail | Some r \<Rightarrow> detail @ '' with return code '' @ show_int r))"

definition server_rpc_error :: "int \<Rightarrow> string \<Rightarrow> exn" where
  "server_rpc_error code message =
     Exn ''ServerRpcError'' (''Codex app-server RPC error '' @ show_int code @ '': '' @ message)"

definition closed_error :: exn where
  "closed_error = Exn ''RuntimeError'' ''Codex app-server client is closed''"

definition returncode_of :: "client \<Rightarrow> int option" where
  "returncode_of s = (case a_process s of None \<Rightarrow> None | Some r \<Rightarrow> r)"

definition closing_exception :: "client \<Rightarrow> exn" where
  "closing_exception s =
     (case a_closing_error s of Some e \<Rightarrow> e | None \<Rightarrow> process_exited (returncode_of s) (Some ''client closed''))"

definition is_running :: "client \<Rightarrow> bool" where
  "is_running s \<longleftrightarrow> a_lifecycle s = RUNNING_CLIENT \<and> a_terminal_error s = None \<and> a_process s = Some None"

subsection \<open>Failing and closing\<close>

fun fail_future :: "exn \<Rightarrow> future \<Rightarrow> future" where
  "fail_future e Waiting = Settled (Inl e)"
| "fail_future e (Settled r) = Settled r"

definition fail_pending :: "exn \<Rightarrow> unit csync" where
  "fail_pending e = modify (\<lambda>s. s\<lparr>a_pending := map (\<lambda>(i, f). (i, fail_future e f)) (a_pending s)\<rparr>)"

definition ensure_cleanup_task :: "unit csync" where
  "ensure_cleanup_task =
     modify (\<lambda>s. s\<lparr>a_cleanup := (if a_cleanup s = NotCreated then Created else a_cleanup s)\<rparr>)"

definition record_terminal_error :: "exn \<Rightarrow> unit csync" where
  "record_terminal_error e =
     bnd (gets (\<lambda>s. a_explicit_close s \<or> a_lifecycle s = CLOSED_CLIENT)) (\<lambda>ignored.
     if ignored then return ()
     else bnd (gets a_terminal_error) (\<lambda>terminal.
       bnd (if terminal = None
            then bnd (modify (\<lambda>s. s\<lparr>a_terminal_error := Some e, a_closing_error := Some e\<rparr>)) (\<lambda>_. fail_pending e)
            else return ()) (\<lambda>_.
       bnd (modify (\<lambda>s. s\<lparr>a_lifecycle := CLOSING_CLIENT\<rparr>)) (\<lambda>_. ensure_cleanup_task))))"

definition raise_closed :: "'a csync" where
  "raise_closed = (\<lambda>s. (Inl (case a_terminal_error s of Some e \<Rightarrow> e | None \<Rightarrow> closed_error), s))"

definition ensure_available :: "bool \<Rightarrow> unit csync" where
  "ensure_available startup_call = (\<lambda>s.
     if a_lifecycle s = CLOSED_CLIENT \<or> a_lifecycle s = CLOSING_CLIENT then raise_closed s
     else if a_lifecycle s = NEW_CLIENT \<or> a_process s = None
     then raise (Exn ''RuntimeError'' ''Codex app-server client is not started'') s
     else if a_lifecycle s = STARTING_CLIENT \<and> \<not> startup_call
     then raise (Exn ''RuntimeError'' ''Codex app-server client is still starting'') s
     else case returncode_of s of
            None \<Rightarrow> return () s
          | Some r \<Rightarrow> bnd (record_terminal_error (process_exited (Some r) None))
                        (\<lambda>_. raise (process_exited (Some r) None)) s)"

definition process_for_write :: "bool \<Rightarrow> unit csync" where
  "process_for_write allow_starting = (\<lambda>s.
     if a_lifecycle s = CLOSING_CLIENT then raise (closing_exception s) s
     else if a_lifecycle s = CLOSED_CLIENT then raise_closed s
     else if a_lifecycle s = NEW_CLIENT \<or> a_process s = None
     then raise (Exn ''RuntimeError'' ''Codex app-server client is not started'') s
     else if a_lifecycle s = STARTING_CLIENT \<and> \<not> allow_starting
     then raise (Exn ''RuntimeError'' ''Codex app-server client is still starting'') s
     else case returncode_of s of
            None \<Rightarrow> return () s
          | Some r \<Rightarrow> raise (process_exited (Some r) None) s)"

subsection \<open>Writing\<close>

definition cawait :: "client_call \<Rightarrow> (client_reply outcome \<Rightarrow> csegment) \<Rightarrow> csegment" where
  "cawait q k s = (s, Await q k)"

definition is_pipe_error :: "exn \<Rightarrow> bool" where
  "is_pipe_error e \<longleftrightarrow> exn_type e = ''BrokenPipeError'' \<or> exn_type e = ''ConnectionResetError''"

text \<open>The handler around the whole of \<^verbatim>\<open>_write_impl\<close>.\<close>

definition write_failed :: "(exn \<Rightarrow> csegment) \<Rightarrow> exn \<Rightarrow> csegment" where
  "write_failed failed e =
     (if is_pipe_error e
      then run_then (gets (\<lambda>s. process_exited (returncode_of s) None)) (\<lambda>error.
             run_then (record_terminal_error error) (\<lambda>_. failed error))
      else failed e)"

definition write_line :: "string \<Rightarrow> unit csync" where
  "write_line l = modify (\<lambda>s. s\<lparr>a_written := a_written s @ [l]\<rparr>)"

definition write_message :: "bool \<Rightarrow> json_object \<Rightarrow> (exn \<Rightarrow> csegment) \<Rightarrow> csegment \<Rightarrow> csegment" where
  "write_message allow_starting message failed rest =
     cawait CWriteLock (\<lambda>r. case r of
       Inl e \<Rightarrow> write_failed failed e
     | Inr _ \<Rightarrow> run_try (process_for_write allow_starting) (write_failed failed) (\<lambda>_.
         run_then (write_line (dumps '','' '':'' (JObj message))) (\<lambda>_.
           cawait CDrain (\<lambda>r. case r of
             Inl e \<Rightarrow> write_failed failed e
           | Inr CDrainCancelled \<Rightarrow> run_then (gets closing_exception) (write_failed failed)
           | Inr _ \<Rightarrow> rest))))"

subsection \<open>Requests\<close>

definition request_message :: "int \<Rightarrow> string \<Rightarrow> json_object \<Rightarrow> json_object" where
  "request_message i method params =
     [(''jsonrpc'', JStr ''2.0''), (''id'', JInt i), (''method'', JStr method), (''params'', JObj params)]"

definition new_future :: "int csync" where
  "new_future = (\<lambda>s. (Inr (a_next_id s),
     s\<lparr>a_next_id := a_next_id s + 1, a_pending := dict_set (a_next_id s) Waiting (a_pending s)\<rparr>))"

definition pop_future :: "int \<Rightarrow> unit csync" where
  "pop_future i = modify (\<lambda>s. s\<lparr>a_pending := dict_pop i (a_pending s)\<rparr>)"

text \<open>
  The wait for the future, and the \<^verbatim>\<open>finally\<close> clause; a reply \<open>Inl e\<close> is the time-out or the
  cancellation of the wait.
\<close>

definition await_future :: "int \<Rightarrow> (exn \<Rightarrow> csegment) \<Rightarrow> (json \<Rightarrow> csegment) \<Rightarrow> csegment" where
  "await_future i failed rest =
     cawait (CFuture i) (\<lambda>r.
       run_then (gets (\<lambda>s. map_of (a_pending s) i)) (\<lambda>f.
       run_then (pop_future i) (\<lambda>_.
         case r of
           Inl e \<Rightarrow> failed e
         | Inr _ \<Rightarrow> (case f of
             Some (Settled (Inr v)) \<Rightarrow> rest v
           | Some (Settled (Inl e)) \<Rightarrow> failed e
           | _ \<Rightarrow> failed (Exn ''CancelledError'' [])))))"

definition request ::
  "bool \<Rightarrow> string \<Rightarrow> json_object \<Rightarrow> (exn \<Rightarrow> csegment) \<Rightarrow> (json \<Rightarrow> csegment) \<Rightarrow> csegment" where
  "request startup_call method params failed rest =
     run_try (ensure_available startup_call) failed (\<lambda>_.
     run_then new_future (\<lambda>i.
       write_message startup_call (request_message i method params)
         (\<lambda>e. run_then (pop_future i) (\<lambda>_. failed e))
         (await_future i failed rest)))"

definition cfail :: "exn \<Rightarrow> csegment" where
  "cfail e = finish (raise e)"

definition nested_id :: "json \<Rightarrow> string \<Rightarrow> json outcome" where
  "nested_id result key =
     (case result of
        JObj r \<Rightarrow> (case jget r key of
            JObj n \<Rightarrow> (case jget n ''id'' of
                JStr i \<Rightarrow> Inr (JStr i)
              | _ \<Rightarrow> Inl (protocol_error (key @ '' response is missing '' @ key @ ''.id'')))
          | _ \<Rightarrow> Inl (protocol_error (key @ '' response is missing '' @ key @ ''.id'')))
      | _ \<Rightarrow> Inl (protocol_error (key @ '' response result must be an object'')))"

definition start_thread :: "string \<Rightarrow> string option \<Rightarrow> string \<Rightarrow> csegment" where
  "start_thread cwd model sandbox =
     (if sandbox \<notin> {''read-only'', ''workspace-write''}
      then cfail (Exn ''ValueError'' ''sandbox must be one of: read-only, workspace-write'')
      else request False ''thread/start''
        ([(''approvalPolicy'', JStr ''on-request''), (''cwd'', JStr cwd), (''sandbox'', JStr sandbox)] @
         (case model of None \<Rightarrow> [] | Some m \<Rightarrow> [(''model'', JStr m)]))
        cfail (\<lambda>v. finish (from_outcome (nested_id v ''thread''))))"

definition start_turn :: "string \<Rightarrow> string \<Rightarrow> csegment" where
  "start_turn thread_id prompt =
     request False ''turn/start''
       [(''threadId'', JStr thread_id),
        (''input'', JArr [JObj [(''type'', JStr ''text''), (''text'', JStr prompt)]])]
       cfail (\<lambda>v. finish (from_outcome (nested_id v ''turn'')))"

definition interrupt_turn :: "string \<Rightarrow> string \<Rightarrow> csegment" where
  "interrupt_turn thread_id turn_id =
     request False ''turn/interrupt'' [(''threadId'', JStr thread_id), (''turnId'', JStr turn_id)]
       cfail (\<lambda>_. finish (return JNull))"

definition respond :: "rpc_id \<Rightarrow> json \<Rightarrow> csegment" where
  "respond i result =
     run_then (ensure_available False) (\<lambda>_.
       write_message False [(''jsonrpc'', JStr ''2.0''), (''id'', id_json i), (''result'', result)]
         cfail (finish (return JNull)))"

definition respond_error :: "rpc_id \<Rightarrow> int \<Rightarrow> string \<Rightarrow> json option \<Rightarrow> csegment" where
  "respond_error i code message data =
     run_then (ensure_available False) (\<lambda>_.
       write_message False
         [(''jsonrpc'', JStr ''2.0''), (''id'', id_json i),
          (''error'', JObj ([(''code'', JInt code), (''message'', JStr message)] @
             (case data of None \<Rightarrow> [] | Some d \<Rightarrow> [(''data'', d)])))]
         cfail (finish (return JNull)))"

subsection \<open>Start\<close>

definition refuse_closing :: "unit csync" where
  "refuse_closing = bnd (gets a_lifecycle) (\<lambda>l. if l = CLOSING_CLIENT then raise closed_error else return ())"

text \<open>The startup task; \<open>failed\<close> is its \<^verbatim>\<open>except BaseException\<close> clause.\<close>

definition startup_ended :: "unit csync" where
  "startup_ended = modify (\<lambda>s. s\<lparr>a_startup := Finished\<rparr>)"

definition client_startup_failed :: "exn \<Rightarrow> csegment" where
  "client_startup_failed e =
     run_then (bnd (gets a_explicit_close) (\<lambda>x. if x then return () else record_terminal_error e)) (\<lambda>_.
       run_then startup_ended (\<lambda>_. cfail e))"

definition initialize_params :: "client_config \<Rightarrow> json_object" where
  "initialize_params c =
     [(''clientInfo'', JObj [(''name'', JStr ''lark-bot''), (''title'', JStr ''Lark Bot''),
        (''version'', JStr (a_version c))]),
      (''capabilities'', JObj [(''experimentalApi'', JBool True)])]"

text \<open>
  The end of the startup. Only the startup task runs it, which has begun and not ended: where that
  fails, the step is no step of the program.
\<close>

definition startup_succeeded :: "unit csync" where
  "startup_succeeded =
     bnd (gets a_startup) (\<lambda>t. if t \<noteq> Begun then raise (Exn ''InvalidStateError'' [])
       else modify (\<lambda>s. s\<lparr>a_lifecycle := RUNNING_CLIENT, a_startup := Finished\<rparr>))"

definition start_impl :: "client_config \<Rightarrow> csegment" where
  "start_impl c =
     cawait (CSpawn (a_codex_path c)) (\<lambda>r. case r of
       Inl e \<Rightarrow> client_startup_failed e
     | Inr _ \<Rightarrow> run_then (modify (\<lambda>s. s\<lparr>a_process := Some None\<rparr>)) (\<lambda>_.
         run_try refuse_closing client_startup_failed (\<lambda>_.
         run_then (modify (\<lambda>s. s\<lparr>a_reading := True, a_draining := True, a_waiting := True\<rparr>)) (\<lambda>_.
         request True ''initialize'' (initialize_params c) client_startup_failed (\<lambda>_.
         run_try refuse_closing client_startup_failed (\<lambda>_.
         write_message True [(''jsonrpc'', JStr ''2.0''), (''method'', JStr ''initialized'')] client_startup_failed (
         run_try refuse_closing client_startup_failed (\<lambda>_.
         run_then startup_succeeded (\<lambda>_. finish (return JNull))))))))))"


definition run_startup_task :: "client_config \<Rightarrow> csegment" where
  "run_startup_task c =
     run_then (gets a_startup) (\<lambda>t.
       if t = Created then run_then (modify (\<lambda>s. s\<lparr>a_startup := Begun\<rparr>)) (\<lambda>_. start_impl c)
       else finish (return JNull))"

definition start_client :: "csegment" where
  "start_client =
     run_then (gets a_lifecycle) (\<lambda>l.
       if l = RUNNING_CLIENT then finish (return JNull)
       else if l = CLOSING_CLIENT \<or> l = CLOSED_CLIENT then cfail closed_error
       else run_then (modify (\<lambda>s. if a_startup s = NotCreated
                then s\<lparr>a_lifecycle := STARTING_CLIENT, a_startup := Created\<rparr> else s)) (\<lambda>_.
         cawait CStartup (\<lambda>r. case r of
           Inr _ \<Rightarrow> finish (return JNull)
         | Inl e \<Rightarrow> run_then (gets (\<lambda>s. a_startup s = Finished \<and> a_cleanup s \<noteq> NotCreated)) (\<lambda>wait.
             if wait then cawait CCleanup (\<lambda>r. case r of Inl e2 \<Rightarrow> cfail e2 | Inr _ \<Rightarrow> cfail e)
             else cfail e))))"

subsection \<open>Reading the output\<close>

definition set_future :: "int \<Rightarrow> json outcome \<Rightarrow> unit csync" where
  "set_future i r = modify (\<lambda>s. s\<lparr>a_pending := dict_set i (Settled r) (a_pending s)\<rparr>)"

definition response_error :: "json \<Rightarrow> exn outcome" where
  "response_error j =
     (case j of
        JObj e \<Rightarrow> (case (jget e ''code'', jget e ''message'') of
            (JInt code, JStr message) \<Rightarrow> Inr (server_rpc_error code message)
          | _ \<Rightarrow> Inl (protocol_error ''invalid JSON-RPC error''))
      | _ \<Rightarrow> Inl (protocol_error ''invalid JSON-RPC error''))"

definition handle_response :: "json_object \<Rightarrow> unit csync" where
  "handle_response m =
     (case jget m ''id'' of
        JInt i \<Rightarrow>
          if has_key m ''result'' = has_key m ''error''
          then raise (protocol_error ''response must contain exactly one of result or error'')
          else bnd (gets (\<lambda>s. map_of (a_pending s) i)) (\<lambda>f.
            if f \<noteq> Some Waiting then return ()
            else if has_key m ''error''
            then bnd (from_outcome (response_error (jget m ''error''))) (\<lambda>e. set_future i (Inl e))
            else set_future i (Inr (jget m ''result'')))
      | _ \<Rightarrow> raise (protocol_error ''invalid response id''))"

definition enqueue_request :: "client_config \<Rightarrow> server_request \<Rightarrow> unit csync" where
  "enqueue_request c q = (\<lambda>s.
     case put_nowait (a_request_capacity c) (a_requests s) q of
       None \<Rightarrow> raise (protocol_error ''server request queue capacity exceeded'') s
     | Some qs \<Rightarrow> (Inr (), s\<lparr>a_requests := qs\<rparr>))"

definition enqueue_notification :: "client_config \<Rightarrow> server_notification \<Rightarrow> unit csync" where
  "enqueue_notification c n = (\<lambda>s.
     case put_nowait (a_notification_capacity c) (a_notifications s) n of
       None \<Rightarrow> raise (protocol_error ''server notification queue capacity exceeded'') s
     | Some ns \<Rightarrow> (Inr (), s\<lparr>a_notifications := ns\<rparr>))"

definition message_params :: "json_object \<Rightarrow> json" where
  "message_params m = (if has_key m ''params'' then jget m ''params'' else JObj [])"

definition handle_envelope :: "client_config \<Rightarrow> json \<Rightarrow> unit csync" where
  "handle_envelope c envelope =
     (case envelope of
        JObj m \<Rightarrow>
          let answers = has_key m ''result'' \<or> has_key m ''error'' in
          if has_key m ''jsonrpc'' \<and> jget m ''jsonrpc'' \<noteq> JStr ''2.0''
          then raise (protocol_error ''invalid JSON-RPC envelope'')
          else if has_key m ''id'' \<and> \<not> has_key m ''method'' \<and> answers then handle_response m
          else if has_key m ''method'' \<and> answers
          then raise (protocol_error ''server message cannot contain response fields'')
          else (case (jget m ''method'', message_params m) of
              (JStr method, JObj params) \<Rightarrow>
                if has_key m ''id''
                then (case valid_id (jget m ''id'') of
                    None \<Rightarrow> raise (protocol_error ''invalid server request id'')
                  | Some i \<Rightarrow> enqueue_request c \<lparr>q_id = i, q_method = method, q_params = params\<rparr>)
                else enqueue_notification c \<lparr>n_method = method, n_params = params\<rparr>
            | _ \<Rightarrow> raise (protocol_error ''invalid server message envelope''))
      | _ \<Rightarrow> raise (protocol_error ''invalid JSON-RPC envelope''))"

text \<open>
  One round of \<^verbatim>\<open>_read_stdout\<close>: \<open>Inl e\<close> is what \<^verbatim>\<open>readline\<close> raised. An exception ends the task;
  the two classes of the client are recorded first.
\<close>

definition stdout_line :: "client_config \<Rightarrow> string outcome \<Rightarrow> unit csync" where
  "stdout_line c line =
     (case line of
        Inl e \<Rightarrow> raise (if exn_type e = ''ValueError'' then protocol_error ''app-server output line exceeded limit'' else e)
      | Inr l \<Rightarrow>
          if l = [] then bnd (gets returncode_of) (\<lambda>r. raise (process_exited r None))
          else if length l > a_max_line c then raise (protocol_error ''app-server output line exceeded limit'')
          else (case a_loads c l of
              Inl e \<Rightarrow> raise (if exn_type e \<in> {''UnicodeDecodeError'', ''JSONDecodeError''}
                then protocol_error ''app-server emitted malformed JSON'' else e)
            | Inr envelope \<Rightarrow> handle_envelope c envelope))"

definition reader_stopped :: "exn \<Rightarrow> unit csync" where
  "reader_stopped e =
     bnd (modify (\<lambda>s. s\<lparr>a_reading := False\<rparr>)) (\<lambda>_.
       if exn_type e \<in> {''ProtocolError'', ''ProcessExitedError''} then record_terminal_error e else return ())"

definition read_stdout :: "client_config \<Rightarrow> string outcome \<Rightarrow> unit csync" where
  "read_stdout c line = (\<lambda>s.
     if a_reading s then catch (stdout_line c line) reader_stopped s else return () s)"

subsection \<open>Draining the error output\<close>

definition STDERR_ENTRY_BYTES :: nat where
  "STDERR_ENTRY_BYTES = 4096"

definition stderr_entry :: "client_config \<Rightarrow> string \<times> bool \<Rightarrow> string \<times> bool" where
  "stderr_entry c b = (redact_text (rstrip_chars [CHR 0x0D] (a_decode c (fst b))), snd b)"

definition append_stderr_entry :: "client_config \<Rightarrow> client \<Rightarrow> client" where
  "append_stderr_entry c s =
     (let tail = a_stderr_tail s @ [stderr_entry c (a_stderr_buffer s)]
      in s\<lparr>a_stderr_tail := drop (length tail - a_tail_lines c) tail\<rparr>)"

definition absorb :: "string \<times> bool \<Rightarrow> string \<Rightarrow> string \<times> bool" where
  "absorb b part = (case b of (buffered, truncated) \<Rightarrow>
     (buffered @ take (STDERR_ENTRY_BYTES - length buffered) part,
      truncated \<or> length part > STDERR_ENTRY_BYTES - length buffered))"

fun split_on :: "char \<Rightarrow> string \<Rightarrow> string list" where
  "split_on d [] = [[]]"
| "split_on d (c # cs) =
     (if c = d then [] # split_on d cs
      else (case split_on d cs of [] \<Rightarrow> [[c]] | p # ps \<Rightarrow> (c # p) # ps))"

fun drain_parts :: "client_config \<Rightarrow> string list \<Rightarrow> client \<Rightarrow> client" where
  "drain_parts c [] s = s"
| "drain_parts c [p] s = s\<lparr>a_stderr_buffer := absorb (a_stderr_buffer s) p\<rparr>"
| "drain_parts c (p # q # ps) s =
     drain_parts c (q # ps)
       ((append_stderr_entry c (s\<lparr>a_stderr_buffer := absorb (a_stderr_buffer s) p\<rparr>))\<lparr>a_stderr_buffer := ([], False)\<rparr>)"

definition drain_chunk :: "client_config \<Rightarrow> string \<Rightarrow> client \<Rightarrow> client" where
  "drain_chunk c chunk = drain_parts c (split_on (CHR 0x0A) chunk)"

text \<open>At the end of the output, what is left in the buffer is an entry too.\<close>

definition drain_end :: "client_config \<Rightarrow> client \<Rightarrow> client" where
  "drain_end c s = (if a_stderr_buffer s \<noteq> ([], False) then append_stderr_entry c s else s)"

subsection \<open>The end of the process\<close>

text \<open>The process exits: its \<^verbatim>\<open>returncode\<close> changes, which the wait task sees later.\<close>

definition process_exits :: "int \<Rightarrow> unit csync" where
  "process_exits code =
     modify (\<lambda>s. if a_process s = Some None then s\<lparr>a_process := Some (Some code)\<rparr> else s)"

definition wait_for_process :: "unit csync" where
  "wait_for_process = (\<lambda>s.
     case returncode_of s of
       Some code \<Rightarrow> if a_waiting s
         then bnd (modify (\<lambda>s. s\<lparr>a_waiting := False\<rparr>))
                (\<lambda>_. record_terminal_error (process_exited (Some code) None)) s
         else return () s
     | None \<Rightarrow> return () s)"

definition begin_close :: "unit csync" where
  "begin_close =
     bnd (gets a_lifecycle) (\<lambda>l.
       if l = CLOSED_CLIENT then return ()
       else bnd (modify (\<lambda>s. s\<lparr>a_explicit_close := True, a_lifecycle := CLOSING_CLIENT,
                   a_closing_error := Some (closing_exception s)\<rparr>)) (\<lambda>_.
            bnd (gets closing_exception) (\<lambda>e.
            bnd (fail_pending e) (\<lambda>_. ensure_cleanup_task))))"

definition close_client :: csegment where
  "close_client =
     run_then begin_close (\<lambda>_.
     run_then (gets a_cleanup) (\<lambda>t.
       if t = NotCreated then finish (return JNull)
       else cawait CCleanup (\<lambda>r. case r of Inl e \<Rightarrow> cfail e | Inr _ \<Rightarrow> finish (return JNull))))"

definition wait_closed :: csegment where
  "wait_closed =
     cawait CClosed (\<lambda>r. case r of
       Inl e \<Rightarrow> cfail e
     | Inr _ \<Rightarrow> run_then (gets a_terminal_error) (\<lambda>t. case t of Some e \<Rightarrow> cfail e | None \<Rightarrow> finish (return JNull)))"

subsection \<open>Cleanup\<close>

text \<open>A call of which the named exceptions are swallowed.\<close>

definition cquiet :: "client_call \<Rightarrow> string list \<Rightarrow> csegment \<Rightarrow> csegment" where
  "cquiet q ignored rest = cawait q (\<lambda>r. case r of
     Inl e \<Rightarrow> if exn_type e \<in> set ignored then rest else cfail e
   | Inr _ \<Rightarrow> rest)"

text \<open>
  The wait for the startup task. It ends when that task does; nothing cancels the cleanup task, so a
  resumption before that is no run of the program, and stops here.
\<close>

definition await_startup :: "csegment \<Rightarrow> csegment" where
  "await_startup rest =
     cawait CStartup (\<lambda>_. run_then (gets a_startup) (\<lambda>t.
       if t = Finished then rest else cfail (Exn ''CancelledError'' [])))"

definition startup_unfinished :: "client \<Rightarrow> bool" where
  "startup_unfinished s \<longleftrightarrow> a_startup s \<in> {Created, Begun}"

text \<open>The last step of the cleanup task, which has begun: where it has not, this is no step of the program.\<close>

definition mark_closed :: "unit csync" where
  "mark_closed = bnd (gets a_cleanup) (\<lambda>t. if t \<noteq> Begun then raise (Exn ''InvalidStateError'' [])
     else modify (\<lambda>s. s\<lparr>a_lifecycle := CLOSED_CLIENT, a_closed_event := True\<rparr>))"

definition released :: "unit csync" where
  "released = modify (\<lambda>s. s\<lparr>a_process := None\<rparr>)"

definition wait_exit :: "csegment \<Rightarrow> csegment" where
  "wait_exit rest =
     cawait CWaitProcess (\<lambda>r. case r of
       Inr _ \<Rightarrow> rest
     | Inl e \<Rightarrow> if exn_type e = ''TimeoutError''
         then cquiet CKill [''ProcessLookupError''] (cquiet CWaitProcess [] rest) else cfail e)"

definition cleanup_resources :: "csegment \<Rightarrow> csegment" where
  "cleanup_resources rest =
     run_then (modify (\<lambda>s. s\<lparr>a_reading := False, a_draining := False, a_waiting := False\<rparr>)) (\<lambda>_.
     cquiet CGather [] (
     run_then (gets a_process) (\<lambda>p. case p of
         None \<Rightarrow> run_then released (\<lambda>_. rest)
       | Some code \<Rightarrow>
           let drained = cquiet CGather [] (
                 run_then (gets a_process) (\<lambda>p.
                   let closing = cquiet CStdinClosed
                         [''AttributeError'', ''BrokenPipeError'', ''ConnectionResetError'', ''TimeoutError'']
                         (run_then released (\<lambda>_. rest))
                   in if p = Some None then wait_exit closing else cquiet CWaitProcess [] closing))
           in if code = None then cquiet CTerminate [''ProcessLookupError''] drained else drained)))"

definition finish_cleanup :: csegment where
  "finish_cleanup =
     run_then (gets startup_unfinished) (\<lambda>b.
       let mark = run_then mark_closed (\<lambda>_. finish (return JNull))
       in if b then await_startup mark else mark)"

definition cleanup_coordinator :: csegment where
  "cleanup_coordinator =
     run_then (gets (\<lambda>s. a_process s = None \<and> startup_unfinished s)) (\<lambda>b.
       if b then await_startup (cleanup_resources finish_cleanup) else cleanup_resources finish_cleanup)"

definition run_cleanup_task :: csegment where
  "run_cleanup_task =
     run_then (gets a_cleanup) (\<lambda>t.
       if t = Created then run_then (modify (\<lambda>s. s\<lparr>a_cleanup := Begun\<rparr>)) (\<lambda>_. cleanup_coordinator)
       else finish (return JNull))"

subsection \<open>Every entry of the component\<close>

datatype client_handler =
    CHStart
  | CHStartupTask
  | CHStartThread string "string option" string
  | CHStartTurn string string
  | CHInterrupt string string
  | CHRespond rpc_id json
  | CHRespondError rpc_id int string "json option"
  | CHClose
  | CHWaitClosed
  | CHCleanupTask
  | CHStdout "string outcome"
  | CHStderr string
  | CHStderrEnd
  | CHProcessExits int
  | CHWaitTask
  | CHTakeRequest
  | CHTakeNotification

definition done_with :: "unit csync \<Rightarrow> csegment" where
  "done_with m = finish (bnd m (\<lambda>_. return JNull))"

primrec client_entry :: "client_config \<Rightarrow> client_handler \<Rightarrow> csegment" where
  "client_entry c CHStart = start_client"
| "client_entry c CHStartupTask = run_startup_task c"
| "client_entry c (CHStartThread cwd model sandbox) = start_thread cwd model sandbox"
| "client_entry c (CHStartTurn thread prompt) = start_turn thread prompt"
| "client_entry c (CHInterrupt thread turn) = interrupt_turn thread turn"
| "client_entry c (CHRespond i result) = respond i result"
| "client_entry c (CHRespondError i code message data) = respond_error i code message data"
| "client_entry c CHClose = close_client"
| "client_entry c CHWaitClosed = wait_closed"
| "client_entry c CHCleanupTask = run_cleanup_task"
| "client_entry c (CHStdout l) = done_with (read_stdout c l)"
| "client_entry c (CHStderr chunk) = done_with (modify (\<lambda>s. if a_draining s then drain_chunk c chunk s else s))"
| "client_entry c CHStderrEnd =
     done_with (modify (\<lambda>s. if a_draining s then (drain_end c s)\<lparr>a_draining := False\<rparr> else s))"
| "client_entry c (CHProcessExits code) = done_with (process_exits code)"
| "client_entry c CHWaitTask = done_with wait_for_process"
| "client_entry c CHTakeRequest = done_with (modify (\<lambda>s. s\<lparr>a_requests := tl (a_requests s)\<rparr>))"
| "client_entry c CHTakeNotification = done_with (modify (\<lambda>s. s\<lparr>a_notifications := tl (a_notifications s)\<rparr>))"

section \<open>A closed client keeps nobody waiting\<close>

definition closing_state :: "client \<Rightarrow> bool" where
  "closing_state s \<longleftrightarrow> a_lifecycle s \<in> {CLOSING_CLIENT, CLOSED_CLIENT}"

definition settled :: "client \<Rightarrow> bool" where
  "settled s \<longleftrightarrow> Waiting \<notin> snd ` set (a_pending s)"

definition client_inv :: "client_config \<Rightarrow> client \<Rightarrow> bool" where
  "client_inv c s \<longleftrightarrow>
     distinct (map fst (a_pending s)) \<and> 1 \<le> a_next_id s \<and>
     fst ` set (a_pending s) \<subseteq> {1..<a_next_id s} \<and>
     (closing_state s \<longrightarrow> settled s \<and> a_cleanup s \<noteq> NotCreated) \<and>
     (a_cleanup s \<noteq> NotCreated \<longrightarrow> closing_state s) \<and>
     (a_terminal_error s \<noteq> None \<longrightarrow> closing_state s) \<and>
     (a_explicit_close s \<longrightarrow> closing_state s) \<and>
     (a_lifecycle s = CLOSED_CLIENT \<longrightarrow> \<not> startup_unfinished s) \<and>
     length (a_requests s) \<le> a_request_capacity c \<and>
     length (a_notifications s) \<le> a_notification_capacity c"

abbreviation ckeeps :: "client_config \<Rightarrow> 'a csync \<Rightarrow> bool" where
  "ckeeps c \<equiv> keeps (client_inv c)"

abbreviation cok :: "client_config \<Rightarrow> csegment \<Rightarrow> bool" where
  "cok c \<equiv> segment_ok (client_inv c)"

lemma client_frame:
  "client_inv c s \<Longrightarrow> a_pending s' = a_pending s \<Longrightarrow> a_next_id s' = a_next_id s \<Longrightarrow>
   a_lifecycle s' = a_lifecycle s \<Longrightarrow> a_cleanup s' = a_cleanup s \<Longrightarrow> a_terminal_error s' = a_terminal_error s \<Longrightarrow>
   a_explicit_close s' = a_explicit_close s \<Longrightarrow> a_startup s' = a_startup s \<Longrightarrow>
   a_requests s' = a_requests s \<Longrightarrow> a_notifications s' = a_notifications s \<Longrightarrow> client_inv c s'"
  by (simp add: client_inv_def closing_state_def settled_def startup_unfinished_def)

lemma fst_map_snd: "map (fst \<circ> (\<lambda>(i, f). (i, g f))) xs = map fst xs"
  by (induction xs) auto

lemma fst_set_map_snd: "fst ` set (map (\<lambda>(i, f). (i, g f)) xs) = fst ` set xs"
  by (force simp: image_iff)

lemma fail_future_settles: "fail_future e f \<noteq> Waiting"
  by (cases f) auto

lemma settled_fail: "settled (s\<lparr>a_pending := map (\<lambda>(i, f). (i, fail_future e f)) (a_pending s)\<rparr>)"
  using fail_future_settles by (fastforce simp: settled_def dest: sym)

lemma ckeeps_record_error [keeps_rules]: "ckeeps c (record_terminal_error e)"
proof (rule keepsI)
  fix s assume inv: "client_inv c s"
  let ?s = "snd (record_terminal_error e s)"
  show "client_inv c ?s"
  proof (cases "a_explicit_close s \<or> a_lifecycle s = CLOSED_CLIENT")
    case True
    then show ?thesis using inv by (simp add: record_terminal_error_def bnd_def sync_defs)
  next
    case open': False
    show ?thesis
    proof (cases "a_terminal_error s")
      case None
      then show ?thesis
        using open' inv settled_fail [where s = s and e = e] fst_set_map_snd [of "fail_future e" "a_pending s"]
        by (simp add: fst_map_snd record_terminal_error_def fail_pending_def ensure_cleanup_task_def bnd_def sync_defs
            client_inv_def closing_state_def settled_def)
    next
      case (Some t)
      then show ?thesis
        using open' inv
        by (simp add: record_terminal_error_def ensure_cleanup_task_def bnd_def sync_defs client_inv_def
            closing_state_def settled_def)
    qed
  qed
qed

lemma raise_closed_run: "raise_closed s = (Inl (case a_terminal_error s of Some e \<Rightarrow> e | None \<Rightarrow> closed_error), s)"
  by (simp add: raise_closed_def)

lemma ckeeps_raise_closed [keeps_rules]: "ckeeps c raise_closed"
  by (rule keepsI) (simp add: raise_closed_def)

lemma ckeeps_ensure_available [keeps_rules]: "ckeeps c (ensure_available b)"
proof (rule keepsI)
  fix s assume inv: "client_inv c s"
  have "client_inv c (snd (bnd (record_terminal_error e) (\<lambda>_. raise e) s))" for e
    using inv by (rule keepsD [rotated]) (intro keeps_rules)
  then show "client_inv c (snd (ensure_available b s))"
    using inv by (auto simp: ensure_available_def raise_closed_def sync_defs split: option.split)
qed

lemma ensure_available_Inr: "ensure_available b s = (Inr u, s') \<Longrightarrow> s' = s \<and> \<not> closing_state s"
  by (auto simp: ensure_available_def raise_closed_def closing_state_def bnd_def sync_defs
      split: if_splits option.splits sum.splits prod.splits)

lemma ckeeps_process_for_write [keeps_rules]: "ckeeps c (process_for_write b)"
  by (rule keepsI) (simp add: process_for_write_def raise_closed_def sync_defs split: option.split)

lemma ckeeps_pop [keeps_rules]: "ckeeps c (pop_future i)"
proof (rule keepsI)
  fix s assume inv: "client_inv c s"
  have sub: "set (dict_pop i (a_pending s)) \<subseteq> set (a_pending s)" by (auto simp: AList.delete_eq)
  then have "fst ` set (dict_pop i (a_pending s)) \<subseteq> fst ` set (a_pending s)"
    "snd ` set (dict_pop i (a_pending s)) \<subseteq> snd ` set (a_pending s)" by blast+
  then show "client_inv c (snd (pop_future i s))"
    using inv unfolding client_inv_def pop_future_def closing_state_def settled_def startup_unfinished_def
    by (auto simp: modify_def intro: distinct_dict_pop)
qed

lemma cok_await [keeps_rules]: "(\<And>r. cok c (k r)) \<Longrightarrow> cok c (cawait q k)"
  by (simp add: segment_ok_def cawait_def)

lemma cok_fail [keeps_rules]: "cok c (cfail e)"
  unfolding cfail_def by (intro keeps_rules)

lemma cok_write_failed [keeps_rules]: "(\<And>e. cok c (failed e)) \<Longrightarrow> cok c (write_failed failed e)"
  unfolding write_failed_def by (intro keeps_rules)

lemma ckeeps_write_line [keeps_rules]: "ckeeps c (write_line l)"
  unfolding write_line_def by (rule keeps_modify) (erule client_frame; simp)

lemma segment_case_reply [keeps_rules]:
  "segment_ok P a \<Longrightarrow> segment_ok P b \<Longrightarrow> segment_ok P (case r of COk \<Rightarrow> a | CDrainCancelled \<Rightarrow> b)"
  by (cases r) simp_all

lemma cok_write_message [keeps_rules]:
  "(\<And>e. cok c (failed e)) \<Longrightarrow> cok c rest \<Longrightarrow> cok c (write_message b m failed rest)"
  unfolding write_message_def by (intro keeps_rules)

lemma cok_await_future [keeps_rules]:
  "(\<And>e. cok c (failed e)) \<Longrightarrow> (\<And>v. cok c (rest v)) \<Longrightarrow> cok c (await_future i failed rest)"
  unfolding await_future_def
  by (intro keeps_rules) (auto split: future.split sum.split)

lemma client_new_future:
  assumes "client_inv c s" "\<not> closing_state s"
  shows "client_inv c (s\<lparr>a_next_id := a_next_id s + 1, a_pending := dict_set (a_next_id s) Waiting (a_pending s)\<rparr>)"
proof -
  have "fst ` set (dict_set (a_next_id s) Waiting (a_pending s)) \<subseteq> insert (a_next_id s) (fst ` set (a_pending s))"
    using set_dict_set [of "a_next_id s" Waiting "a_pending s"] by auto
  moreover have "insert (a_next_id s) (fst ` set (a_pending s)) \<subseteq> {1..<a_next_id s + 1}"
    using assms(1) unfolding client_inv_def by fastforce
  ultimately have "fst ` set (dict_set (a_next_id s) Waiting (a_pending s)) \<subseteq> {1..<a_next_id s + 1}"
    by (rule subset_trans)
  then show ?thesis
    using assms distinct_dict_set [of "a_pending s" "a_next_id s" Waiting]
    unfolding client_inv_def closing_state_def startup_unfinished_def by simp
qed

lemma cok_request [keeps_rules]:
  assumes "\<And>e. cok c (failed e)" "\<And>v. cok c (rest v)"
  shows "cok c (request b method params failed rest)"
  unfolding segment_ok_def
proof (intro allI impI)
  fix s assume inv: "client_inv c s"
  obtain r s1 where e: "ensure_available b s = (r, s1)" by (cases "ensure_available b s")
  show "client_inv c (fst (request b method params failed rest s)) \<and>
    safe (client_inv c) (snd (request b method params failed rest s))"
  proof (cases r)
    case (Inl x)
    have "client_inv c s1" using keepsD [OF ckeeps_ensure_available inv, of b] e by simp
    then show ?thesis using assms(1) [of x] Inl e by (simp add: request_def run_try_def segment_ok_def)
  next
    case (Inr u)
    then have s1: "s1 = s" "\<not> closing_state s" using ensure_available_Inr [of b s u s1] e by auto
    let ?i = "a_next_id s" and ?s = "s\<lparr>a_next_id := a_next_id s + 1, a_pending := dict_set (a_next_id s) Waiting (a_pending s)\<rparr>"
    have "client_inv c ?s" using client_new_future [OF inv s1(2)] .
    moreover have "cok c (write_message b (request_message ?i method params)
        (\<lambda>e. run_then (pop_future ?i) (\<lambda>_. failed e)) (await_future ?i failed rest))"
      by (intro keeps_rules assms)
    ultimately show ?thesis
      using Inr e s1(1) by (simp add: request_def run_try_def run_then_def new_future_def segment_ok_def)
  qed
qed

lemma ckeeps_startup_ended [keeps_rules]: "ckeeps c startup_ended"
  unfolding startup_ended_def
  by (rule keeps_modify) (simp add: client_inv_def closing_state_def settled_def startup_unfinished_def)

lemma cok_startup_failed [keeps_rules]: "cok c (client_startup_failed e)"
  unfolding client_startup_failed_def by (intro keeps_rules)

lemma ckeeps_refuse_closing [keeps_rules]: "ckeeps c refuse_closing"
  unfolding refuse_closing_def by (intro keeps_rules)

lemma cok_startup_succeeded [keeps_rules]:
  assumes "\<And>e. cok c (failed e)" "cok c rest"
  shows "cok c (run_try refuse_closing failed (\<lambda>_. run_then startup_succeeded (\<lambda>_. rest)))"
  unfolding segment_ok_def
proof (intro allI impI)
  fix s assume inv: "client_inv c s"
  let ?s = "s\<lparr>a_lifecycle := RUNNING_CLIENT, a_startup := Finished\<rparr>"
  show "client_inv c (fst (run_try refuse_closing failed (\<lambda>_. run_then startup_succeeded (\<lambda>_. rest)) s)) \<and>
    safe (client_inv c) (snd (run_try refuse_closing failed (\<lambda>_. run_then startup_succeeded (\<lambda>_. rest)) s))"
  proof (cases "a_lifecycle s = CLOSING_CLIENT \<or> a_startup s \<noteq> Begun")
    case True
    then show ?thesis using inv assms
      by (auto simp: run_try_def run_then_def refuse_closing_def startup_succeeded_def bnd_def sync_defs segment_ok_def)
  next
    case False
    then have "\<not> closing_state s"
      using inv by (auto simp: client_inv_def closing_state_def startup_unfinished_def)
    then have "client_inv c ?s"
      using inv by (simp add: client_inv_def closing_state_def startup_unfinished_def)
    then show ?thesis using False assms
      by (simp add: run_try_def run_then_def refuse_closing_def startup_succeeded_def bnd_def sync_defs segment_ok_def)
  qed
qed

lemma cok_frame [keeps_rules]:
  "(\<And>s. a_pending (f s) = a_pending s \<and> a_next_id (f s) = a_next_id s \<and> a_lifecycle (f s) = a_lifecycle s \<and>
     a_cleanup (f s) = a_cleanup s \<and> a_terminal_error (f s) = a_terminal_error s \<and>
     a_explicit_close (f s) = a_explicit_close s \<and> a_startup (f s) = a_startup s \<and>
     a_requests (f s) = a_requests s \<and> a_notifications (f s) = a_notifications s) \<Longrightarrow>
   cok c rest \<Longrightarrow> cok c (run_then (modify f) (\<lambda>_. rest))"
  by (rule segment_run_then) (rule keeps_modify, erule client_frame, simp_all)

lemma cok_start_impl [keeps_rules]: "cok c (start_impl c')"
  unfolding start_impl_def by (intro keeps_rules) simp_all

lemma cok_run_startup [keeps_rules]: "cok c (run_startup_task c')"
  unfolding segment_ok_def
proof (intro allI impI)
  fix s assume inv: "client_inv c s"
  have "a_startup s = Created \<Longrightarrow> client_inv c (s\<lparr>a_startup := Begun\<rparr>)"
    using inv by (auto simp: client_inv_def closing_state_def settled_def startup_unfinished_def)
  then show "client_inv c (fst (run_startup_task c' s)) \<and> safe (client_inv c) (snd (run_startup_task c' s))"
    using inv cok_start_impl [of c c'] by (simp add: run_startup_task_def run_then_def finish_def sync_defs segment_ok_def)
qed

lemma cok_start_client [keeps_rules]: "cok c start_client"
  unfolding segment_ok_def
proof (intro allI impI)
  fix s assume inv: "client_inv c s"
  let ?s = "if a_startup s = NotCreated then s\<lparr>a_lifecycle := STARTING_CLIENT, a_startup := Created\<rparr> else s"
  have "cok c (cawait CStartup (\<lambda>r. case r of
           Inr _ \<Rightarrow> finish (return JNull)
         | Inl e \<Rightarrow> run_then (gets (\<lambda>s. a_startup s = Finished \<and> a_cleanup s \<noteq> NotCreated)) (\<lambda>wait.
             if wait then cawait CCleanup (\<lambda>r. case r of Inl e2 \<Rightarrow> cfail e2 | Inr _ \<Rightarrow> cfail e)
             else cfail e)))" (is "cok c ?rest")
    by (intro keeps_rules)
  moreover have "\<not> closing_state s \<Longrightarrow> client_inv c ?s"
    using inv by (simp add: client_inv_def closing_state_def settled_def startup_unfinished_def)
  ultimately show "client_inv c (fst (start_client s)) \<and> safe (client_inv c) (snd (start_client s))"
    using inv by (auto simp: start_client_def run_then_def sync_defs segment_ok_def closing_state_def cfail_def
        finish_def simp del: client_inv_def split: if_splits)
qed

lemma ckeeps_begin_close [keeps_rules]: "ckeeps c begin_close"
proof (rule keepsI)
  fix s assume inv: "client_inv c s"
  let ?e = "closing_exception s"
  let ?s = "s\<lparr>a_explicit_close := True, a_lifecycle := CLOSING_CLIENT, a_closing_error := Some ?e,
     a_pending := map (\<lambda>(i, f). (i, fail_future ?e f)) (a_pending s),
     a_cleanup := if a_cleanup s = NotCreated then Created else a_cleanup s\<rparr>"
  have "a_lifecycle s \<noteq> CLOSED_CLIENT \<Longrightarrow> client_inv c ?s"
    using inv settled_fail [where s = s and e = ?e] fst_set_map_snd [of "fail_future ?e" "a_pending s"]
    by (simp add: fst_map_snd client_inv_def closing_state_def settled_def)
  moreover have "snd (begin_close s) = (if a_lifecycle s = CLOSED_CLIENT then s else ?s)"
    by (simp add: begin_close_def bnd_def fail_pending_def ensure_cleanup_task_def closing_exception_def sync_defs)
  ultimately show "client_inv c (snd (begin_close s))" using inv by simp
qed

lemma cok_close [keeps_rules]: "cok c close_client"
  unfolding close_client_def by (intro keeps_rules)

lemma cok_wait_closed [keeps_rules]: "cok c wait_closed"
  unfolding wait_closed_def by (intro keeps_rules)

lemma cok_quiet [keeps_rules]: "cok c rest \<Longrightarrow> cok c (cquiet q ignored rest)"
  unfolding cquiet_def by (intro keeps_rules)

lemma cok_await_startup_from:
  assumes "segment_from (client_inv c) (\<lambda>s. \<not> startup_unfinished s) rest"
  shows "cok c (await_startup rest)"
  using assms by (auto simp: await_startup_def cawait_def segment_ok_def segment_from_def run_then_def cfail_def
      finish_def startup_unfinished_def sync_defs)

lemma cok_await_startup [keeps_rules]: "cok c rest \<Longrightarrow> cok c (await_startup rest)"
  by (rule cok_await_startup_from) (rule segment_from_ok)

lemma mark_closed_from:
  "segment_from (client_inv c) (\<lambda>s. \<not> startup_unfinished s) (run_then mark_closed (\<lambda>_. finish (return JNull)) :: csegment)"
  by (auto simp: segment_from_def run_then_def mark_closed_def finish_def bnd_def sync_defs client_inv_def
      closing_state_def settled_def startup_unfinished_def)

lemma cok_wait_exit [keeps_rules]: "cok c rest \<Longrightarrow> cok c (wait_exit rest)"
  unfolding wait_exit_def by (intro keeps_rules)

lemma ckeeps_released [keeps_rules]: "ckeeps c released"
  unfolding released_def by (rule keeps_modify) (erule client_frame; simp)

lemma cok_cleanup_resources [keeps_rules]: "cok c rest \<Longrightarrow> cok c (cleanup_resources rest)"
  unfolding cleanup_resources_def Let_def by (intro keeps_rules) simp_all

lemma cok_finish_cleanup [keeps_rules]: "cok c finish_cleanup"
  using cok_await_startup_from [OF mark_closed_from, of c] mark_closed_from [of c]
  by (simp add: finish_cleanup_def run_then_gets segment_ok_def segment_from_def Let_def)

lemma cok_cleanup [keeps_rules]: "cok c cleanup_coordinator"
  unfolding cleanup_coordinator_def by (intro keeps_rules)

lemma cok_run_cleanup [keeps_rules]: "cok c run_cleanup_task"
  unfolding segment_ok_def
proof (intro allI impI)
  fix s assume inv: "client_inv c s"
  have "a_cleanup s = Created \<Longrightarrow> client_inv c (s\<lparr>a_cleanup := Begun\<rparr>)"
    using inv by (auto simp: client_inv_def closing_state_def settled_def startup_unfinished_def)
  then show "client_inv c (fst (run_cleanup_task s)) \<and> safe (client_inv c) (snd (run_cleanup_task s))"
    using inv cok_cleanup [of c] by (simp add: run_cleanup_task_def run_then_def finish_def sync_defs segment_ok_def)
qed

subsection \<open>The readers\<close>

lemma settle_keeps_inv:
  assumes "client_inv c s" "map_of (a_pending s) i = Some Waiting"
  shows "client_inv c (s\<lparr>a_pending := dict_set i (Settled r) (a_pending s)\<rparr>)"
proof -
  have "(i, Waiting) \<in> set (a_pending s)" using assms(2) by (rule map_of_SomeD)
  then have open': "\<not> closing_state s" and i: "insert i (fst ` set (a_pending s)) = fst ` set (a_pending s)"
    using assms(1) by (force simp: client_inv_def settled_def)+
  have "fst ` set (dict_set i (Settled r) (a_pending s)) \<subseteq> insert i (fst ` set (a_pending s))"
    using set_dict_set [of i "Settled r" "a_pending s"] by auto
  then show ?thesis
    using assms(1) open' i distinct_dict_set [of "a_pending s" i "Settled r"]
    unfolding client_inv_def closing_state_def startup_unfinished_def by auto
qed

lemma ckeeps_handle_response [keeps_rules]: "ckeeps c (handle_response m)"
  by (rule keepsI)
    (auto simp: handle_response_def set_future_def bnd_def sync_defs settle_keeps_inv split: json.split sum.splits)

lemma queue_frame:
  "client_inv c s \<Longrightarrow> length qs \<le> a_request_capacity c \<Longrightarrow> client_inv c (s\<lparr>a_requests := qs\<rparr>)"
  "client_inv c s \<Longrightarrow> length ns \<le> a_notification_capacity c \<Longrightarrow> client_inv c (s\<lparr>a_notifications := ns\<rparr>)"
  by (auto simp: client_inv_def closing_state_def settled_def startup_unfinished_def)

lemma ckeeps_enqueue [keeps_rules]:
  "ckeeps c (enqueue_request c q)" "ckeeps c (enqueue_notification c n)"
  by (rule keepsI, auto simp: enqueue_request_def enqueue_notification_def raise_def
      intro: queue_frame dest: put_nowait_bound split: option.split)+

lemma ckeeps_handle_envelope [keeps_rules]: "ckeeps c (handle_envelope c e)"
  unfolding handle_envelope_def Let_def by (auto intro!: keeps_rules split: json.split option.split)

lemma ckeeps_stdout_line [keeps_rules]: "ckeeps c (stdout_line c l)"
  unfolding stdout_line_def by (auto intro!: keeps_rules split: sum.split)

lemma ckeeps_frame:
  "(\<And>s. a_pending (f s) = a_pending s \<and> a_next_id (f s) = a_next_id s \<and> a_lifecycle (f s) = a_lifecycle s \<and>
     a_cleanup (f s) = a_cleanup s \<and> a_terminal_error (f s) = a_terminal_error s \<and>
     a_explicit_close (f s) = a_explicit_close s \<and> a_startup (f s) = a_startup s \<and>
     a_requests (f s) = a_requests s \<and> a_notifications (f s) = a_notifications s) \<Longrightarrow> ckeeps c (modify f)"
  by (rule keeps_modify) (erule client_frame, simp_all)

lemma ckeeps_read_stdout [keeps_rules]: "ckeeps c (read_stdout c l)"
proof -
  have "ckeeps c (reader_stopped e)" for e
    unfolding reader_stopped_def by (intro keeps_rules ckeeps_frame) simp
  then have "ckeeps c (catch (stdout_line c l) reader_stopped)" by (intro keeps_rules)
  then show ?thesis by (auto simp: read_stdout_def keeps_def return_def)
qed

lemma ckeeps_wait_for_process [keeps_rules]: "ckeeps c wait_for_process"
proof -
  have "ckeeps c (bnd (modify (\<lambda>s. s\<lparr>a_waiting := False\<rparr>)) (\<lambda>_. record_terminal_error e))" for e
    by (intro keeps_rules ckeeps_frame) simp
  then show ?thesis by (auto simp: wait_for_process_def keeps_def return_def split: option.split)
qed

text \<open>The error output touches nothing but its buffer and its tail.\<close>

lemma drain_parts_frame:
  "drain_parts c ps s = s\<lparr>a_stderr_buffer := a_stderr_buffer (drain_parts c ps s),
     a_stderr_tail := a_stderr_tail (drain_parts c ps s)\<rparr>"
proof (induction c ps s rule: drain_parts.induct)
  case (3 c p q ps s)
  show ?case by (simp, subst 3) (simp add: append_stderr_entry_def Let_def)
qed simp_all

lemma ckeeps_drain [keeps_rules]:
  "ckeeps c (modify (\<lambda>s. if a_draining s then drain_chunk c' chunk s else s))"
  "ckeeps c (modify (\<lambda>s. if a_draining s then (drain_end c' s)\<lparr>a_draining := False\<rparr> else s))"
proof -
  have "a_pending (drain_parts c' ps s) = a_pending s" "a_next_id (drain_parts c' ps s) = a_next_id s"
    "a_lifecycle (drain_parts c' ps s) = a_lifecycle s" "a_cleanup (drain_parts c' ps s) = a_cleanup s"
    "a_terminal_error (drain_parts c' ps s) = a_terminal_error s"
    "a_explicit_close (drain_parts c' ps s) = a_explicit_close s" "a_startup (drain_parts c' ps s) = a_startup s"
    "a_requests (drain_parts c' ps s) = a_requests s" "a_notifications (drain_parts c' ps s) = a_notifications s" for ps s
    by (subst drain_parts_frame, simp)+
  then show "ckeeps c (modify (\<lambda>s. if a_draining s then drain_chunk c' chunk s else s))"
    by (intro ckeeps_frame) (simp add: drain_chunk_def)
  show "ckeeps c (modify (\<lambda>s. if a_draining s then (drain_end c' s)\<lparr>a_draining := False\<rparr> else s))"
    by (intro ckeeps_frame) (simp add: drain_end_def append_stderr_entry_def Let_def)
qed

lemma client_entry_ok: "cok c (client_entry c h)"
proof -
  have process: "ckeeps c (process_exits code)" for code
    unfolding process_exits_def by (rule ckeeps_frame) simp
  have "length (a_requests s) - Suc 0 \<le> a_request_capacity c"
    "length (a_notifications s) - Suc 0 \<le> a_notification_capacity c"
    if "client_inv c s" for s
    using that unfolding client_inv_def by linarith+
  then have take: "ckeeps c (modify (\<lambda>s. s\<lparr>a_requests := tl (a_requests s)\<rparr>))"
    "ckeeps c (modify (\<lambda>s. s\<lparr>a_notifications := tl (a_notifications s)\<rparr>))"
    by (auto intro!: keeps_modify queue_frame)
  show ?thesis
    by (cases h; simp add: start_thread_def start_turn_def interrupt_turn_def respond_def respond_error_def done_with_def;
        intro conjI impI keeps_rules process take)
qed

interpretation client: handlers "client_inv c" "client_entry c" "\<lambda>_ _. False" for c
  by unfold_locales (auto intro: client_entry_ok)

definition client_run :: "client_config \<Rightarrow> client \<Rightarrow> bool" where
  "client_run c s \<longleftrightarrow> (\<exists>ts. (loop (client_entry c) (\<lambda>_ _. False))\<^sup>*\<^sup>* (new_client, []) (s, ts))"

lemma client_run_inv: "client_run c s \<Longrightarrow> client_inv c s"
proof -
  assume "client_run c s"
  moreover have "client_inv c new_client"
    by (simp add: client_inv_def new_client_def closing_state_def startup_unfinished_def)
  ultimately show ?thesis by (auto simp: client_run_def dest: client.reachable_inv)
qed

lemma client_run_perform: "client_run c (perform (client_entry c) script new_client)"
  unfolding client_run_def by (rule perform_loop)

text \<open>
  C21. Once a client is closing or closed, whether the caller closed it or the process or the protocol
  failed, every request still registered has its outcome: no coroutine waits for a response that
  cannot come. In every state at most one request has a given identifier, and the queues keep
  their bounds.
\<close>

theorem closed_client_keeps_nobody_waiting:
  assumes "client_run c s"
  shows "(a_lifecycle s = CLOSING_CLIENT \<or> a_lifecycle s = CLOSED_CLIENT \<or> a_terminal_error s \<noteq> None \<longrightarrow>
      (\<forall>i f. map_of (a_pending s) i = Some f \<longrightarrow> (\<exists>r. f = Settled r))) \<and>
    distinct (map fst (a_pending s)) \<and>
    length (a_requests s) \<le> a_request_capacity c \<and> length (a_notifications s) \<le> a_notification_capacity c"
proof -
  have inv: "client_inv c s" using assms by (rule client_run_inv)
  have "\<exists>r. f = Settled r" if "closing_state s" "map_of (a_pending s) i = Some f" for i f
    using inv that map_of_SomeD [OF that(2)] by (cases f) (force simp: client_inv_def settled_def)+
  then show ?thesis using inv unfolding client_inv_def closing_state_def by blast
qed

definition ex_client_config :: client_config where
  "ex_client_config = \<lparr>a_codex_path = ''codex'', a_version = ''1'', a_max_line = 1048576, a_tail_lines = 50,
     a_request_capacity = 100, a_notification_capacity = 100,
     a_loads = (\<lambda>l. if l = ''r'' then Inr (JObj [(''id'', JInt 7), (''result'', JObj [(''thread'', JObj [(''id'', JStr ''t'')])])])
        else Inl (Exn ''JSONDecodeError'' [])),
     a_decode = id\<rparr>"

definition ex_closing_client :: client where
  "ex_closing_client = perform (client_entry ex_client_config)
     [(CHStart, []), (CHStartupTask, [Inr COk, Inr COk, Inr COk]), (CHStdout (Inr ''bad''), [])] new_client"

lemmas client_run_defs = new_client_def start_client_def run_startup_task_def start_impl_def request_def
  write_message_def await_future_def cawait_def run_then_def run_try_def finish_def bnd_def sync_defs
  refuse_closing_def ensure_available_def returncode_of_def new_future_def process_for_write_def write_line_def
  done_with_def read_stdout_def stdout_line_def catch_def reader_stopped_def record_terminal_error_def
  fail_pending_def ensure_cleanup_task_def protocol_error_def

theorem closed_client_keeps_nobody_waiting_ex:
  "a_lifecycle ex_closing_client = CLOSING_CLIENT \<and>
   map_of (a_pending ex_closing_client) 1 =
     Some (Settled (Inl (protocol_error ''app-server emitted malformed JSON''))) \<and>
   distinct (map fst (a_pending ex_closing_client))"
proof -
  have "a_lifecycle ex_closing_client = CLOSING_CLIENT \<and>
    map_of (a_pending ex_closing_client) 1 =
      Some (Settled (Inl (protocol_error ''app-server emitted malformed JSON'')))"
    by (simp add: ex_closing_client_def client_run_defs ex_client_config_def)
  moreover have "client_run ex_client_config ex_closing_client"
    unfolding ex_closing_client_def by (rule client_run_perform)
  ultimately show ?thesis using closed_client_keeps_nobody_waiting by blast
qed

section \<open>A response reaches its request\<close>

lemma response_settles:
  assumes "a_reading s" "l \<noteq> []" "length l \<le> a_max_line c" "a_loads c l = Inr (JObj m)"
    "jget m ''id'' = JInt i" "has_key m ''id''" "has_key m ''result''" "\<not> has_key m ''error''" "\<not> has_key m ''method''"
    "\<not> has_key m ''jsonrpc''" "map_of (a_pending s) i = Some Waiting"
  shows "snd (read_stdout c (Inr l) s) =
    s\<lparr>a_pending := dict_set i (Settled (Inr (jget m ''result''))) (a_pending s)\<rparr>"
  using assms
  by (simp add: read_stdout_def stdout_line_def handle_envelope_def handle_response_def set_future_def catch_def
      bnd_def sync_defs)



section \<open>The tail of the error output\<close>

definition last_n :: "nat \<Rightarrow> 'a list \<Rightarrow> 'a list" where
  "last_n n xs = drop (length xs - n) xs"

definition cut_entry :: "string \<Rightarrow> string \<times> bool" where
  "cut_entry l = (take STDERR_ENTRY_BYTES l, STDERR_ENTRY_BYTES < length l)"

text \<open>The lines of a text; what follows the last line feed is a line if it is not empty.\<close>

definition stderr_lines :: "string \<Rightarrow> string list" where
  "stderr_lines t = (let ps = split_on (CHR 0x0A) t in if last ps = [] then butlast ps else ps)"

lemma last_n_snoc: "last_n n (last_n n xs @ [x]) = last_n n (xs @ [x])"
proof (cases "length xs \<le> n")
  case False
  then show ?thesis
    by (cases n) (simp_all add: last_n_def Suc_diff_le drop_Suc tl_drop [symmetric] drop_drop Suc_diff_Suc)
qed (simp add: last_n_def)

lemma split_on_nonempty [simp]: "split_on d t \<noteq> []"
  by (induction t) (auto split: list.splits)

lemma split_on_append:
  "split_on d (t @ u) = butlast (split_on d t) @ (last (split_on d t) @ hd (split_on d u)) # tl (split_on d u)"
proof (induction t)
  case Nil
  then show ?case by (cases "split_on d u") simp_all
next
  case (Cons x t)
  then show ?case by (cases "split_on d t") (auto split: list.splits)
qed

lemma absorb_cut: "absorb (cut_entry q) p = cut_entry (q @ p)"
  by (auto simp: absorb_def cut_entry_def min_def)

lemma cut_Nil: "cut_entry [] = ([], False)" "cut_entry q = ([], False) \<longleftrightarrow> q = []"
  by (auto simp: cut_entry_def STDERR_ENTRY_BYTES_def)

text \<open>The state after some text: finished lines in the tail, the line begun in the buffer.\<close>

definition drained :: "client_config \<Rightarrow> string list \<Rightarrow> string \<Rightarrow> client \<Rightarrow> bool" where
  "drained c ls q s \<longleftrightarrow> a_stderr_buffer s = cut_entry q \<and>
     a_stderr_tail s = last_n (a_tail_lines c) (map (stderr_entry c \<circ> cut_entry) ls)"

lemma drained_append:
  "a_stderr_tail s = last_n (a_tail_lines c) (map (stderr_entry c \<circ> cut_entry) ls) \<Longrightarrow> a_stderr_buffer s = cut_entry q \<Longrightarrow>
   a_stderr_tail (append_stderr_entry c s) = last_n (a_tail_lines c) (map (stderr_entry c \<circ> cut_entry) (ls @ [q]))"
  using last_n_snoc [of "a_tail_lines c" "map (stderr_entry c \<circ> cut_entry) ls" "stderr_entry c (cut_entry q)"]
  by (simp add: append_stderr_entry_def Let_def last_n_def)

lemma drained_parts:
  "drained c ls q s \<Longrightarrow> drained c (ls @ butlast ((q @ p) # ps)) (last ((q @ p) # ps)) (drain_parts c (p # ps) s)"
proof (induction ps arbitrary: ls q p s)
  case Nil
  then show ?case by (simp add: drained_def absorb_cut)
next
  case (Cons p' ps)
  let ?s = "(append_stderr_entry c (s\<lparr>a_stderr_buffer := absorb (a_stderr_buffer s) p\<rparr>))\<lparr>a_stderr_buffer := ([], False)\<rparr>"
  have "drained c (ls @ [q @ p]) [] ?s"
    using Cons.prems drained_append [of "s\<lparr>a_stderr_buffer := cut_entry (q @ p)\<rparr>" c ls "q @ p"]
    by (simp add: drained_def absorb_cut cut_Nil(1))
  from Cons.IH [OF this, of p'] show ?case by simp
qed

lemma drained_chunk:
  assumes "drained c (butlast (split_on (CHR 0x0A) t)) (last (split_on (CHR 0x0A) t)) s"
  shows "drained c (butlast (split_on (CHR 0x0A) (t @ u))) (last (split_on (CHR 0x0A) (t @ u))) (drain_chunk c u s)"
proof -
  obtain p ps where u: "split_on (CHR 0x0A) u = p # ps" by (cases "split_on (CHR 0x0A) u") auto
  show ?thesis
    using drained_parts [OF assms, of p ps] u by (simp add: drain_chunk_def split_on_append butlast_append)
qed

lemma drained_chunks:
  "drained c (butlast (split_on (CHR 0x0A) t)) (last (split_on (CHR 0x0A) t)) s \<Longrightarrow>
   drained c (butlast (split_on (CHR 0x0A) (t @ concat us))) (last (split_on (CHR 0x0A) (t @ concat us)))
     (fold (drain_chunk c) us s)"
proof (induction us arbitrary: t s)
  case (Cons u us)
  from Cons.IH [OF drained_chunk [OF Cons.prems, of u]] show ?case by simp
qed simp

text \<open>
  The tail of the error output does not depend on how the pipe cuts the output into chunks: it holds
  the last lines of the whole output, in order, each cut to 4096 bytes and marked where it was
  longer, redacted; an unfinished last line counts.
\<close>

theorem stderr_tail_is_last_lines:
  assumes "a_stderr_tail s = []" "a_stderr_buffer s = ([], False)"
  shows "a_stderr_tail (drain_end c (fold (drain_chunk c) chunks s)) =
    last_n (a_tail_lines c) (map (stderr_entry c \<circ> cut_entry) (stderr_lines (concat chunks)))"
proof -
  let ?ps = "split_on (CHR 0x0A) (concat chunks)" and ?s = "fold (drain_chunk c) chunks s"
  have "drained c (butlast ?ps) (last ?ps) ?s"
    using drained_chunks [of c "[]" s chunks] assms by (simp add: drained_def cut_Nil last_n_def)
  then have d: "a_stderr_buffer ?s = cut_entry (last ?ps)"
    "a_stderr_tail ?s = last_n (a_tail_lines c) (map (stderr_entry c \<circ> cut_entry) (butlast ?ps))"
    by (simp_all add: drained_def)
  show ?thesis
    using d drained_append [OF d(2) d(1)]
    by (auto simp: drain_end_def stderr_lines_def Let_def cut_Nil simp del: map_append)
qed

theorem stderr_tail_is_last_lines_ex:
  "a_stderr_tail (drain_end ex_client_config (fold (drain_chunk ex_client_config)
     [''ab'', [CHR ''c'', CHR 0x0A, CHR ''d'']] new_client)) = [(''abc'', False), (''d'', False)]"
  using stderr_tail_is_last_lines [of new_client ex_client_config "[''ab'', [CHR ''c'', CHR 0x0A, CHR ''d'']]"]
  by (simp add: new_client_def ex_client_config_def last_n_def stderr_lines_def stderr_entry_def cut_entry_def
      rstrip_chars_def redact_text_plain STDERR_ENTRY_BYTES_def)

end
