(* ===== verification/Lark_Control.thy ===== *)
theory Lark_Control
  imports Orchestrator_Properties
begin

text \<open>
  What comes in from Lark: \<^verbatim>\<open>modules/lark/lark_event.py\<close> (the two kinds of events and their
  normalisation), \<^verbatim>\<open>lark_connection.py\<close> (the queue of the child process and the pump that empties it)
  and \<^verbatim>\<open>lark_router.py\<close> (what an event does). The SDK's event objects are trees of attributes, written as
  JSON objects. The router calls the orchestrator and shares its store, so its coroutine runs on the
  state of the orchestrator.
\<close>

subsection \<open>Events\<close>

record lark_reaction =
  x_event_id :: string
  x_message_id :: string
  x_actor_id :: string
  x_emoji_type :: string

record lark_message =
  y_event_id :: string
  y_message_id :: string
  y_parent_id :: "string option"
  y_root_id :: "string option"
  y_chat_id :: string
  y_chat_type :: string
  y_actor_id :: string
  y_text :: string
  y_mentioned_bot :: bool

datatype lark_event = Reaction lark_reaction | Message lark_message

fun event_id_of :: "lark_event \<Rightarrow> string" where
  "event_id_of (Reaction r) = x_event_id r"
| "event_id_of (Message m) = y_event_id m"

fun actor_id_of :: "lark_event \<Rightarrow> string" where
  "actor_id_of (Reaction r) = x_actor_id r"
| "actor_id_of (Message m) = y_actor_id m"

datatype control_result = ControlResult (result_handled: bool) (result_reason: string) (result_interaction: "string option")

subsection \<open>Normalisation\<close>

text \<open>\<^verbatim>\<open>getattr(value, name, None)\<close>, and the truth value of a Python object.\<close>

fun attr :: "json \<Rightarrow> string \<Rightarrow> json" where
  "attr (JObj d) n = jget d n"
| "attr _ n = JNull"

fun truthy :: "json \<Rightarrow> bool" where
  "truthy JNull = False"
| "truthy (JBool b) = b"
| "truthy (JInt i) = (i \<noteq> 0)"
| "truthy (JFloat t) = (t \<noteq> ''0.0'' \<and> t \<noteq> ''-0.0'')"
| "truthy (JStr s) = (s \<noteq> [])"
| "truthy (JArr xs) = (xs \<noteq> [])"
| "truthy (JObj d) = (d \<noteq> [])"

definition json_or :: "json \<Rightarrow> json \<Rightarrow> json" where
  "json_or a b = (if truthy a then a else b)"

definition required_string :: "json \<Rightarrow> string \<Rightarrow> string outcome" where
  "required_string v field = (case nonempty_str v of Some s \<Rightarrow> Inr s | None \<Rightarrow> value_error (''missing '' @ field))"

definition event_id_attr :: "json \<Rightarrow> string outcome" where
  "event_id_attr e = required_string (attr (attr e ''header'') ''event_id'') ''event_id''"

definition actor_id_attr :: "json \<Rightarrow> string outcome" where
  "actor_id_attr u = required_string (json_or (attr u ''open_id'') (attr u ''user_id'')) ''actor_id''"

definition normalize_reaction_event :: "json \<Rightarrow> lark_reaction outcome" where
  "normalize_reaction_event e =
     (let body = attr e ''event''; reaction = attr body ''reaction_type'' in
      case event_id_attr e of Inl x \<Rightarrow> Inl x | Inr event_id \<Rightarrow>
     (case required_string (attr body ''message_id'') ''message_id'' of Inl x \<Rightarrow> Inl x | Inr message_id \<Rightarrow>
     (case actor_id_attr (attr body ''user_id'') of Inl x \<Rightarrow> Inl x | Inr actor_id \<Rightarrow>
     (case required_string (attr reaction ''emoji_type'') ''emoji_type'' of Inl x \<Rightarrow> Inl x | Inr emoji \<Rightarrow>
        Inr \<lparr>x_event_id = event_id, x_message_id = message_id, x_actor_id = actor_id, x_emoji_type = emoji\<rparr>))))"

text \<open>
  \<^verbatim>\<open>json.loads\<close> is the parameter \<open>loads\<close>, \<open>None\<close> standing for the two exceptions caught. The SDK declares
  \<^verbatim>\<open>parent_id\<close> and \<^verbatim>\<open>root_id\<close> as optional strings.
\<close>

definition normalize_message_event :: "(string \<Rightarrow> json option) \<Rightarrow> json \<Rightarrow> lark_message outcome" where
  "normalize_message_event loads e =
     (let body = attr e ''event''; message = attr body ''message'' in
      if attr message ''message_type'' \<noteq> JStr ''text'' then value_error ''unsupported message type''
      else case (case attr message ''content'' of JStr t \<Rightarrow> loads t | _ \<Rightarrow> None) of
        Some (JObj parsed) \<Rightarrow>
         (case event_id_attr e of Inl x \<Rightarrow> Inl x | Inr event_id \<Rightarrow>
         (case required_string (attr message ''message_id'') ''message_id'' of Inl x \<Rightarrow> Inl x | Inr message_id \<Rightarrow>
         (case required_string (attr message ''chat_id'') ''chat_id'' of Inl x \<Rightarrow> Inl x | Inr chat_id \<Rightarrow>
         (case required_string (attr message ''chat_type'') ''chat_type'' of Inl x \<Rightarrow> Inl x | Inr chat_type \<Rightarrow>
         (case actor_id_attr (attr (attr body ''sender'') ''sender_id'') of Inl x \<Rightarrow> Inl x | Inr actor_id \<Rightarrow>
         (case required_string (jget parsed ''text'') ''text'' of Inl x \<Rightarrow> Inl x | Inr t \<Rightarrow>
            Inr \<lparr>y_event_id = event_id, y_message_id = message_id,
              y_parent_id = nonempty_str (attr message ''parent_id''),
              y_root_id = nonempty_str (attr message ''root_id''), y_chat_id = chat_id, y_chat_type = chat_type,
              y_actor_id = actor_id, y_text = t, y_mentioned_bot = truthy (attr message ''mentions'')\<rparr>))))))
      | _ \<Rightarrow> value_error ''malformed message content'')"

subsection \<open>Between the two processes\<close>

definition opt_json :: "string option \<Rightarrow> json" where
  "opt_json v = (case v of None \<Rightarrow> JNull | Some s \<Rightarrow> JStr s)"

text \<open>The dictionary \<^verbatim>\<open>_safe_child_put\<close> puts in the queue.\<close>

fun child_payload :: "lark_event \<Rightarrow> json_object" where
  "child_payload (Reaction r) =
     [(''type'', JStr ''reaction''), (''event_id'', JStr (x_event_id r)), (''message_id'', JStr (x_message_id r)),
      (''actor_id'', JStr (x_actor_id r)), (''emoji_type'', JStr (x_emoji_type r))]"
| "child_payload (Message m) =
     [(''type'', JStr ''message''), (''event_id'', JStr (y_event_id m)), (''message_id'', JStr (y_message_id m)),
      (''parent_id'', opt_json (y_parent_id m)), (''root_id'', opt_json (y_root_id m)),
      (''chat_id'', JStr (y_chat_id m)), (''chat_type'', JStr (y_chat_type m)),
      (''actor_id'', JStr (y_actor_id m)), (''text'', JStr (y_text m)), (''mentioned_bot'', JBool (y_mentioned_bot m))]"

definition same_fields :: "string list \<Rightarrow> json_object \<Rightarrow> bool" where
  "same_fields ks d \<longleftrightarrow> set (map fst d) = set (''type'' # ks)"

definition str_field :: "json_object \<Rightarrow> string \<Rightarrow> string outcome" where
  "str_field d k = (case jget d k of JStr s \<Rightarrow> Inr s | _ \<Rightarrow> value_error ''malformed child event'')"

definition opt_str_field :: "json_object \<Rightarrow> string \<Rightarrow> string option outcome" where
  "opt_str_field d k = (case jget d k of JStr s \<Rightarrow> Inr (Some s) | JNull \<Rightarrow> Inr None | _ \<Rightarrow> value_error ''malformed child event'')"

text \<open>
  The constructor is called with the payload's items as keyword arguments: a missing or a surplus one is
  a \<^verbatim>\<open>TypeError\<close>. The field types are those the child process writes, the only writer of the queue;
  the constructor would take other values too.
\<close>

definition decode_child_event :: "json \<Rightarrow> lark_event outcome" where
  "decode_child_event payload =
     (case payload of
        JObj d \<Rightarrow>
          if jget d ''type'' = JStr ''reaction''
          then (if \<not> same_fields [''event_id'', ''message_id'', ''actor_id'', ''emoji_type''] d
                then value_error ''malformed child event''
                else case (str_field d ''event_id'', str_field d ''message_id'', str_field d ''actor_id'',
                           str_field d ''emoji_type'') of
                  (Inr e, Inr m, Inr a, Inr t) \<Rightarrow>
                    Inr (Reaction \<lparr>x_event_id = e, x_message_id = m, x_actor_id = a, x_emoji_type = t\<rparr>)
                | _ \<Rightarrow> value_error ''malformed child event'')
          else if jget d ''type'' = JStr ''message''
          then (if \<not> same_fields [''event_id'', ''message_id'', ''parent_id'', ''root_id'', ''chat_id'', ''chat_type'',
                      ''actor_id'', ''text'', ''mentioned_bot''] d
                then value_error ''malformed child event''
                else case (str_field d ''event_id'', str_field d ''message_id'', opt_str_field d ''parent_id'',
                           opt_str_field d ''root_id'', str_field d ''chat_id'', str_field d ''chat_type'',
                           str_field d ''actor_id'', str_field d ''text'', jget d ''mentioned_bot'') of
                  (Inr e, Inr m, Inr p, Inr r, Inr ci, Inr ct, Inr a, Inr t, JBool b) \<Rightarrow>
                    Inr (Message \<lparr>y_event_id = e, y_message_id = m, y_parent_id = p, y_root_id = r, y_chat_id = ci,
                      y_chat_type = ct, y_actor_id = a, y_text = t, y_mentioned_bot = b\<rparr>)
                | _ \<Rightarrow> value_error ''malformed child event'')
          else value_error ''unknown child event type''
      | _ \<Rightarrow> value_error ''malformed child event'')"

record connection =
  k_started :: bool
  k_closed :: bool
  k_pumping :: bool
  k_child :: "lark_event list"
  k_events :: "lark_event list"
  k_terminal_error :: "exn option"

definition new_connection :: "int \<Rightarrow> connection outcome" where
  "new_connection queue_capacity =
     (if queue_capacity \<le> 0 then value_error ''queue_capacity must be positive''
      else Inr \<lparr>k_started = False, k_closed = False, k_pumping = False, k_child = [], k_events = [],
        k_terminal_error = None\<rparr>)"

definition connection_start :: "(connection, unit) sync" where
  "connection_start = (\<lambda>k.
     if k_started k then (Inr (), k)
     else if k_closed k then (Inl (Exn ''RuntimeError'' ''LarkLongConnection is closed''), k)
     else (Inr (), k\<lparr>k_started := True, k_pumping := True\<rparr>))"

text \<open>In the child: an event that is malformed, or that the queue has no room for, is dropped.\<close>

definition child_event :: "nat \<Rightarrow> lark_event outcome \<Rightarrow> connection \<Rightarrow> connection" where
  "child_event capacity e k =
     (case e of
        Inl x \<Rightarrow> k
      | Inr ev \<Rightarrow> (case put_nowait capacity (k_child k) ev of None \<Rightarrow> k | Some q \<Rightarrow> k\<lparr>k_child := q\<rparr>))"

definition pump_failed :: "exn \<Rightarrow> connection \<Rightarrow> connection" where
  "pump_failed e k = k\<lparr>k_pumping := False, k_terminal_error := Some e\<rparr>"

text \<open>
  One round of the pump: the next payload, decoded and put into the event queue; or, where none came in
  time, the check that the child is alive.
\<close>

definition pump_round :: "nat \<Rightarrow> bool \<Rightarrow> connection \<Rightarrow> connection" where
  "pump_round capacity alive k =
     (if \<not> k_pumping k then k
      else case k_child k of
        [] \<Rightarrow> if alive then k else pump_failed (Exn ''RuntimeError'' ''Lark long-connection child stopped'') k
      | ev # rest \<Rightarrow>
          let k' = k\<lparr>k_child := rest\<rparr> in
          (case decode_child_event (JObj (child_payload ev)) of
             Inl e \<Rightarrow> pump_failed e k'
           | Inr ev' \<Rightarrow> (case put_nowait capacity (k_events k) ev' of
               None \<Rightarrow> pump_failed (Exn ''QueueFull'' []) k'
             | Some q \<Rightarrow> k'\<lparr>k_events := q\<rparr>)))"

definition connection_close :: "connection \<Rightarrow> connection" where
  "connection_close k = (if k_closed k then k else k\<lparr>k_closed := True, k_pumping := False\<rparr>)"

subsection \<open>Reading an answer\<close>

definition match_user :: "string \<Rightarrow> string option" where
  "match_user s =
     (if take 7 s \<noteq> ''@_user_'' then None
      else let digits = takeWhile is_ascii_digit (drop 7 s); rest = dropWhile is_ascii_digit (drop 7 s)
           in if digits = [] \<or> (rest \<noteq> [] \<and> is_word_char (hd rest)) then None else Some rest)"

definition match_mention :: "bool \<Rightarrow> string \<Rightarrow> string option" where
  "match_mention at_start s =
     (case (if at_start then match_user s else None) of
        Some rest \<Rightarrow> Some rest
      | None \<Rightarrow> (case s of [] \<Rightarrow> None | c # cs \<Rightarrow> if is_py_space c then match_user cs else None))"

lemma match_user_shorter: "match_user s = Some rest \<Longrightarrow> length rest < length s"
proof -
  assume "match_user s = Some rest"
  then have "take 7 s = ''@_user_''" and rest: "rest = dropWhile is_ascii_digit (drop 7 s)"
    by (auto simp: match_user_def Let_def split: if_splits)
  then have "length (take 7 s) = length ''@_user_''" by simp
  then have "7 \<le> length s" by (simp add: min_def split: if_splits)
  moreover have "length rest \<le> length (drop 7 s)" unfolding rest by (rule length_dropWhile_le)
  ultimately show ?thesis by simp
qed

lemma match_mention_shorter: "match_mention b s = Some rest \<Longrightarrow> length rest < length s"
  by (auto simp: match_mention_def split: option.splits list.splits if_splits dest: match_user_shorter)

function sub_mentions :: "bool \<Rightarrow> string \<Rightarrow> string" where
  "sub_mentions at_start s =
     (case match_mention at_start s of
        Some rest \<Rightarrow> CHR '' '' # sub_mentions False rest
      | None \<Rightarrow> (case s of [] \<Rightarrow> [] | c # cs \<Rightarrow> c # sub_mentions False cs))"
  by pat_completeness auto
termination
  by (relation "measure (length \<circ> snd)") (auto dest: match_mention_shorter)

declare sub_mentions.simps [simp del]

definition strip_mentions :: "string \<Rightarrow> string" where
  "strip_mentions t = py_strip (sub_mentions True t)"

definition parse_approval_answer :: "string \<Rightarrow> bool option" where
  "parse_approval_answer t =
     (let answer = py_casefold (py_strip t) in
      if answer \<in> {''yes'', ''y''} then Some True else if answer \<in> {''no'', ''n''} then Some False else None)"

text \<open>The question a line names: by its number from 1, or by its identifier; \<open>int\<close> may raise.\<close>

definition line_question :: "string list \<Rightarrow> string \<Rightarrow> string option outcome" where
  "line_question qids key =
     (let by_id = Inr (if key \<in> set qids then Some key else None) in
      if py_isdigit key
      then (case py_int_of_digits key of
          Inl e \<Rightarrow> Inl e
        | Inr n \<Rightarrow> if 1 \<le> n \<and> n \<le> length qids then Inr (Some (qids ! (n - 1))) else by_id)
      else by_id)"

fun parse_lines :: "string list \<Rightarrow> string list \<Rightarrow> (string \<times> string) list \<Rightarrow> (string \<times> string) list option outcome" where
  "parse_lines qids [] answers = Inr (Some answers)"
| "parse_lines qids (line # lines) answers =
     (case py_partition (CHR '':'') line of (k, sep, a) \<Rightarrow>
        if sep = [] then Inr None
        else case line_question qids (py_strip k) of
            Inl e \<Rightarrow> Inl e
          | Inr None \<Rightarrow> Inr None
          | Inr (Some q) \<Rightarrow>
              if py_strip a = [] \<or> q \<in> fst ` set answers then Inr None
              else parse_lines qids lines (answers @ [(q, py_strip a)]))"

definition parse_answers :: "string \<Rightarrow> string list \<Rightarrow> (string \<times> string) list option outcome" where
  "parse_answers t qids =
     (if t = [] \<or> qids = [] then Inr None
      else if length qids = 1 then Inr (Some [(hd qids, t)])
      else case parse_lines qids (py_splitlines t) [] of
          Inl e \<Rightarrow> Inl e
        | Inr None \<Rightarrow> Inr None
        | Inr (Some answers) \<Rightarrow>
            Inr (if fst ` set answers = set qids then Some answers else None))"

subsection \<open>Routing\<close>

type_synonym router_segment = "orchestrator \<Rightarrow> orchestrator \<times> (orchestrator, call, string, control_result) task"

definition refuse :: "string \<Rightarrow> string option \<Rightarrow> router_segment" where
  "refuse reason iid = finish (return (ControlResult False reason iid))"

text \<open>The call of \<^verbatim>\<open>resolve_interaction\<close> and the result made of its answer.\<close>

definition resolve_for :: "orchestrator_config \<Rightarrow> string \<Rightarrow> string \<Rightarrow> bool option \<Rightarrow> json_object option \<Rightarrow> router_segment" where
  "resolve_for c iid actor allow answers =
     call_then (resolve_interaction c iid actor allow answers) (\<lambda>r. case r of
       Inl e \<Rightarrow> finish (raise e)
     | Inr won \<Rightarrow> finish (return (ControlResult (won = RBool True)
         (if won = RBool True then ''resolved'' else ''already_resolved'') (Some iid))))"

definition emoji_answer :: "string \<Rightarrow> bool option" where
  "emoji_answer t =
     (let emoji = py_casefold t in
      if emoji \<in> {''thumbsup'', ''+1''} then Some True
      else if emoji \<in> {''thumbsdown'', ''-1''} then Some False else None)"

definition route_reaction :: "orchestrator_config \<Rightarrow> lark_reaction \<Rightarrow> router_segment" where
  "route_reaction c r =
     run_then (read_store (store_get_pending_by_lark_message_id (x_message_id r))) (\<lambda>found. case found of
       None \<Rightarrow> refuse ''not_pending'' None
     | Some i \<Rightarrow>
         if i_kind i = USER_INPUT then refuse ''wrong_interaction_kind'' (Some (i_id i))
         else (case emoji_answer (x_emoji_type r) of
             None \<Rightarrow> refuse ''unsupported_emoji'' (Some (i_id i))
           | Some allow \<Rightarrow> resolve_for c (i_id i) (x_actor_id r) (Some allow) None))"

definition correlation_id :: "lark_message \<Rightarrow> string" where
  "correlation_id m = (if opt_or (y_parent_id m) [] \<noteq> [] then opt_or (y_parent_id m) [] else opt_or (y_root_id m) [])"

definition route_answers :: "orchestrator_config \<Rightarrow> lark_message \<Rightarrow> string \<Rightarrow> string \<Rightarrow> router_segment" where
  "route_answers c m iid t =
     run_then (gets (get_user_input_question_ids iid)) (\<lambda>qids.
     run_then (from_outcome (parse_answers t qids)) (\<lambda>answers. case answers of
       None \<Rightarrow> refuse ''invalid_answers'' (Some iid)
     | Some d \<Rightarrow> resolve_for c iid (y_actor_id m) None (Some (map (map_prod id JStr) d))))"

definition route_message :: "orchestrator_config \<Rightarrow> lark_message \<Rightarrow> router_segment" where
  "route_message c m =
     (if correlation_id m = [] then refuse ''not_a_reply'' None
      else run_then (read_store (store_get_pending_by_lark_message_id (correlation_id m))) (\<lambda>found. case found of
        None \<Rightarrow> refuse ''not_pending'' None
      | Some i \<Rightarrow>
          let t = strip_mentions (y_text m) in
          if i_kind i \<in> {EXEC_APPROVAL, FILE_CHANGE_APPROVAL, PERMISSION_REQUEST}
          then (case parse_approval_answer t of
              None \<Rightarrow> refuse ''invalid_approval_answer'' (Some (i_id i))
            | Some allow \<Rightarrow> resolve_for c (i_id i) (y_actor_id m) (Some allow) None)
          else if i_kind i \<noteq> USER_INPUT then refuse ''wrong_interaction_kind'' (Some (i_id i))
          else if py_casefold (y_chat_type m) \<noteq> ''p2p'' \<and> \<not> y_mentioned_bot m
          then refuse ''bot_not_mentioned'' (Some (i_id i))
          else route_answers c m (i_id i) t))"

definition route_event :: "orchestrator_config \<Rightarrow> instant \<Rightarrow> lark_event \<Rightarrow> router_segment" where
  "route_event c nw e =
     run_then (write_store (store_record_event_once (event_id_of e) None nw)) (\<lambda>fresh.
       if \<not> fresh then refuse ''duplicate'' None
       else if actor_id_of e = [] then refuse ''missing_actor'' None
       else (case e of Reaction r \<Rightarrow> route_reaction c r | Message m \<Rightarrow> route_message c m))"

text \<open>The router keeps the invariant of the orchestrator.\<close>

lemma keeps_record_event [keeps_rules]: "okp c sp (write_store (store_record_event_once e r nw))"
  by (rule keeps_write) (rule quiet_others, rule others.record_event)

lemma okseg_resolve_for [keeps_rules]: "segment_ok (orch_inv c sp) (resolve_for c iid actor allow answers)"
  using okseg_handler [of c sp "HResolve iid actor allow answers"]
  unfolding resolve_for_def start_handler.simps by (intro keeps_rules)

lemma okseg_refuse [keeps_rules]: "segment_ok (orch_inv c sp) (refuse reason iid)"
  unfolding refuse_def by (intro keeps_rules)

lemma okseg_route_reaction [keeps_rules]: "segment_ok (orch_inv c sp) (route_reaction c r)"
  unfolding route_reaction_def by (intro keeps_rules)

lemma okseg_route_message [keeps_rules]: "segment_ok (orch_inv c sp) (route_message c m)"
  unfolding route_message_def route_answers_def Let_def by (intro keeps_rules)

lemma okseg_route: "segment_ok (orch_inv c sp) (route_event c nw e)"
  unfolding route_event_def by (cases e; simp only: lark_event.case; intro keeps_rules)

section \<open>Between the processes\<close>

text \<open>
  What the child process puts in the queue is read back by the daemon as the same event.
\<close>

theorem child_event_round_trip: "decode_child_event (JObj (child_payload e)) = Inr e"
proof (cases e)
  case (Reaction r)
  then show ?thesis by (cases r) (simp add: decode_child_event_def same_fields_def str_field_def jget_def)
next
  case (Message m)
  have opt: "opt_str_field d k = Inr v" if "jget d k = opt_json v" for d k v
    using that by (cases v) (simp_all add: opt_str_field_def opt_json_def)
  show ?thesis using Message
    by (cases m) (simp add: decode_child_event_def same_fields_def str_field_def jget_def
        opt_str_field_def opt_json_def insert_commute split: option.split)
qed

section \<open>Reading answers\<close>

lemma parse_lines_fit:
  assumes "parse_lines qids ls acc = Inr (Some ans)" "distinct (map fst acc)" "[] \<notin> snd ` set acc"
  shows "distinct (map fst ans) \<and> [] \<notin> snd ` set ans"
  using assms
proof (induction qids ls acc rule: parse_lines.induct)
  case (2 qids l ls acc)
  obtain k sep a where p: "py_partition (CHR '':'') l = (k, sep, a)" by (cases "py_partition (CHR '':'') l")
  from 2(2) p obtain q where q: "sep \<noteq> []" "line_question qids (py_strip k) = Inr (Some q)" "py_strip a \<noteq> []"
    "q \<notin> fst ` set acc" "parse_lines qids ls (acc @ [(q, py_strip a)]) = Inr (Some ans)"
    by (auto split: if_splits sum.splits option.splits)
  show ?case by (rule 2(1)) (use p q 2(3,4) in auto)
qed simp

lemma parse_answers_fit:
  assumes "parse_answers t qids = Inr (Some ans)"
  shows "distinct (map fst ans) \<and> fst ` set ans = set qids \<and> [] \<notin> snd ` set ans"
proof (cases "length qids = 1")
  case True
  then obtain q where "qids = [q]" by (cases qids) auto
  then show ?thesis using assms by (auto simp: parse_answers_def split: if_splits)
next
  case False
  then have p: "parse_lines qids (py_splitlines t) [] = Inr (Some ans)" and "fst ` set ans = set qids"
    using assms by (auto simp: parse_answers_def split: if_splits sum.splits option.splits)
  then show ?thesis using parse_lines_fit [OF p] by simp
qed

text \<open>
  A Lark reply that is read as answers is never refused later: the answers are non-empty, one for
  each question, and where the questions have distinct identifiers the response to the app-server can
  be built from them.
\<close>

theorem read_answers_are_accepted:
  assumes "parse_answers t ids = Inr (Some ans)" "list_all2 asks qs ids" "distinct ids"
  shows "distinct (map fst ans) \<and> [] \<notin> snd ` set ans \<and>
    (\<exists>r. user_input_response qs (map (map_prod id JStr) ans) = Inr r)"
proof -
  have fit: "distinct (map fst ans)" "fst ` set ans = set ids" "[] \<notin> snd ` set ans"
    using parse_answers_fit [OF assms(1)] by simp_all
  have "fst ` set (map (map_prod id JStr) ans) = set ids" using fit(2) by (force simp: image_iff)
  moreover have "\<forall>v\<in>snd ` set (map (map_prod id JStr) ans). as_str v \<noteq> None" by auto
  ultimately show ?thesis
    using fit assms(2,3) by (auto simp: user_input_response_Inr question_ids_Inr)
qed

theorem read_answers_are_accepted_ex:
  "\<exists>r. user_input_response [JObj [(''id'', JStr ''q'')]] [(''q'', JStr ''blue'')] = Inr r"
  using read_answers_are_accepted [of "''blue''" "[''q'']" "[(''q'', ''blue'')]" "[JObj [(''id'', JStr ''q'')]]"]
  by (simp add: parse_answers_def jget_def)

text \<open>The reply the message asks for: one line per question, its number, a colon and the answer.\<close>

definition line_feed :: char where
  "line_feed = CHR 0x0A"

definition reply_line :: "nat \<times> string \<Rightarrow> string" where
  "reply_line ia = show_nat (fst ia) @ '': '' @ snd ia"

definition numbered_reply :: "string list \<Rightarrow> string" where
  "numbered_reply as = py_join [line_feed] (map reply_line (List.enumerate 1 as))"

lemma split_keepends_plain:
  "\<forall>c\<in>set l. \<not> is_line_break c \<Longrightarrow> split_keepends acc (l @ x) = split_keepends (rev l @ acc) x"
  by (induction l arbitrary: acc) auto

lemma line_feed_break: "is_line_break line_feed" "ord line_feed = 10"
  by (simp_all add: line_feed_def is_line_break_def)

lemma dropWhile_none: "\<forall>c\<in>set s. \<not> P c \<Longrightarrow> dropWhile P s = s"
  by (cases s) simp_all

lemma drop_line_break_plain:
  "\<forall>c\<in>set l. \<not> is_line_break c \<Longrightarrow> drop_line_break l = l \<and> drop_line_break (l @ [line_feed]) = l"
proof -
  assume a: "\<forall>c\<in>set l. \<not> is_line_break c"
  then have "dropWhile is_line_break (rev l) = rev l" by (simp add: dropWhile_none)
  then show ?thesis by (simp add: drop_line_break_def line_feed_break)
qed

lemma splitlines_join:
  "(\<And>l. l \<in> set ls \<Longrightarrow> l \<noteq> [] \<and> (\<forall>c\<in>set l. \<not> is_line_break c)) \<Longrightarrow> py_splitlines (py_join [line_feed] ls) = ls"
proof (induction ls)
  case Nil
  then show ?case by (simp add: py_splitlines_def splitlines_keepends_def)
next
  case (Cons l ls)
  have l: "l \<noteq> []" "\<forall>c\<in>set l. \<not> is_line_break c" using Cons.prems [of l] by simp_all
  show ?case
  proof (cases ls)
    case Nil
    then show ?thesis
      using l split_keepends_plain [OF l(2), of "[]" "[]"] drop_line_break_plain [OF l(2)]
      by (simp add: py_splitlines_def splitlines_keepends_def)
  next
    case (Cons l' ls')
    have "py_splitlines (py_join [line_feed] ls) = ls" by (rule Cons.IH) (use Cons.prems in auto)
    then show ?thesis
      using Cons split_keepends_plain [OF l(2), of "[]" "line_feed # py_join [line_feed] ls"]
        drop_line_break_plain [OF l(2)]
      by (simp add: py_splitlines_def splitlines_keepends_def line_feed_break)
  qed
qed

lemma show_nat_plain: "c \<in> set (show_nat n) \<Longrightarrow> \<not> is_line_break c \<and> \<not> is_py_space c \<and> c \<noteq> CHR '':''"
  using show_nat_digits [of c n] by (auto simp: is_ascii_digit_def is_line_break_def is_py_space_def)

lemma length_show_nat: "length (show_nat n) \<le> Suc n"
proof (induction n rule: show_nat.induct)
  case (1 n)
  have "n div 10 < n" if "\<not> n < 10" using that by simp
  then show ?case using 1 by (cases "n < 10") (auto simp: show_nat.simps [of n])
qed

lemma py_strip_plain: "\<forall>c\<in>set s. \<not> is_py_space c \<Longrightarrow> py_strip s = s"
  by (simp add: py_strip_def py_lstrip_def py_rstrip_def dropWhile_none)

lemma py_strip_space: "py_strip (CHR '' '' # s) = py_strip s"
  by (simp add: py_strip_def py_lstrip_def is_py_space_def)

lemma partition_reply_line: "py_partition (CHR '':'') (reply_line (n, a)) = (show_nat n, '':'', CHR '' '' # a)"
proof -
  have "dropWhile (\<lambda>x. x \<noteq> CHR '':'') (show_nat n @ CHR '':'' # CHR '' '' # a) = CHR '':'' # CHR '' '' # a"
    "takeWhile (\<lambda>x. x \<noteq> CHR '':'') (show_nat n @ CHR '':'' # CHR '' '' # a) = show_nat n"
    using show_nat_plain by (auto simp: dropWhile_append3 takeWhile_append2 dropWhile_append2)
  then show ?thesis by (simp add: py_partition_def reply_line_def)
qed

lemma line_question_number:
  assumes "1 \<le> n" "n \<le> length qids" "length qids \<le> 4000"
  shows "line_question qids (py_strip (show_nat n)) = Inr (Some (qids ! (n - 1)))"
proof -
  have "py_strip (show_nat n) = show_nat n" by (rule py_strip_plain) (use show_nat_plain in blast)
  moreover have "list_all is_ascii_digit (show_nat n)" using show_nat_digits by (auto simp: list_all_iff)
  moreover from this have "py_isdigit (show_nat n)" by (auto simp: py_isdigit_def is_digit_char_def list_all_iff)
  moreover have "length (show_nat n) \<le> 4300" using length_show_nat [of n] assms by simp
  ultimately show ?thesis using assms by (simp add: line_question_def py_int_of_digits_def)
qed

lemma parse_numbered_lines:
  assumes "distinct qids" "length qids \<le> 4000" "\<forall>a\<in>set as. a \<noteq> [] \<and> py_strip a = a"
    "k + length as = length qids" "fst ` set acc \<subseteq> set (take k qids)"
  shows "parse_lines qids (map reply_line (List.enumerate (Suc k) as)) acc = Inr (Some (acc @ zip (drop k qids) as))"
  using assms(3-5)
proof (induction as arbitrary: k acc)
  case (Cons a as)
  have k: "k < length qids" using Cons.prems by simp
  have "qids ! k \<notin> set (take k qids)"
    using assms(1) k by (metis distinct_take id_take_nth_drop not_distinct_conv_prefix)
  then have "qids ! k \<notin> fst ` set acc" using Cons.prems(3) by blast
  moreover have "parse_lines qids (map reply_line (List.enumerate (Suc (Suc k)) as)) (acc @ [(qids ! k, a)]) =
      Inr (Some ((acc @ [(qids ! k, a)]) @ zip (drop (Suc k) qids) as))"
    by (rule Cons.IH) (use Cons.prems k in \<open>auto simp: take_Suc_conv_app_nth\<close>)
  moreover have "drop k qids = qids ! k # drop (Suc k) qids" using k by (simp add: Cons_nth_drop_Suc)
  ultimately show ?case
    using Cons.prems line_question_number [of "Suc k" qids] k assms(2)
    by (simp add: partition_reply_line py_strip_space)
qed simp

text \<open>
  A reply with one numbered line per question, as the message in Lark asks for, is read as exactly
  those answers, in the order of the questions, whatever white space surrounds them.
\<close>

theorem numbered_reply_is_read:
  assumes "distinct qids" "2 \<le> length qids" "length qids \<le> 4000" "length as = length qids"
    "\<forall>a\<in>set as. a \<noteq> [] \<and> py_strip a = a \<and> (\<forall>c\<in>set a. \<not> is_line_break c)"
  shows "parse_answers (numbered_reply as) qids = Inr (Some (zip qids as))"
proof -
  let ?ls = "map reply_line (List.enumerate 1 as)"
  have "l \<noteq> [] \<and> (\<forall>c\<in>set l. \<not> is_line_break c)" if m: "l \<in> set ?ls" for l
  proof -
    obtain ia where "ia \<in> set (List.enumerate 1 as)" "l = reply_line ia" using m unfolding set_map by blast
    moreover obtain i a where "ia = (i, a)" by (cases ia)
    ultimately have l: "l = reply_line (i, a)" "a \<in> snd ` set (List.enumerate 1 as)" by force+
    then have "a \<in> set as" by (metis map_snd_enumerate set_map)
    then show ?thesis using assms(5) l(1) show_nat_plain by (auto simp: reply_line_def is_line_break_def)
  qed
  then have lines: "py_splitlines (numbered_reply as) = ?ls"
    unfolding numbered_reply_def by (rule splitlines_join)
  have "parse_lines qids ?ls [] = Inr (Some (zip qids as))"
    using parse_numbered_lines [of qids as 0 "[]"] assms by simp
  moreover have "fst ` set (zip qids as) = set qids"
    using assms(4) by (metis map_fst_zip set_map)
  moreover have "numbered_reply as \<noteq> []"
    using lines assms(2,4) by (cases as) (auto simp: py_splitlines_def splitlines_keepends_def)
  moreover have "length qids \<noteq> 1" "qids \<noteq> []" using assms(2) by auto
  ultimately show ?thesis by (simp add: parse_answers_def lines)
qed

theorem numbered_reply_is_read_ex:
  "parse_answers (numbered_reply [''red'', ''two words'']) [''q1'', ''q2''] =
     Inr (Some [(''q1'', ''red''), (''q2'', ''two words'')])"
  using numbered_reply_is_read [of "[''q1'', ''q2'']" "[''red'', ''two words'']"]
  by (simp add: py_strip_def py_lstrip_def py_rstrip_def is_py_space_def is_line_break_def)

text \<open>A superscript digit is a digit for \<^verbatim>\<open>isdigit\<close> and none for \<^verbatim>\<open>int\<close>: such a line is no refusal but an exception.\<close>

lemma superscript_number_raises:
  "parse_answers [CHR 0xB2, CHR '':'', CHR ''x''] [''q1'', ''q2''] =
     value_error ''invalid literal for int() with base 10''"
  by (simp add: parse_answers_def py_splitlines_def splitlines_keepends_def drop_line_break_def is_line_break_def
      py_partition_def line_question_def py_strip_def py_lstrip_def py_rstrip_def is_py_space_def py_isdigit_def
      is_digit_char_def is_ascii_digit_def py_int_of_digits_def)

section \<open>From a reply in Lark to the answer the agent gets\<close>

lemma interaction_row_valid:
  "store_wf st \<Longrightarrow> i \<in> set (interactions st) \<Longrightarrow> interaction_from_row i = Inr i"
  by (auto simp: store_wf_def wf_interactions_def interaction_from_row_def)

lemma recorded_state:
  assumes "orch_inv c sp s" "\<not> store_closed (orc_store s)" "e \<notin> fst ` set (event_dedupe (orc_store s))"
  shows "\<exists>st. write_store (store_record_event_once e None nw) s = (Inr True, s\<lparr>orc_store := st\<rparr>) \<and>
    st = (orc_store s)\<lparr>event_dedupe := event_dedupe (orc_store s) @ [(e, nw)]\<rparr> \<and> orch_inv c sp (s\<lparr>orc_store := st\<rparr>)"
  using keepsD [OF keeps_record_event assms(1), of e None nw] assms(2,3)
  by (simp add: write_store_def store_record_event_once_def with_connection_def)


definition ex_shown :: orchestrator where
  "ex_shown = ex_asked\<lparr>orc_store := (case store_attach_lark_message_id ''i1'' ''om_1'' (orc_store ex_asked) of
     Inr (b, st) \<Rightarrow> st | Inl e \<Rightarrow> orc_store ex_asked)\<rparr>"

lemma ex_shown_run: "orch_run ex_config empty_store ex_shown"
proof -
  obtain ts where ts: "(loop (start_handler ex_config) environment)\<^sup>*\<^sup>* (initial empty_store, []) (ex_asked, ts)"
    using ex_asked_run unfolding orch_run_def by blast
  have "environment ex_asked ex_shown"
  proof (cases "store_attach_lark_message_id ''i1'' ''om_1'' (orc_store ex_asked)")
    case (Inl e)
    then show ?thesis using ex_asked_facts(5) by (simp add: store_attach_lark_message_id_def with_connection_def Let_def)
  next
    case (Inr r)
    then show ?thesis
      by (cases r) (auto simp: ex_shown_def intro: environment.store others.attach)
  qed
  then have "loop (start_handler ex_config) environment (ex_asked, ts) (ex_shown, ts)" by (rule loop.environment)
  then show ?thesis using ts unfolding orch_run_def by (blast intro: rtranclp.rtrancl_into_rtrancl)
qed

definition ex_reply :: lark_message where
  "ex_reply = \<lparr>y_event_id = ''e1'', y_message_id = ''om_2'', y_parent_id = Some ''om_1'', y_root_id = None,
     y_chat_id = ''oc'', y_chat_type = ''group'', y_actor_id = ''ou_1'', y_text = ''@_user_1 Yes'', y_mentioned_bot = True\<rparr>"

lemma ex_shown_facts:
  "started ex_shown" "\<not> store_closed (orc_store ex_shown)" "event_dedupe (orc_store ex_shown) = []"
  "map (\<lambda>j. (i_id j, i_lark_message_id j, i_kind j, is_pending j)) (interactions (orc_store ex_shown)) =
     [(''i1'', Some ''om_1'', EXEC_APPROVAL, True)]"
  by code_simp+


end
