(* ===== verification/Notification.thy ===== *)
theory Notification
  imports Codex_Resolution
begin

text \<open>
  The notifications of finished and waiting tasks: \<^verbatim>\<open>modules/task\<close> (results, the detector of waiting
  tasks), \<^verbatim>\<open>modules/notification\<close> (the request, its builder, the service), the Codex and Claude adapters,
  \<^verbatim>\<open>server/agent_events.py\<close> and \<^verbatim>\<open>storage/sqlite.py\<close>. Pydantic's validation of a decoded object is a
  parameter where an event is parsed; a duration is kept as the text it is printed with.
\<close>

subsection \<open>Results and detections\<close>

datatype task_status = T_SUCCEEDED | T_FAILED | T_WAITING_FOR_INPUT

fun task_status_value :: "task_status \<Rightarrow> string" where
  "task_status_value T_SUCCEEDED = ''succeeded''"
| "task_status_value T_FAILED = ''failed''"
| "task_status_value T_WAITING_FOR_INPUT = ''waiting_for_input''"

record detection_result =
  det_status :: task_status
  det_tags :: "string list"
  det_phrases :: "string list"

record task_result =
  t_name :: string
  t_command :: "string list"
  t_exit_code :: int
  t_duration :: string
  t_stdout_tail :: "string list"
  t_stderr_tail :: "string list"
  t_source :: string

definition combined_tail_text :: "task_result \<Rightarrow> string" where
  "combined_tail_text t = py_join [CHR 0x0A]
     ((if t_stdout_tail t = [] then [] else ''stdout:'' # t_stdout_tail t) @
      (if t_stderr_tail t = [] then [] else ''stderr:'' # t_stderr_tail t))"

definition tail_lines :: "string \<Rightarrow> nat \<Rightarrow> string list" where
  "tail_lines t n = (let ls = py_splitlines t in drop (length ls - n) ls)"

definition run_command :: "string list \<Rightarrow> string \<Rightarrow> nat \<Rightarrow> int \<Rightarrow> string \<Rightarrow> string \<Rightarrow> string \<Rightarrow> task_result" where
  "run_command command name n returncode out err duration =
     \<lparr>t_name = name, t_command = command, t_exit_code = returncode, t_duration = duration,
      t_stdout_tail = tail_lines out n, t_stderr_tail = tail_lines err n, t_source = ''wrapper''\<rparr>"

text \<open>
  The expressions of the detector are alternatives of fixed words, compared without regard to case, some
  with word boundaries around them. At one position at most one alternative of an expression
  matches, so their order does not matter.
\<close>

record word_pattern =
  w_word :: string
  w_bounded :: bool

definition pat :: "bool \<Rightarrow> string \<Rightarrow> word_pattern" where
  "pat b w = \<lparr>w_word = w, w_bounded = b\<rparr>"

definition PATTERNS :: "(string \<times> word_pattern list) list" where
  "PATTERNS =
     [(''approval'', [pat True ''approval'', pat False ''do you want to allow'']),
      (''permission'', [pat True ''permission required'', pat True ''needs permission'',
         pat True ''need permission'', pat True ''requesting permission'']),
      (''waiting_for_input'', [pat False ''waiting for input'', pat False ''need user input''])]"

definition word_matches :: "bool \<Rightarrow> string \<Rightarrow> word_pattern \<Rightarrow> bool" where
  "word_matches after_word s p \<longleftrightarrow>
     py_lower (take (length (w_word p)) s) = w_word p \<and>
     (w_bounded p \<longrightarrow> \<not> after_word \<and>
        (case drop (length (w_word p)) s of [] \<Rightarrow> True | c # cs \<Rightarrow> \<not> is_word_char c))"

fun search_words :: "word_pattern list \<Rightarrow> bool \<Rightarrow> string \<Rightarrow> string option" where
  "search_words ps after_word s =
     (case find (word_matches after_word s) ps of
        Some p \<Rightarrow> Some (take (length (w_word p)) s)
      | None \<Rightarrow> (case s of [] \<Rightarrow> None | c # cs \<Rightarrow> search_words ps (is_word_char c) cs))"

declare search_words.simps [simp del]

definition found_phrases :: "string \<Rightarrow> (string \<times> string) list" where
  "found_phrases output =
     List.map_filter (\<lambda>(tag, ps). map_option (Pair tag) (search_words ps False output)) PATTERNS"

definition detect_output :: "string \<Rightarrow> int \<Rightarrow> detection_result" where
  "detect_output output exit_code =
     (let found = found_phrases output in
      if found \<noteq> []
      then \<lparr>det_status = T_WAITING_FOR_INPUT, det_tags = map fst found, det_phrases = map snd found\<rparr>
      else if exit_code = 0 then \<lparr>det_status = T_SUCCEEDED, det_tags = [''succeeded''], det_phrases = []\<rparr>
      else \<lparr>det_status = T_FAILED, det_tags = [''failed''], det_phrases = []\<rparr>)"

fun dedupe_from :: "string list \<Rightarrow> string list \<Rightarrow> string list" where
  "dedupe_from seen [] = []"
| "dedupe_from seen (v # vs) = (if v \<in> set seen then dedupe_from seen vs else v # dedupe_from (v # seen) vs)"

definition dedupe_tags :: "string list \<Rightarrow> string list" where
  "dedupe_tags values = dedupe_from [] values"

subsection \<open>Requests and their builder\<close>

record notification_context =
  nc_agent :: agent_kind
  nc_session_id :: string
  nc_session_name :: string

record notification_request =
  nr_task :: task_result
  nr_detection :: detection_result
  nr_context :: "notification_context option"

definition dedupe_key :: "notification_request \<Rightarrow> string" where
  "dedupe_key r =
     t_source (nr_task r) @ '':'' @ (case nr_context r of None \<Rightarrow> ''-'' | Some x \<Rightarrow> nc_session_id x) @ '':'' @
     t_name (nr_task r) @ '':'' @ py_join '' '' (t_command (nr_task r)) @ '':'' @
     task_status_value (det_status (nr_detection r))"

record agent_notification_input =
  ni_agent :: agent_kind
  ni_task_name :: string
  ni_status :: task_status
  ni_command :: "string list"
  ni_session_id :: "string option"
  ni_session_name :: "string option"
  ni_event_name :: "string option"
  ni_exit_code :: "int option"
  ni_duration :: string
  ni_summary :: string
  ni_output_tail :: "string list"
  ni_stderr_tail :: "string list"
  ni_tags :: "string list"

definition checked_input :: "agent_notification_input \<Rightarrow> agent_notification_input outcome" where
  "checked_input v = (if ni_task_name v = [] then Inl (Exn ''ValidationError'' []) else Inr v)"

definition truthy_text :: "string option \<Rightarrow> bool" where
  "truthy_text v \<longleftrightarrow> v \<noteq> None \<and> v \<noteq> Some []"

definition build_detection :: "agent_notification_input \<Rightarrow> task_result \<Rightarrow> task_status \<Rightarrow> detection_result" where
  "build_detection v task status =
     (let detected = detect_output (combined_tail_text task) (t_exit_code task);
          event_tags = (if truthy_text (ni_event_name v) then [the (ni_event_name v)] else []);
          tags = dedupe_tags (agent_value (ni_agent v) # event_tags @ ni_tags v)
      in if status = T_WAITING_FOR_INPUT
         then \<lparr>det_status = T_WAITING_FOR_INPUT,
                det_tags = dedupe_tags (tags @
                  (if ''waiting_for_input'' \<in> set tags then []
                   else if det_status detected = T_WAITING_FOR_INPUT then det_tags detected
                   else [''waiting_for_input''])),
                det_phrases = det_phrases detected\<rparr>
         else if det_status detected = T_WAITING_FOR_INPUT
         then \<lparr>det_status = T_WAITING_FOR_INPUT, det_tags = dedupe_tags (tags @ det_tags detected),
                det_phrases = det_phrases detected\<rparr>
         else \<lparr>det_status = status, det_tags = dedupe_tags (tags @ [task_status_value status]), det_phrases = []\<rparr>)"

definition effective_exit_code :: "agent_notification_input \<Rightarrow> int" where
  "effective_exit_code v = opt_or (ni_exit_code v) (if ni_status v = T_FAILED then 1 else 0)"

definition effective_status :: "agent_notification_input \<Rightarrow> task_status" where
  "effective_status v = (if ni_status v = T_SUCCEEDED \<and> effective_exit_code v \<noteq> 0 then T_FAILED else ni_status v)"

definition built_task :: "agent_notification_input \<Rightarrow> task_result" where
  "built_task v = \<lparr>t_name = ni_task_name v, t_command = ni_command v, t_exit_code = effective_exit_code v,
     t_duration = ni_duration v,
     t_stdout_tail = (if ni_output_tail v \<noteq> [] then ni_output_tail v
       else if ni_summary v \<noteq> [] then [ni_summary v] else []),
     t_stderr_tail = ni_stderr_tail v, t_source = agent_value (ni_agent v)\<rparr>"

definition build_agent_notification :: "agent_notification_input \<Rightarrow> notification_request" where
  "build_agent_notification v =
     \<lparr>nr_task = built_task v, nr_detection = build_detection v (built_task v) (effective_status v),
      nr_context = (if truthy_text (ni_session_id v)
        then Some \<lparr>nc_agent = ni_agent v, nc_session_id = the (ni_session_id v),
          nc_session_name = (if truthy_text (ni_session_name v) then the (ni_session_name v) else ni_task_name v)\<rparr>
        else None)\<rparr>"

subsection \<open>Events of Codex and Claude\<close>

record codex_event =
  ce_task_name :: string
  ce_session_id :: "string option"
  ce_session_name :: "string option"
  ce_status :: string
  ce_command :: "string list"
  ce_exit_code :: "int option"
  ce_duration :: string
  ce_output_tail :: "string list"
  ce_stderr_tail :: "string list"
  ce_tags :: "string list"

text \<open>\<^verbatim>\<open>str(value)\<close> of a JSON value that is no list.\<close>

fun py_repr_json :: "json \<Rightarrow> string" where
  "py_repr_json JNull = ''None''"
| "py_repr_json (JBool b) = (if b then ''True'' else ''False'')"
| "py_repr_json (JInt i) = show_int i"
| "py_repr_json (JFloat t) = t"
| "py_repr_json (JStr s) = py_repr s"
| "py_repr_json (JArr xs) = ''['' @ py_join '', '' (map py_repr_json xs) @ '']''"
| "py_repr_json (JObj kvs) = ''{'' @ py_join '', '' (map (\<lambda>(k, v). py_repr k @ '': '' @ py_repr_json v) kvs) @ ''}''"

definition py_str_json :: "json \<Rightarrow> string" where
  "py_str_json j = (case j of JStr s \<Rightarrow> s | _ \<Rightarrow> py_repr_json j)"

definition as_list :: "json \<Rightarrow> json" where
  "as_list j = (case j of JArr xs \<Rightarrow> JArr xs | _ \<Rightarrow> JArr [JStr (py_str_json j)])"

definition alias_field :: "string \<Rightarrow> string list \<Rightarrow> (json \<Rightarrow> json) \<Rightarrow> json_object \<Rightarrow> json_object" where
  "alias_field target sources f d =
     (if has_key d target then d
      else case find (has_key d) sources of None \<Rightarrow> d | Some k \<Rightarrow> dict_set target (f (jget d k)) d)"

definition accept_common_aliases :: "json_object \<Rightarrow> json_object" where
  "accept_common_aliases d =
     alias_field ''output_tail'' [''stdout_tail'', ''last_output'', ''message''] as_list (alias_field ''task_name'' [''name''] id d)"

definition accept_hook_aliases :: "json_object \<Rightarrow> json_object" where
  "accept_hook_aliases d =
     alias_field ''output_tail'' [''stdout_tail''] id
       (alias_field ''event_name'' [''hook_event_name''] id
         (alias_field ''session_name'' [''name''] id (alias_field ''session_id'' [''sessionId''] id d)))"

text \<open>\<^verbatim>\<open>parse_event_payload\<close>, with \<^verbatim>\<open>json.loads\<close> and the model's validation as parameters.\<close>

definition parse_event_payload ::
  "(string \<Rightarrow> json option) \<Rightarrow> (json_object \<Rightarrow> 'e outcome) \<Rightarrow> string \<Rightarrow> string \<Rightarrow> 'e outcome" where
  "parse_event_payload loads validate provider payload =
     (case loads payload of
        None \<Rightarrow> value_error (provider @ '' event payload must be valid JSON.'')
      | Some (JObj d) \<Rightarrow> (case validate d of
            Inl e \<Rightarrow> value_error (''Invalid '' @ provider @ '' event payload: '' @ exn_str e)
          | Inr event \<Rightarrow> Inr event)
      | Some _ \<Rightarrow> value_error (provider @ '' event payload must be a JSON object.''))"

definition SUCCESS_STATUSES :: "string list" where
  "SUCCESS_STATUSES = [''success'', ''succeeded'', ''completed'', ''complete'', ''done'']"

definition FAILED_STATUSES :: "string list" where
  "FAILED_STATUSES = [''failed'', ''failure'', ''error'', ''errored'']"

definition WAITING_STATUSES :: "string list" where
  "WAITING_STATUSES = [''waiting'', ''waiting_for_input'', ''needs_input'', ''need_user_input'',
     ''approval_required'', ''permission_required'', ''blocked'']"

definition dash_to_underscore :: "string \<Rightarrow> string" where
  "dash_to_underscore s = replace_char (CHR ''-'') ''_'' s"

definition normalize_status :: "string \<Rightarrow> task_status outcome" where
  "normalize_status status =
     (let v = dash_to_underscore (py_lower (py_strip status)) in
      if v \<in> set SUCCESS_STATUSES then Inr T_SUCCEEDED
      else if v \<in> set WAITING_STATUSES then Inr T_WAITING_FOR_INPUT
      else if v \<in> set FAILED_STATUSES then Inr T_FAILED
      else value_error (''Unsupported Codex status: '' @ py_repr status @ ''. '' @
        ''Use a terminal alias such as completed, failed, or approval_required.''))"

definition codex_event_to_notification :: "codex_event \<Rightarrow> notification_request outcome" where
  "codex_event_to_notification e =
     (case normalize_status (ce_status e) of Inl x \<Rightarrow> Inl x | Inr status \<Rightarrow>
        map_sum id build_agent_notification (checked_input
          \<lparr>ni_agent = CODEX, ni_task_name = ce_task_name e, ni_status = status, ni_command = ce_command e,
           ni_session_id = ce_session_id e, ni_session_name = ce_session_name e, ni_event_name = None,
           ni_exit_code = ce_exit_code e, ni_duration = ce_duration e, ni_summary = [],
           ni_output_tail = ce_output_tail e, ni_stderr_tail = ce_stderr_tail e, ni_tags = ce_tags e\<rparr>))"

record claude_event =
  cl_session_id :: string
  cl_session_name :: string
  cl_event_name :: string
  cl_status :: string
  cl_command :: "string list"
  cl_exit_code :: "int option"
  cl_duration :: string
  cl_summary :: string
  cl_output_tail :: "string list"
  cl_stderr_tail :: "string list"
  cl_tags :: "string list"

definition claude_event_status :: "claude_event \<Rightarrow> string \<Rightarrow> task_status outcome" where
  "claude_event_status e event_name =
     (if event_name \<in> {''permissionrequest'', ''userpromptsubmit''} then Inr T_WAITING_FOR_INPUT
      else let v = dash_to_underscore (py_casefold (py_strip (cl_status e))) in
        if v \<in> set SUCCESS_STATUSES then Inr T_SUCCEEDED
        else if v \<in> set FAILED_STATUSES then Inr T_FAILED
        else value_error (''Unsupported Claude status: '' @ py_repr (cl_status e)))"

definition claude_event_to_notification :: "claude_event \<Rightarrow> notification_request outcome" where
  "claude_event_to_notification e =
     (let event_name = py_casefold (py_strip (cl_event_name e)) in
      if event_name \<notin> {''stop'', ''permissionrequest'', ''userpromptsubmit''}
      then value_error (''Unsupported Claude event: '' @ py_repr (cl_event_name e))
      else case claude_event_status e event_name of Inl x \<Rightarrow> Inl x | Inr status \<Rightarrow>
        map_sum id build_agent_notification (checked_input
          \<lparr>ni_agent = CLAUDE, ni_task_name = cl_session_name e, ni_status = status, ni_command = cl_command e,
           ni_session_id = Some (cl_session_id e), ni_session_name = Some (cl_session_name e),
           ni_event_name = Some (cl_event_name e), ni_exit_code = cl_exit_code e, ni_duration = cl_duration e,
           ni_summary = cl_summary e, ni_output_tail = cl_output_tail e, ni_stderr_tail = cl_stderr_tail e,
           ni_tags = cl_tags e @ (if status = T_WAITING_FOR_INPUT then [''waiting_for_input''] else [])\<rparr>))"

subsection \<open>Events posted to the server\<close>

record agent_event =
  ae_name :: string
  ae_status :: task_status
  ae_source :: string
  ae_command :: "string list"
  ae_exit_code :: int
  ae_duration :: string
  ae_stdout_tail :: "string list"
  ae_stderr_tail :: "string list"
  ae_tags :: "string list"

definition event_detection :: "agent_event \<Rightarrow> task_result \<Rightarrow> detection_result" where
  "event_detection e task =
     (let detected = detect_output (combined_tail_text task) (t_exit_code task) in
      if det_status detected = T_WAITING_FOR_INPUT
      then \<lparr>det_status = T_WAITING_FOR_INPUT, det_tags = dedupe_tags (ae_tags e @ det_tags detected),
             det_phrases = det_phrases detected\<rparr>
      else \<lparr>det_status = ae_status e,
             det_tags = dedupe_tags (if ae_tags e = [] then [task_status_value (ae_status e)] else ae_tags e),
             det_phrases = []\<rparr>)"

definition event_to_notification :: "agent_event \<Rightarrow> notification_request" where
  "event_to_notification e =
     (let task = \<lparr>t_name = ae_name e, t_command = (if ae_command e = [] then [ae_source e, ae_name e] else ae_command e),
            t_exit_code = ae_exit_code e, t_duration = ae_duration e, t_stdout_tail = ae_stdout_tail e,
            t_stderr_tail = ae_stderr_tail e, t_source = ae_source e\<rparr>
      in \<lparr>nr_task = task, nr_detection = event_detection e task, nr_context = None\<rparr>)"

subsection \<open>The notification store and the service\<close>

record notification_store =
  ns_state :: "(string \<times> (string \<times> instant \<times> nat)) list"
  ns_history :: "(string \<times> string \<times> instant) list"

definition new_notification_store :: notification_store where
  "new_notification_store = \<lparr>ns_state = [], ns_history = []\<rparr>"

text \<open>Instants are microseconds, the cooldown is seconds.\<close>

definition should_send :: "string \<Rightarrow> int \<Rightarrow> instant \<Rightarrow> notification_store \<Rightarrow> bool" where
  "should_send key cooldown now st =
     (case map_of (ns_state st) key of
        None \<Rightarrow> True
      | Some (status, last_sent, n) \<Rightarrow> cooldown * 1000000 \<le> now - last_sent)"

definition record_sent :: "string \<Rightarrow> string \<Rightarrow> instant \<Rightarrow> notification_store \<Rightarrow> notification_store" where
  "record_sent key status now st =
     st\<lparr>ns_state := dict_set key (status, now,
          case map_of (ns_state st) key of None \<Rightarrow> 1 | Some (s, t, n) \<Rightarrow> Suc n) (ns_state st),
        ns_history := ns_history st @ [(key, status, now)]\<rparr>"

record lark_settings =
  ls_app_id :: string
  ls_app_secret :: string
  ls_receive_id :: string
  ls_cooldown :: int

definition missing_settings :: "lark_settings \<Rightarrow> string list" where
  "missing_settings c = map fst (filter (\<lambda>(name, v). v = [])
     [(''LARK_BOT_LARK_APP_ID'', ls_app_id c), (''LARK_BOT_LARK_APP_SECRET'', ls_app_secret c),
      (''LARK_BOT_LARK_RECEIVE_ID'', ls_receive_id c)])"

definition validate_lark_settings :: "lark_settings \<Rightarrow> unit outcome" where
  "validate_lark_settings c =
     (if missing_settings c = [] then Inr ()
      else Inl (Exn ''BadParameter'' (''Missing required Lark settings: '' @ py_join '', '' (missing_settings c))))"

datatype delivery = Delivered | Suppressed

text \<open>
  \<^verbatim>\<open>send_with_dedupe\<close>: \<open>now\<close> is the time of the check, \<open>later\<close> the time of the record, and \<open>sent\<close> what
  the client's \<^verbatim>\<open>send\<close> did.
\<close>

definition send_with_dedupe ::
  "lark_settings \<Rightarrow> instant \<Rightarrow> instant \<Rightarrow> unit outcome \<Rightarrow> notification_request \<Rightarrow> notification_store \<Rightarrow>
   delivery outcome \<times> notification_store" where
  "send_with_dedupe c now later sent r st =
     (case validate_lark_settings c of
        Inl e \<Rightarrow> (Inl e, st)
      | Inr _ \<Rightarrow>
          if \<not> should_send (dedupe_key r) (ls_cooldown c) now st then (Inr Suppressed, st)
          else case sent of
              Inl e \<Rightarrow> (Inl e, st)
            | Inr _ \<Rightarrow> (Inr Delivered, record_sent (dedupe_key r) (task_status_value (det_status (nr_detection r))) later st))"

text \<open>The route of \<^verbatim>\<open>agent_events.py\<close>, with a store and a notifier where they are configured.\<close>

datatype posted = PostedSent string | PostedCooldown | PostedNoNotifier

definition agent_events ::
  "int \<Rightarrow> instant \<Rightarrow> instant \<Rightarrow> unit outcome option \<Rightarrow> agent_event \<Rightarrow> notification_store option \<Rightarrow>
   posted outcome \<times> notification_store option" where
  "agent_events cooldown now later notifier e st =
     (let r = event_to_notification e; status = task_status_value (det_status (nr_detection r)) in
      if (case st of None \<Rightarrow> False | Some x \<Rightarrow> \<not> should_send (dedupe_key r) cooldown now x)
      then (Inr PostedCooldown, st)
      else case notifier of
          None \<Rightarrow> (Inr PostedNoNotifier, st)
        | Some (Inl x) \<Rightarrow> (Inl x, st)
        | Some (Inr _) \<Rightarrow> (Inr (PostedSent status), map_option (record_sent (dedupe_key r) status later) st))"


subsection \<open>Facts\<close>

lemma dedupe_from_distinct: "distinct (dedupe_from seen vs) \<and> set (dedupe_from seen vs) = set vs - set seen"
  by (induction seen vs rule: dedupe_from.induct) auto

lemma distinct_dedupe [simp]: "distinct (dedupe_tags vs)"
  using dedupe_from_distinct [of "[]" vs] by (simp add: dedupe_tags_def)

lemma set_dedupe [simp]: "set (dedupe_tags vs) = set vs"
  using dedupe_from_distinct [of "[]" vs] by (simp add: dedupe_tags_def)

lemma detect_waiting: "det_status (detect_output t x) = T_WAITING_FOR_INPUT \<longleftrightarrow> found_phrases t \<noteq> []"
  by (simp add: detect_output_def Let_def)

definition notification_faithful :: "agent_notification_input \<Rightarrow> notification_request \<Rightarrow> bool" where
  "notification_faithful v r \<longleftrightarrow>
     (let asked = found_phrases (combined_tail_text (nr_task r)) \<noteq> []; d = nr_detection r in
      (det_status d = T_WAITING_FOR_INPUT \<longleftrightarrow> ni_status v = T_WAITING_FOR_INPUT \<or> asked) \<and>
      (det_status d = T_SUCCEEDED \<longleftrightarrow>
         ni_status v = T_SUCCEEDED \<and> ni_exit_code v \<in> {None, Some 0} \<and> \<not> asked) \<and>
      distinct (det_tags d) \<and> agent_value (ni_agent v) \<in> set (det_tags d))"

lemma effective_success:
  "effective_status v = T_SUCCEEDED \<longleftrightarrow> ni_status v = T_SUCCEEDED \<and> ni_exit_code v \<in> {None, Some 0}"
  by (cases "ni_exit_code v") (auto simp: effective_status_def effective_exit_code_def)

lemma effective_waiting: "effective_status v = T_WAITING_FOR_INPUT \<longleftrightarrow> ni_status v = T_WAITING_FOR_INPUT"
  by (auto simp: effective_status_def)

lemma build_detection_status:
  "det_status (build_detection v t s) =
     (if s = T_WAITING_FOR_INPUT \<or> found_phrases (combined_tail_text t) \<noteq> [] then T_WAITING_FOR_INPUT else s)"
  by (simp add: build_detection_def Let_def detect_waiting)

lemma build_detection_tags:
  "distinct (det_tags (build_detection v t s))"
  "agent_value (ni_agent v) \<in> set (det_tags (build_detection v t s))"
  by (simp_all add: build_detection_def Let_def)

text \<open>
  The notification of an agent's report is a question to the user exactly when the report says so or one of
  the approval phrases stands in the output, and a success exactly when the report says so, its exit code is
  absent or zero and no such phrase stands in the output; its tags are distinct and name the agent.
\<close>

theorem notification_status: "notification_faithful v (build_agent_notification v)"
  by (auto simp: notification_faithful_def build_agent_notification_def Let_def build_detection_status
      build_detection_tags effective_success effective_waiting)

text \<open>
  The attempts to send, in their order: \<open>deliveries\<close> runs \<^verbatim>\<open>send_with_dedupe\<close> over the store and keeps, of every
  notification that was delivered, its key and the times of the check and of the record.
\<close>

record send_attempt =
  sa_checked :: instant
  sa_recorded :: instant
  sa_sent :: "unit outcome"
  sa_request :: notification_request

definition attempt ::
  "lark_settings \<Rightarrow> send_attempt \<Rightarrow> (string \<times> instant \<times> instant) list \<times> notification_store \<Rightarrow>
   (string \<times> instant \<times> instant) list \<times> notification_store" where
  "attempt c a = (\<lambda>(log, st).
     case send_with_dedupe c (sa_checked a) (sa_recorded a) (sa_sent a) (sa_request a) st of
       (Inr Delivered, st') \<Rightarrow> (log @ [(dedupe_key (sa_request a), sa_checked a, sa_recorded a)], st')
     | (_, st') \<Rightarrow> (log, st'))"

definition deliveries ::
  "lark_settings \<Rightarrow> send_attempt list \<Rightarrow> (string \<times> instant \<times> instant) list \<times> notification_store" where
  "deliveries c as = fold (attempt c) as ([], new_notification_store)"

definition spaced :: "int \<Rightarrow> (string \<times> instant \<times> instant) list \<Rightarrow> bool" where
  "spaced cooldown log \<longleftrightarrow>
     sorted_wrt (\<lambda>(k, c, r) (k', c', r'). k = k' \<longrightarrow> cooldown * 1000000 \<le> c' - r) log"

text \<open>The clock does not run backwards.\<close>

fun clock_from :: "instant \<Rightarrow> send_attempt list \<Rightarrow> bool" where
  "clock_from t [] = True"
| "clock_from t (a # as) = (t \<le> sa_checked a \<and> sa_checked a \<le> sa_recorded a \<and> clock_from (sa_recorded a) as)"

definition log_inv :: "int \<Rightarrow> instant \<Rightarrow> (string \<times> instant \<times> instant) list \<times> notification_store \<Rightarrow> bool" where
  "log_inv cooldown clock = (\<lambda>(log, st). spaced cooldown log \<and>
     (\<forall>k c r. (k, c, r) \<in> set log \<longrightarrow> r \<le> clock \<and> (\<exists>s t n. map_of (ns_state st) k = Some (s, t, n) \<and> r \<le> t)) \<and>
     map (\<lambda>(k, c, r). (k, r)) log = map (\<lambda>(k, s, t). (k, t)) (ns_history st))"

lemma send_with_dedupe_cases:
  "send_with_dedupe c now later sent r st =
     (if missing_settings c = [] \<and> should_send (dedupe_key r) (ls_cooldown c) now st \<and> sent = Inr ()
      then (Inr Delivered, record_sent (dedupe_key r) (task_status_value (det_status (nr_detection r))) later st)
      else (fst (send_with_dedupe c now later sent r st), st))"
  by (auto simp: send_with_dedupe_def validate_lark_settings_def split: sum.splits)

lemma not_delivered:
  "\<not> (missing_settings c = [] \<and> should_send (dedupe_key r) (ls_cooldown c) now st \<and> sent = Inr ()) \<Longrightarrow>
   fst (send_with_dedupe c now later sent r st) \<noteq> Inr Delivered"
  by (auto simp: send_with_dedupe_def validate_lark_settings_def split: sum.splits)

lemma attempt_inv:
  assumes "log_inv cd t0 (log, st)" "cd = ls_cooldown c" "t0 \<le> sa_checked a" "sa_checked a \<le> sa_recorded a"
  shows "log_inv cd (sa_recorded a) (attempt c a (log, st))"
proof (cases "missing_settings c = [] \<and> should_send (dedupe_key (sa_request a)) (ls_cooldown c) (sa_checked a) st \<and>
    sa_sent a = Inr ()")
  case True
  let ?k = "dedupe_key (sa_request a)"
  have "cd * 1000000 \<le> sa_checked a - r" if "(?k, x, r) \<in> set log" for x r
  proof -
    obtain s t n where "map_of (ns_state st) ?k = Some (s, t, n)" "r \<le> t"
      using assms(1) \<open>(?k, x, r) \<in> set log\<close> unfolding log_inv_def case_prod_conv by blast
    then show ?thesis
      using True assms(2) by (simp add: should_send_def)
  qed
  moreover have "r \<le> sa_recorded a" if "(k, x, r) \<in> set log" for k x r
  proof -
    have "r \<le> t0"
      using assms(1) \<open>(k, x, r) \<in> set log\<close> by (auto simp: log_inv_def)
    then show ?thesis
      using assms(3,4) by linarith
  qed
  ultimately show ?thesis
    using assms(1) True unfolding log_inv_def attempt_def
    apply (subst send_with_dedupe_cases)
    apply (auto simp: spaced_def sorted_wrt_append record_sent_def)
    done
next
  case False
  then have "attempt c a (log, st) = (log, st)"
    unfolding attempt_def using not_delivered [OF False]
    apply (subst send_with_dedupe_cases)
    apply (auto split: sum.splits delivery.splits)
    done
  then show ?thesis
    using assms by (force simp: log_inv_def)
qed

lemma attempts_inv:
  "log_inv (ls_cooldown c) t s \<Longrightarrow> clock_from t as \<Longrightarrow> \<exists>t'. log_inv (ls_cooldown c) t' (fold (attempt c) as s)"
proof (induction as arbitrary: t s)
  case (Cons a as)
  then have "log_inv (ls_cooldown c) (sa_recorded a) (attempt c a s)"
    using attempt_inv [of "ls_cooldown c" t "fst s" "snd s" c a] by simp
  then show ?case
    using Cons by (metis clock_from.simps(2) fold_simps(2))
qed auto


definition ex_settings :: lark_settings where
  "ex_settings = \<lparr>ls_app_id = ''a'', ls_app_secret = ''b'', ls_receive_id = ''c'', ls_cooldown = 300\<rparr>"

definition ex_request :: notification_request where
  "ex_request = event_to_notification \<lparr>ae_name = ''build'', ae_status = T_FAILED, ae_source = ''ci'', ae_command = [],
     ae_exit_code = 1, ae_duration = ''0.0'', ae_stdout_tail = [], ae_stderr_tail = [], ae_tags = []\<rparr>"

definition ex_attempts :: "send_attempt list" where
  "ex_attempts = map (\<lambda>t. \<lparr>sa_checked = t * 1000000, sa_recorded = t * 1000000, sa_sent = Inr (), sa_request = ex_request\<rparr>)
     [0, 100, 400]"


end
