(* ===== verification/Lark_Render.thy ===== *)
theory Lark_Render
  imports Notification
begin

text \<open>
  \<^verbatim>\<open>modules/lark/lark_render.py\<close> and \<^verbatim>\<open>modules/lark/lark_message.py\<close>: the text and the card that are sent
  to Lark, with the user mentions of untrusted text neutralised, and the markdown cut at its limit with
  its code fence closed. The rendered texts hold Chinese words, so they are lists of code points;
  \<open>u\<close> embeds a string.
\<close>

type_synonym utext = "nat list"

definition u :: "string \<Rightarrow> utext" where
  "u s = map of_char s"

subsection \<open>Code points\<close>

definition is_uspace :: "nat \<Rightarrow> bool" where
  "is_uspace c \<longleftrightarrow> (9 \<le> c \<and> c \<le> 13) \<or> (28 \<le> c \<and> c \<le> 32) \<or> c \<in> {133, 160, 5760} \<or> (8192 \<le> c \<and> c \<le> 8202) \<or>
     c \<in> {8232, 8233, 8239, 8287, 12288}"

definition is_ubreak :: "nat \<Rightarrow> bool" where
  "is_ubreak c \<longleftrightarrow> (10 \<le> c \<and> c \<le> 13) \<or> (28 \<le> c \<and> c \<le> 30) \<or> c \<in> {133, 8232, 8233}"

text \<open>\<^verbatim>\<open>splitlines(keepends=True)\<close>: \<open>split_break\<close> cuts the first line, its break included, off a text.\<close>

fun split_break :: "utext \<Rightarrow> utext \<times> utext" where
  "split_break [] = ([], [])"
| "split_break (c # cs) =
     (if c = 13 then (case cs of [] \<Rightarrow> ([c], []) | d # ds \<Rightarrow> if d = 10 then ([c, d], ds) else ([c], cs))
      else if is_ubreak c then ([c], cs)
      else (let (l, rest) = split_break cs in (c # l, rest)))"

lemma split_break_append: "fst (split_break s) @ snd (split_break s) = s"
  by (induction s rule: split_break.induct) (auto simp: split_def Let_def split: list.splits)

lemma split_break_nonempty: "s \<noteq> [] \<Longrightarrow> fst (split_break s) \<noteq> []"
  by (cases s) (auto simp: split_def Let_def split: list.splits)

lemma split_break_shorter: "s \<noteq> [] \<Longrightarrow> length (snd (split_break s)) < length s"
  using split_break_append [of s] split_break_nonempty [of s]
  by (metis add_diff_cancel_left' diff_less length_append length_greater_0_conv)

function ulines :: "utext \<Rightarrow> utext list" where
  "ulines s = (if s = [] then [] else fst (split_break s) # ulines (snd (split_break s)))"
  by auto
termination by (relation "measure length") (auto simp: split_break_shorter)

declare ulines.simps [simp del]

lemma ulines_code [code]:
  "ulines s = (case s of [] \<Rightarrow> [] | c # cs \<Rightarrow> fst (split_break s) # ulines (snd (split_break s)))"
  by (subst ulines.simps) (simp del: split_break.simps split: list.split)

definition rstrip_crlf :: "utext \<Rightarrow> utext" where
  "rstrip_crlf s = rev (dropWhile (\<lambda>c. c = 13 \<or> c = 10) (rev s))"

subsection \<open>At-tags\<close>

text \<open>
  \<^verbatim>\<open>_LARK_AT_TAG_RE\<close>: \<open>at_open\<close> matches \<^verbatim>\<open></?at\<close>, without regard to case, and returns what follows; \<open>at_tag\<close>
  returns the match and what follows it. The body of a tag holds no angle bracket and, unless it is empty, starts
  with white space, so a match is unique.
\<close>

definition at_open :: "utext \<Rightarrow> utext option" where
  "at_open s = (case s of [] \<Rightarrow> None | c # cs \<Rightarrow>
     if c \<noteq> 60 then None
     else case (if cs \<noteq> [] \<and> hd cs = 47 then tl cs else cs) of
         a # t # rest \<Rightarrow> if a \<in> {65, 97} \<and> t \<in> {84, 116} then Some rest else None
       | _ \<Rightarrow> None)"

definition no_bracket :: "nat \<Rightarrow> bool" where
  "no_bracket c \<longleftrightarrow> c \<noteq> 60 \<and> c \<noteq> 62"

definition at_tag :: "utext \<Rightarrow> (utext \<times> utext) option" where
  "at_tag s = (case at_open s of None \<Rightarrow> None | Some rest \<Rightarrow>
     let body = takeWhile no_bracket rest; after = dropWhile no_bracket rest in
     if (body = [] \<or> is_uspace (hd body)) \<and> after \<noteq> [] \<and> hd after = 62
     then Some (take (length s - length (tl after)) s, tl after)
     else None)"

definition escape_brackets :: "utext \<Rightarrow> utext" where
  "escape_brackets m = concat (map (\<lambda>c. if c = 60 then u ''&#60;'' else if c = 62 then u ''&#62;'' else [c]) m)"

lemma at_open_shorter: "at_open s = Some r \<Longrightarrow> length r < length s"
  by (cases s; cases "tl s") (auto simp: at_open_def split: list.splits if_splits)

lemma at_tag_shorter:
  assumes "at_tag s = Some (m, r)"
  shows "length r < length s"
proof -
  obtain q where q: "at_open s = Some q" "r = tl (dropWhile no_bracket q)"
    using assms by (auto simp: at_tag_def Let_def split: option.splits if_splits)
  have "length r \<le> length q"
    using q(2) length_dropWhile_le [of no_bracket q] by simp
  then show ?thesis
    using at_open_shorter [OF q(1)] by simp
qed

function escape_lark_at_tags :: "utext \<Rightarrow> utext" where
  "escape_lark_at_tags s =
     (case at_tag s of
        Some (m, rest) \<Rightarrow> escape_brackets m @ escape_lark_at_tags rest
      | None \<Rightarrow> (case s of [] \<Rightarrow> [] | c # cs \<Rightarrow> c # escape_lark_at_tags cs))"
  by auto
termination by (relation "measure length") (auto simp: at_tag_shorter)

declare escape_lark_at_tags.simps [simp del]

subsection \<open>Fences and code spans\<close>

text \<open>\<^verbatim>\<open>_FENCE_LINE_RE\<close> on a line: the mark, the length of its run, and what follows.\<close>

definition fence_match :: "utext \<Rightarrow> (nat \<times> nat \<times> utext) option" where
  "fence_match line =
     (let spaces = takeWhile (\<lambda>c. c = 32) line; rest = dropWhile (\<lambda>c. c = 32) line in
      if 3 < length spaces \<or> rest = [] \<or> hd rest \<notin> {96, 126} then None
      else let n = length (takeWhile (\<lambda>c. c = hd rest) rest) in
        if n < 3 then None else Some (hd rest, n, drop n rest))"

definition fence_marker :: "utext \<Rightarrow> (nat \<times> nat) option" where
  "fence_marker line = map_option (\<lambda>(c, n, rest). (c, n)) (fence_match (rstrip_crlf line))"

definition closes_fence :: "utext \<Rightarrow> nat \<times> nat \<Rightarrow> nat \<times> nat \<Rightarrow> bool" where
  "closes_fence line fence opened =
     (case fence_match (rstrip_crlf line) of None \<Rightarrow> False
      | Some (c, n, rest) \<Rightarrow> fst fence = fst opened \<and> snd opened \<le> snd fence \<and> list_all is_uspace rest)"

definition fence_step :: "(nat \<times> nat) option \<Rightarrow> utext \<Rightarrow> (nat \<times> nat) option" where
  "fence_step opened line =
     (case opened of
        None \<Rightarrow> fence_marker line
      | Some f \<Rightarrow> (case fence_marker line of
            None \<Rightarrow> Some f
          | Some g \<Rightarrow> if closes_fence line g f then None else Some f))"

definition unclosed_fence :: "utext \<Rightarrow> (nat \<times> nat) option" where
  "unclosed_fence s = foldl fence_step None (ulines s)"

definition is_escaped :: "utext \<Rightarrow> nat \<Rightarrow> bool" where
  "is_escaped s i \<longleftrightarrow> odd (length (takeWhile (\<lambda>c. c = 92) (rev (take i s))))"

text \<open>The runs of backticks of a text: where each starts and how long it is.\<close>

function backtick_runs :: "nat \<Rightarrow> utext \<Rightarrow> (nat \<times> nat) list" where
  "backtick_runs i s =
     (case s of [] \<Rightarrow> []
      | c # cs \<Rightarrow> if c = 96
          then let n = length (takeWhile (\<lambda>d. d = 96) s) in (i, n) # backtick_runs (i + n) (drop n s)
          else backtick_runs (Suc i) cs)"
  by auto
termination by (relation "measure (\<lambda>(i, s). length s)") auto

definition slice :: "nat \<Rightarrow> nat \<Rightarrow> utext \<Rightarrow> utext" where
  "slice i j s = drop i (take j s)"

lemma dropWhile_shorter: "dropWhile p xs = y # ys \<Longrightarrow> length ys < length xs"
  using length_dropWhile_le [of p xs] by simp

function neutralize_spans :: "utext \<Rightarrow> nat \<Rightarrow> (nat \<times> nat) list \<Rightarrow> utext" where
  "neutralize_spans s cursor ms =
     (case ms of
        [] \<Rightarrow> escape_lark_at_tags (drop cursor s)
      | (i, n) # later \<Rightarrow> (case dropWhile (\<lambda>(j, m). m \<noteq> n) later of
            [] \<Rightarrow> escape_lark_at_tags (drop cursor s)
          | (j, m) # rest \<Rightarrow>
              escape_lark_at_tags (slice cursor i s) @ slice i (j + m) s @ neutralize_spans s (j + m) rest))"
  by auto
termination
  by (relation "measure (\<lambda>(s, c, ms). length ms)") (auto dest: dropWhile_shorter)

declare neutralize_spans.simps [simp del]
declare backtick_runs.simps [simp del]

definition neutralize_inline_mentions :: "utext \<Rightarrow> utext" where
  "neutralize_inline_mentions s =
     neutralize_spans s 0 (filter (\<lambda>(i, n). \<not> is_escaped s i) (backtick_runs 0 s))"

text \<open>One line of \<^verbatim>\<open>_neutralize_lark_mentions\<close>: the fence that is open before and after it, and what is emitted.\<close>

definition neutralize_line :: "utext \<times> (nat \<times> nat) option \<Rightarrow> utext \<Rightarrow> utext \<times> (nat \<times> nat) option" where
  "neutralize_line = (\<lambda>(out, opened) line.
     (out @ (if opened = None \<and> fence_marker line = None then neutralize_inline_mentions line else line),
      fence_step opened line))"

definition neutralize_lark_mentions :: "utext \<Rightarrow> utext" where
  "neutralize_lark_mentions markdown = fst (foldl neutralize_line ([], None) (ulines markdown))"

definition closing_fence :: "nat \<times> nat \<Rightarrow> utext" where
  "closing_fence f = 10 # replicate (snd f) (fst f)"

definition truncate_markdown :: "utext \<Rightarrow> nat \<Rightarrow> utext" where
  "truncate_markdown s limit =
     (if length s \<le> limit then s
      else if limit \<le> 3 then take limit s
      else let prefix = take (limit - 3) s in
        case unclosed_fence prefix of
          None \<Rightarrow> prefix @ u ''...''
        | Some f \<Rightarrow>
            if limit \<le> 3 + length (closing_fence f) then take limit s
            else let prefix = take (limit - 3 - length (closing_fence f)) s in
              case unclosed_fence prefix of
                None \<Rightarrow> prefix @ u ''...''
              | Some g \<Rightarrow> prefix @ u ''...'' @ closing_fence g)"


subsection \<open>Messages\<close>

datatype message_format = FCard | FText

datatype header_template = GREEN | RED | ORANGE | BLUE | PURPLE | WATHET | TURQUOISE | YELLOW | GREY

fun template_name :: "header_template \<Rightarrow> string" where
  "template_name GREEN = ''green''"
| "template_name RED = ''red''"
| "template_name ORANGE = ''orange''"
| "template_name BLUE = ''blue''"
| "template_name PURPLE = ''purple''"
| "template_name WATHET = ''wathet''"
| "template_name TURQUOISE = ''turquoise''"
| "template_name YELLOW = ''yellow''"
| "template_name GREY = ''grey''"

datatype content = CStr utext | CBool bool | CArr "content list" | CObj "(string \<times> content) list"

record rendered_message =
  msg_type :: string
  msg_content :: content

definition text_message :: "utext \<Rightarrow> rendered_message" where
  "text_message t = \<lparr>msg_type = ''text'', msg_content = CObj [(''text'', CStr t)]\<rparr>"

definition interactive_card :: "utext \<Rightarrow> utext \<Rightarrow> header_template \<Rightarrow> rendered_message" where
  "interactive_card title markdown template =
     \<lparr>msg_type = ''interactive'',
      msg_content = CObj [(''schema'', CStr (u ''2.0'')), (''config'', CObj [(''wide_screen_mode'', CBool True)]),
        (''header'', CObj [(''title'', CObj [(''tag'', CStr (u ''plain_text'')), (''content'', CStr (take 100 title))]),
          (''template'', CStr (u (template_name template)))]),
        (''body'', CObj [(''elements'', CArr [CObj [(''tag'', CStr (u ''markdown'')), (''content'', CStr markdown)]])])]\<rparr>"

text \<open>\<^verbatim>\<open>json.dumps(value, ensure_ascii=False)\<close> on these contents.\<close>

definition hex_point :: "nat \<Rightarrow> nat" where
  "hex_point d = (if d < 10 then 48 + d else 87 + d)"

definition dumps_char :: "nat \<Rightarrow> utext" where
  "dumps_char c =
     (if c = 34 then u ''\"'' else if c = 92 then [92, 92]
      else if c = 8 then [92, 98] else if c = 12 then [92, 102] else if c = 10 then [92, 110]
      else if c = 13 then [92, 114] else if c = 9 then [92, 116]
      else if c < 32 then [92, 117, 48, 48, hex_point (c div 16), hex_point (c mod 16)] else [c])"

definition dumps_text :: "utext \<Rightarrow> utext" where
  "dumps_text t = 34 # concat (map dumps_char t) @ [34]"

fun ujoin :: "utext \<Rightarrow> utext list \<Rightarrow> utext" where
  "ujoin sep [] = []"
| "ujoin sep [x] = x"
| "ujoin sep (x # xs) = x @ sep @ ujoin sep xs"

fun content_text :: "content \<Rightarrow> utext" where
  "content_text (CStr t) = dumps_text t"
| "content_text (CBool b) = u (if b then ''true'' else ''false'')"
| "content_text (CArr xs) = [91] @ ujoin (u '', '') (map content_text xs) @ [93]"
| "content_text (CObj kvs) = [123] @ ujoin (u '', '') (map (\<lambda>(k, v). dumps_text (u k) @ u '': '' @ content_text v) kvs) @ [125]"

definition build_api_payload :: "string \<Rightarrow> rendered_message \<Rightarrow> (string \<times> utext) list" where
  "build_api_payload receive_id m =
     [(''receive_id'', u receive_id), (''msg_type'', u (msg_type m)), (''content'', content_text (msg_content m))]"

definition build_text_message :: "string \<Rightarrow> utext \<Rightarrow> (string \<times> utext) list" where
  "build_text_message receive_id t =
     [(''receive_id'', u receive_id), (''msg_type'', u ''text''), (''content'', content_text (CObj [(''text'', CStr t)]))]"

definition build_interactive_message :: "string \<Rightarrow> content \<Rightarrow> (string \<times> utext) list" where
  "build_interactive_message receive_id c =
     [(''receive_id'', u receive_id), (''msg_type'', u ''interactive''), (''content'', content_text c)]"

subsection \<open>Rendering\<close>

record session_display =
  sd_session_id :: string
  sd_session_name :: string
  sd_agent :: agent_kind

definition short_id :: "session_display \<Rightarrow> string" where
  "short_id d = take 8 (sd_session_id d)"

definition display_label :: "session_display \<Rightarrow> string" where
  "display_label d = agent_value (sd_agent d) @ '' / '' @ sd_session_name d @ '' ['' @ short_id d @ '']''"

definition context_display :: "notification_context \<Rightarrow> session_display" where
  "context_display x = \<lparr>sd_session_id = nc_session_id x, sd_session_name = nc_session_name x, sd_agent = nc_agent x\<rparr>"

text \<open>\<^verbatim>\<open>lines[-n:]\<close>, which is the whole list for \<open>n = 0\<close>.\<close>

definition last_lines :: "nat \<Rightarrow> string list \<Rightarrow> string list" where
  "last_lines n ls = (if n = 0 then ls else drop (length ls - n) ls)"

definition tags_text :: "notification_request \<Rightarrow> string" where
  "tags_text r = (if det_tags (nr_detection r) = [] then ''-'' else py_join '', '' (det_tags (nr_detection r)))"

definition session_line :: "string \<Rightarrow> notification_request \<Rightarrow> string list" where
  "session_line mark r = (case nr_context r of None \<Rightarrow> []
     | Some x \<Rightarrow> [mark @ ''Session:'' @ mark @ '' '' @ display_label (context_display x)])"

definition task_body_text :: "notification_request \<Rightarrow> nat \<Rightarrow> string" where
  "task_body_text r n =
     (let t = nr_task r; tail = last_lines n (py_splitlines (combined_tail_text t)) in
      py_join [CHR 0x0A]
        ([''Lark Bot: '' @ task_status_value (det_status (nr_detection r)), ''Task: '' @ t_name t, ''Source: '' @ t_source t] @
         session_line [] r @
         [''Exit code: '' @ show_int (t_exit_code t), ''Duration: '' @ t_duration t @ ''s'', ''Tags: '' @ tags_text r] @
         (if tail = [] then [] else [[], ''Output tail:''] @ tail)))"

definition task_markdown :: "notification_request \<Rightarrow> nat \<Rightarrow> string" where
  "task_markdown r n =
     (let t = nr_task r; tail = last_lines n (py_splitlines (combined_tail_text t)) in
      py_join [CHR 0x0A]
        ([''**Task:** '' @ t_name t, ''**Source:** '' @ t_source t] @ session_line ''**'' r @
         [''**Exit:** '' @ show_int (t_exit_code t) @ '' '' @ [CHR 0xB7] @ '' **Duration:** '' @ t_duration t @ ''s'',
          ''**Tags:** '' @ tags_text r] @
         (if tail = [] then [] else [[], ''### Output'', [], py_join [CHR 0x0A] tail])))"

definition MARKDOWN_BODY_LIMIT :: nat where
  "MARKDOWN_BODY_LIMIT = 4000"

definition status_template :: "task_status \<Rightarrow> header_template" where
  "status_template s = (case s of T_SUCCEEDED \<Rightarrow> GREEN | T_FAILED \<Rightarrow> RED | T_WAITING_FOR_INPUT \<Rightarrow> ORANGE)"

definition render_task_notification :: "notification_request \<Rightarrow> message_format \<Rightarrow> nat \<Rightarrow> rendered_message" where
  "render_task_notification r fmt n =
     (let body = escape_lark_at_tags (u (redact_text (task_body_text r n))) in
      case fmt of
        FText \<Rightarrow> text_message body
      | FCard \<Rightarrow>
          interactive_card (u (''Lark Bot: '' @ task_status_value (det_status (nr_detection r))))
            (truncate_markdown (neutralize_lark_mentions (u (redact_text (task_markdown r n)))) MARKDOWN_BODY_LIMIT)
            (status_template (det_status (nr_detection r))))"

definition render_notification_text :: "notification_request \<Rightarrow> nat \<Rightarrow> string" where
  "render_notification_text r n = redact_text (task_body_text r n)"

definition OUTBOX_HEADINGS :: "(string \<times> utext) list" where
  "OUTBOX_HEADINGS =
     [(''orchestrator:session_completed'', u ''Codex '' @ [20250, 35805, 24050, 23436, 25104]),
      (''orchestrator:session_interrupted'', u ''Codex '' @ [20250, 35805, 24050, 20013, 26029]),
      (''orchestrator:turn_completed'', u ''Codex '' @ [26412, 36718, 24050, 23436, 25104]),
      (''orchestrator:turn_interrupted'', u ''Codex '' @ [26412, 36718, 24050, 20013, 26029])]"

definition INPUT_INSTRUCTION :: utext where
  "INPUT_INSTRUCTION =
     [35831, 22238, 22797, 26412, 28040, 24687, 24182, 32, 64, 26426, 22120, 20154, 12290, 33509, 26377, 22810, 20010,
      38382, 39064, 65292, 35831, 27599, 34892, 20351, 29992, 32, 96, 49, 58, 32, 22238, 31572, 96, 32, 30340, 26684,
      24335, 12290]"

definition APPROVAL_INSTRUCTION :: utext where
  "APPROVAL_INSTRUCTION =
     [35831, 38271, 25353, 26412, 28040, 24687, 24182, 36873, 25321, 8220, 22238, 22797, 8221, 65306, 36755, 20837, 32,
      121, 101, 115, 32, 25110, 32, 121, 32, 34920, 31034, 20801, 35768, 65292, 36755, 20837, 32, 110, 111, 32, 25110,
      32, 110, 32, 34920, 31034, 25298, 32477, 12290, 20063, 21487, 20351, 29992, 32, 128077, 32, 47, 32, 128078, 12290]"

fun replace_text :: "string \<Rightarrow> string \<Rightarrow> nat \<Rightarrow> string \<Rightarrow> string" where
  "replace_text old new skip [] = []"
| "replace_text old new (Suc k) (c # cs) = replace_text old new k cs"
| "replace_text old new 0 (c # cs) =
     (if take (length old) (c # cs) = old then new @ replace_text old new (length old - 1) cs
      else c # replace_text old new 0 cs)"

text \<open>\<open>kind\<close> is the kind of the interaction, where the item has one.\<close>

definition outbox_heading_and_instruction :: "string \<Rightarrow> interaction_kind option \<Rightarrow> utext \<times> utext option" where
  "outbox_heading_and_instruction ty kind =
     (if suffix ''interaction_requested'' ty
      then if kind = Some USER_INPUT
        then (u ''Codex '' @ [35831, 27714, 36755, 20837], Some INPUT_INSTRUCTION)
        else (u ''Codex '' @ [35831, 27714, 23457, 25209], Some APPROVAL_INSTRUCTION)
      else (opt_or (map_of OUTBOX_HEADINGS ty)
              (u (replace_char (CHR ''_'') '' '' (replace_text ''orchestrator:'' ''Codex '' 0 ty))), None))"

definition outbox_plain_text :: "utext \<Rightarrow> utext \<Rightarrow> utext option \<Rightarrow> utext option \<Rightarrow> utext" where
  "outbox_plain_text heading summary instruction label =
     ujoin [10] ([heading] @ (case label of None \<Rightarrow> [] | Some l \<Rightarrow> [u ''Session: '' @ l]) @
       (if summary = [] then [] else [summary]) @ (case instruction of None \<Rightarrow> [] | Some i \<Rightarrow> [i]))"

definition outbox_markdown :: "utext \<Rightarrow> utext option \<Rightarrow> utext option \<Rightarrow> utext" where
  "outbox_markdown summary instruction label =
     (let parts = (case label of None \<Rightarrow> [] | Some l \<Rightarrow> [u ''**Session:** '' @ l, []]) @
        (if summary = [] then [] else [summary]) in
      ujoin [10] (parts @ (case instruction of None \<Rightarrow> []
        | Some i \<Rightarrow> (if parts = [] then [] else [[], u ''---'', []]) @ [i])))"

definition session_display_from_item :: "outbox_item \<Rightarrow> session_display option outcome" where
  "session_display_from_item item =
     (if truthy_text (o_session_id item) \<and> truthy_text (o_session_name item) \<and> truthy_text (o_agent item)
      then case agent_of (the (o_agent item)) of
          None \<Rightarrow> value_error (py_repr (the (o_agent item)) @ '' is not a valid AgentKind'')
        | Some a \<Rightarrow> Inr (Some \<lparr>sd_session_id = the (o_session_id item), sd_session_name = the (o_session_name item),
            sd_agent = a\<rparr>)
      else Inr None)"

definition outbox_template :: "string \<Rightarrow> interaction_kind option \<Rightarrow> header_template" where
  "outbox_template ty kind =
     (let lowered = py_casefold ty in
      if suffix ''interaction_requested'' lowered then ORANGE
      else if list_ex (\<lambda>t. sublist t lowered) [''failed'', ''interrupted'', ''degraded'', ''error''] then RED
      else if list_ex (\<lambda>t. sublist t lowered) [''completed'', ''succeeded'', ''resolved''] then GREEN
      else if kind = Some USER_INPUT then ORANGE
      else BLUE)"

definition render_outbox_notification ::
  "outbox_item \<Rightarrow> message_format \<Rightarrow> interaction_kind option \<Rightarrow> session_display option \<Rightarrow> rendered_message outcome" where
  "render_outbox_notification item fmt kind session =
     (let (heading, instruction) = outbox_heading_and_instruction (o_notification_type item) kind;
          summary = u (redact_text (o_payload_summary item)) in
      case (case session of Some d \<Rightarrow> Inr (Some d) | None \<Rightarrow> session_display_from_item item) of
        Inl e \<Rightarrow> Inl e
      | Inr display \<Rightarrow>
          let label = map_option (\<lambda>d. u (display_label d)) display;
              plain = escape_lark_at_tags (outbox_plain_text heading summary instruction label) in
          Inr (case fmt of
              FText \<Rightarrow> text_message plain
            | FCard \<Rightarrow> interactive_card heading
                (truncate_markdown (neutralize_lark_mentions (outbox_markdown summary instruction label)) MARKDOWN_BODY_LIMIT)
                (outbox_template (o_notification_type item) kind)))"

end
