(* ===== verification/Lark_Render_Properties.thy ===== *)
theory Lark_Render_Properties
  imports Lark_Render
begin

text \<open>
  What the rendering guarantees: the limits of a card and of its title, and the absence of mentions in a
  text. The first part shows how the lines of a text change when it is extended, which is what a
  cut takes back.
\<close>

subsection \<open>Lines of an extended text\<close>

lemma concat_ulines: "concat (ulines s) = s"
proof (induction s rule: ulines.induct)
  case (1 s)
  then show ?case
    by (subst ulines.simps) (auto simp: split_break_append)
qed

lemma ulines_Nil [simp]: "ulines [] = []"
  by (simp add: ulines.simps)

lemma ulines_unfold: "s \<noteq> [] \<Longrightarrow> ulines s = fst (split_break s) # ulines (snd (split_break s))"
  by (simp add: ulines.simps)

lemma split_break_more:
  "snd (split_break s) \<noteq> [] \<Longrightarrow> split_break (s @ x) = (fst (split_break s), snd (split_break s) @ x)"
proof (induction s)
  case (Cons c cs)
  consider "c = 13" | "c \<noteq> 13" "is_ubreak c" | "c \<noteq> 13" "\<not> is_ubreak c"
    by blast
  then show ?case
  proof cases
    case 1
    then show ?thesis
      using Cons.prems by (cases cs) auto
  next
    case 2
    then show ?thesis
      by simp
  next
    case 3
    then show ?thesis
      using Cons by (simp add: split_def Let_def)
  qed
qed simp

lemma split_break_ends: "snd (split_break s) \<noteq> [] \<Longrightarrow> is_ubreak (last (fst (split_break s)))"
proof (induction s)
  case (Cons c cs)
  have b: "is_ubreak 13" "is_ubreak 10"
    by (simp_all add: is_ubreak_def)
  consider "c = 13" | "c \<noteq> 13" "is_ubreak c" | "c \<noteq> 13" "\<not> is_ubreak c"
    by blast
  then show ?case
  proof cases
    case 1
    then show ?thesis
      using b by (cases cs) auto
  next
    case 2
    then show ?thesis
      by simp
  next
    case 3
    then have "cs \<noteq> []"
      using Cons.prems by auto
    then have "fst (split_break cs) \<noteq> []"
      by (rule split_break_nonempty)
    then show ?thesis
      using Cons 3 by (simp add: split_def Let_def)
  qed
qed simp

lemma ulines_append:
  assumes "ulines s = ls @ [l]"
  shows "ulines (s @ x) = ls @ ulines (l @ x)"
  using assms
proof (induction s arbitrary: ls rule: ulines.induct)
  case (1 s)
  have ne: "s \<noteq> []"
    using 1(2) by auto
  show ?case
  proof (cases "snd (split_break s) = []")
    case True
    then have "fst (split_break s) = s"
      using split_break_append [of s] by simp
    then have "ulines s = [s]"
      using ne True by (simp add: ulines_unfold)
    then show ?thesis
      using 1(2) by (cases ls) auto
  next
    case False
    then obtain ls' where ls': "ls = fst (split_break s) # ls'" "ulines (snd (split_break s)) = ls' @ [l]"
      using 1(2) ne by (cases ls) (auto simp: ulines_unfold)
    have "ulines (s @ x) = fst (split_break s) # ulines (snd (split_break s) @ x)"
      using ne False split_break_more [of s x] by (simp add: ulines_unfold)
    then show ?thesis
      using 1(1) [OF ne ls'(2)] ls'(1) by simp
  qed
qed

subsection \<open>Fences of an extended line\<close>

lemma dropWhile_ends: "dropWhile (\<lambda>d. d = c) xs = [] \<or> hd (dropWhile (\<lambda>d. d = c) xs) \<noteq> c"
  using hd_dropWhile [of "\<lambda>d. d = c" xs] by metis

lemma takeWhile_replicate: "takeWhile (\<lambda>d. d = c) xs = replicate (length (takeWhile (\<lambda>d. d = c) xs)) c"
  by (metis (full_types) replicate_length_same set_takeWhileD)

lemma fence_match_SomeD:
  assumes "fence_match p = Some (c, n, r)"
  shows "\<exists>k. p = replicate k 32 @ replicate n c @ r \<and> k \<le> 3" "3 \<le> n" "c \<in> {96, 126}" "r = [] \<or> hd r \<noteq> c"
proof -
  let ?sp = "\<lambda>c::nat. c = 32"
  define q where "q = dropWhile ?sp p"
  have q: "q \<noteq> []" "hd q = c" "c \<in> {96, 126}" "length (takeWhile ?sp p) \<le> 3"
    "n = length (takeWhile (\<lambda>d. d = c) q)" "3 \<le> n" "r = drop n q"
    using assms by (auto simp: fence_match_def Let_def q_def split: if_splits)
  have "r = dropWhile (\<lambda>d. d = c) q"
    using q(5,7) by (simp add: dropWhile_eq_drop)
  then have "q = replicate n c @ r"
    using takeWhile_dropWhile_id [of "\<lambda>d. d = c" q] takeWhile_replicate [of c q] q(5) by simp
  moreover have "p = replicate (length (takeWhile ?sp p)) 32 @ q"
    using takeWhile_dropWhile_id [of ?sp p] takeWhile_replicate [of 32 p] q_def by simp
  ultimately show "\<exists>k. p = replicate k 32 @ replicate n c @ r \<and> k \<le> 3"
    using q(4) by metis
  show "3 \<le> n" "c \<in> {96, 126}" "r = [] \<or> hd r \<noteq> c"
    using q(3,6) \<open>r = dropWhile (\<lambda>d. d = c) q\<close> dropWhile_ends [of c q] by simp_all
qed

lemma fence_match_intro:
  assumes "p = replicate k 32 @ replicate n c @ r" "k \<le> 3" "3 \<le> n" "c \<in> {96, 126}" "r = [] \<or> hd r \<noteq> c"
  shows "fence_match p = Some (c, n, r)"
proof -
  obtain m where m: "n = Suc m"
    using assms(3) by (cases n) auto
  have "takeWhile (\<lambda>d. d = 32) p = replicate k 32" "dropWhile (\<lambda>d. d = 32) p = replicate n c @ r"
    using assms(1,4) m by (auto simp: takeWhile_append dropWhile_append)
  moreover have "takeWhile (\<lambda>d. d = c) (replicate n c @ r) = replicate n c"
    using assms(5) by (cases r) (auto simp: takeWhile_append)
  moreover have "hd (replicate n c @ r) = c" "replicate n c @ r \<noteq> []"
    using m by simp_all
  ultimately show ?thesis
    using assms(2-4) by (simp add: fence_match_def Let_def)
qed

lemma fence_match_grows:
  assumes "fence_match p = Some (c, n, r)"
  shows "\<exists>m r'. fence_match (p @ z) = Some (c, m, r') \<and> n \<le> m"
proof -
  obtain k where k: "p = replicate k 32 @ replicate n c @ r" "k \<le> 3"
    using fence_match_SomeD(1) [OF assms] by blast
  define w where "w = length (takeWhile (\<lambda>d. d = c) (r @ z))"
  define y where "y = dropWhile (\<lambda>d. d = c) (r @ z)"
  have "r @ z = replicate w c @ y"
    unfolding w_def y_def takeWhile_replicate [symmetric] by (simp only: takeWhile_dropWhile_id)
  then have "p @ z = replicate k 32 @ replicate (n + w) c @ y"
    using k(1) by (simp add: replicate_add)
  from fence_match_intro [OF this k(2) _ fence_match_SomeD(3) [OF assms]] show ?thesis
    using fence_match_SomeD(2) [OF assms] dropWhile_ends [of c "r @ z"] unfolding y_def
    by (metis le_add1 order_trans)
qed


lemma rstrip_crlf_append:
  "rstrip_crlf (xs @ ys) = (if \<forall>c \<in> set ys. c = 13 \<or> c = 10 then rstrip_crlf xs else xs @ rstrip_crlf ys)"
  unfolding rstrip_crlf_def rev_append by (auto simp: dropWhile_append)

lemma rstrip_crlf_prefix: "\<exists>w. l = rstrip_crlf l @ w"
  unfolding rstrip_crlf_def by (metis rev_append rev_rev_ident takeWhile_dropWhile_id)

lemma rstrip_crlf_grows: "\<exists>z. rstrip_crlf (l @ y) = rstrip_crlf l @ z"
proof -
  obtain w where "l = rstrip_crlf l @ w"
    using rstrip_crlf_prefix by blast
  then have "\<exists>z. l @ rstrip_crlf y = rstrip_crlf l @ z"
    by (metis append.assoc)
  then show ?thesis
    by (simp add: rstrip_crlf_append)
qed

lemma fence_marker_grows:
  assumes "fence_marker l = Some (c, m)"
  shows "\<exists>m'. fence_marker (l @ y) = Some (c, m') \<and> m \<le> m'"
proof -
  obtain r where "fence_match (rstrip_crlf l) = Some (c, m, r)"
    using assms by (auto simp: fence_marker_def)
  from fence_match_grows [OF this] rstrip_crlf_grows [of l y]
  show ?thesis
    by (metis (no_types, lifting) case_prod_conv fence_marker_def option.simps(9))
qed

lemma fence_marker_length:
  assumes "fence_marker l = Some (c, m)"
  shows "m \<le> length l" "3 \<le> m"
proof -
  obtain r where r: "fence_match (rstrip_crlf l) = Some (c, m, r)"
    using assms by (auto simp: fence_marker_def)
  obtain k where "rstrip_crlf l = replicate k 32 @ replicate m c @ r"
    using fence_match_SomeD(1) [OF r] by blast
  then have "m \<le> length (rstrip_crlf l)"
    by simp
  also have "\<dots> \<le> length l"
    using rstrip_crlf_prefix [of l] by (metis length_append le_add1)
  finally show "m \<le> length l" .
  show "3 \<le> m"
    by (rule fence_match_SomeD(2) [OF r])
qed

lemma fence_step_None [simp]: "fence_step None l = fence_marker l"
  by (simp add: fence_step_def)

lemma fence_step_closes:
  "fence_step (Some f) l = None \<longleftrightarrow>
     (\<exists>n r. fence_match (rstrip_crlf l) = Some (fst f, n, r) \<and> snd f \<le> n \<and> list_all is_uspace r)"
  by (cases "fence_match (rstrip_crlf l)")
    (auto simp: fence_step_def fence_marker_def closes_fence_def)

lemma fence_step_Some: "fence_step (Some f) l = Some g \<Longrightarrow> g = f"
  by (auto simp: fence_step_def split: option.splits if_splits)

lemma fence_step_closes_length: "fence_step (Some f) l = None \<Longrightarrow> 3 \<le> length l"
  using fence_marker_length [of l] by (force simp: fence_step_def split: option.splits)

text \<open>A line that closes a fence closes it without its line break, too.\<close>

lemma fence_step_closes_break:
  assumes "fence_step (Some f) (l @ [b]) = None" "is_ubreak b"
  shows "fence_step (Some f) l = None"
proof (cases "b = 13 \<or> b = 10")
  case True
  then have "rstrip_crlf (l @ [b]) = rstrip_crlf l"
    by (simp add: rstrip_crlf_append)
  then show ?thesis
    using assms(1) by (simp add: fence_step_closes)
next
  case False
  then have "rstrip_crlf (l @ [b]) = l @ [b]"
    by (simp add: rstrip_crlf_append) (simp add: rstrip_crlf_def)
  then obtain n r where nr: "fence_match (l @ [b]) = Some (fst f, n, r)" "snd f \<le> n" "list_all is_uspace r"
    using assms(1) by (auto simp: fence_step_closes)
  obtain k where k: "l @ [b] = replicate k 32 @ replicate n (fst f) @ r" "k \<le> 3"
    using fence_match_SomeD(1) [OF nr(1)] by blast
  have c: "fst f \<in> {96, 126}" and n: "3 \<le> n"
    using fence_match_SomeD(2,3) [OF nr(1)] by simp_all
  have "r \<noteq> []"
  proof
    assume "r = []"
    then have "last (l @ [b]) = fst f"
      using k(1) n by (cases n) (simp_all add: last_append)
    then show False
      using c assms(2) by (auto simp: is_ubreak_def)
  qed
  then obtain r' where r': "r = r' @ [b]" "l = replicate k 32 @ replicate n (fst f) @ r'"
    using k(1) by (cases r rule: rev_cases) auto
  have "rstrip_crlf l = replicate k 32 @ replicate n (fst f) @ rstrip_crlf r'"
    using c n r'(2) by (auto simp: rstrip_crlf_append) (auto simp: rstrip_crlf_def)
  moreover obtain w where w: "r' = rstrip_crlf r' @ w"
    using rstrip_crlf_prefix by blast
  moreover have "rstrip_crlf r' = [] \<or> hd (rstrip_crlf r') \<noteq> fst f"
    using fence_match_SomeD(4) [OF nr(1)] r'(1) w by (metis append_is_Nil_conv hd_append2)
  ultimately have "fence_match (rstrip_crlf l) = Some (fst f, n, rstrip_crlf r')"
    using c n k(2) by (intro fence_match_intro) auto
  moreover have "list_all is_uspace (rstrip_crlf r')"
    using nr(3) r'(1) w by (metis list_all_append)
  ultimately show ?thesis
    using nr(2) by (auto simp: fence_step_closes)
qed


subsection \<open>The limit of a card\<close>

lemma fold_fence_open:
  "foldl fence_step (Some f) ls = Some g \<Longrightarrow> snd g = snd f \<or> snd g + 3 \<le> length (concat ls)"
  "foldl fence_step None ls = Some g \<Longrightarrow> snd g \<le> length (concat ls)"
proof (induction ls arbitrary: f)
  case (Cons l ls)
  {
    case 1
    show ?case
    proof (cases "fence_step (Some f) l")
      case None
      then show ?thesis
        using 1 Cons.IH(2) fence_step_closes_length [OF None] by simp
    next
      case (Some h)
      then show ?thesis
        using 1 Cons.IH(1) [of f] fence_step_Some [OF Some] by auto
    qed
  next
    case 2
    show ?case
    proof (cases "fence_marker l")
      case None
      then show ?thesis
        using 2 Cons.IH(2) by simp
    next
      case (Some h)
      then show ?thesis
        using 2 Cons.IH(1) [of h] fence_marker_length(1) [of l "fst h" "snd h"] by auto
    qed
  }
qed simp_all

lemma split_break_line:
  "snd (split_break l) = [] \<Longrightarrow> \<exists>y. fst (split_break (l @ x)) = l @ y"
proof (induction l)
  case (Cons c cs)
  consider "c = 13" | "c \<noteq> 13" "is_ubreak c" | "c \<noteq> 13" "\<not> is_ubreak c"
    by blast
  then show ?case
  proof cases
    case 1
    then show ?thesis
      using Cons.prems by (cases cs; cases x) (auto split: if_splits)
  next
    case 2
    then show ?thesis
      using Cons.prems by simp
  next
    case 3
    then show ?thesis
      using Cons by (simp add: split_def Let_def)
  qed
qed simp

lemma fence_step_grows:
  assumes "fence_step st l = Some (c', m)" "fence_step st (l @ y) = Some (c, n)"
  shows "m \<le> n"
proof (cases st)
  case None
  then show ?thesis
    using assms fence_marker_grows [of l c' m y] by auto
next
  case (Some f)
  then show ?thesis
    using assms fence_step_Some [of f l] fence_step_Some [of f "l @ y"] by auto
qed

lemma fence_step_break:
  assumes "fence_step st (l @ [b]) = None" "is_ubreak b"
  shows "fence_step st l = None"
proof (cases st)
  case None
  then show ?thesis
    using assms fence_marker_grows [of l _ _ "[b]"] by (cases "fence_marker l") auto
next
  case (Some f)
  then show ?thesis
    using assms fence_step_closes_break [of f l b] by simp
qed

text \<open>
  Cutting the last characters of a text, one more than the run of the fence that is open at its end, leaves
  no longer run open.
\<close>

lemma unclosed_fence_cut:
  assumes "unclosed_fence p = Some (c', m)" "unclosed_fence (p @ x) = Some (c, n)" "length x = Suc n"
  shows "m \<le> n"
proof -
  have "ulines p \<noteq> []"
    using assms(1) by (auto simp: unclosed_fence_def)
  then obtain ls l where ls: "ulines p = ls @ [l]"
    by (cases "ulines p" rule: rev_cases) auto
  define st where "st = foldl fence_step None ls"
  have m: "fence_step st l = Some (c', m)"
    using assms(1) by (simp add: unclosed_fence_def ls st_def)
  have n: "foldl fence_step st (ulines (l @ x)) = Some (c, n)"
    using assms(2) ulines_append [OF ls, of x] by (simp add: unclosed_fence_def st_def)
  have "ulines l = [l]"
    using ulines_append [OF ls, of "[]"] ls by simp
  then have "l \<noteq> []" "snd (split_break l) = []"
    by (auto simp: ulines.simps split: if_splits)
  then obtain y where y: "fst (split_break (l @ x)) = l @ y"
    using split_break_line by blast
  define rest where "rest = snd (split_break (l @ x))"
  have len: "length y + length rest = Suc n"
    using split_break_append [of "l @ x"] y assms(3) unfolding rest_def
    by (metis append.assoc append_same_eq length_append same_append_eq)
  have f: "foldl fence_step (fence_step st (l @ y)) (ulines rest) = Some (c, n)"
    using n y \<open>l \<noteq> []\<close> by (simp add: ulines_unfold rest_def)
  show ?thesis
  proof (cases "fence_step st (l @ y)")
    case (Some g)
    then have "n = snd g \<or> n + 3 \<le> length rest"
      using fold_fence_open(1) [of g "ulines rest" "(c, n)"] f by (simp add: concat_ulines)
    then show ?thesis
      using fence_step_grows [OF m, of y "fst g" "snd g"] Some len by auto
  next
    case None
    then have "n \<le> length rest" "rest \<noteq> []"
      using fold_fence_open(2) [of "ulines rest" "(c, n)"] f by (auto simp: concat_ulines)
    then have b: "is_ubreak (last (l @ y))" "length y \<le> 1"
      using split_break_ends [of "l @ x"] y len unfolding rest_def by auto
    have "y \<noteq> []"
      using None m by auto
    then obtain d where "y = [d]"
      using b(2) by (cases y) auto
    then show ?thesis
      using fence_step_break [of st l d] None m b(1) by simp
  qed
qed

lemma truncate_markdown_length: "length (truncate_markdown s limit) \<le> limit"
proof (cases "length s \<le> limit \<or> limit \<le> 3")
  case True
  then show ?thesis
    by (auto simp: truncate_markdown_def)
next
  case False
  then have big: "limit < length s" "3 < limit"
    by auto
  define p where "p = take (limit - 3) s"
  show ?thesis
  proof (cases "unclosed_fence p")
    case None
    then show ?thesis
      using big by (simp add: truncate_markdown_def p_def u_def)
  next
    case (Some f)
    define k where "k = limit - 3 - Suc (snd f)"
    show ?thesis
    proof (cases "limit \<le> 3 + Suc (snd f)")
      case True
      then show ?thesis
        using big Some by (simp add: truncate_markdown_def p_def closing_fence_def)
    next
      case wide: False
      have "k \<le> limit - 3"
        by (simp add: k_def)
      then have "take k p = take k s"
        by (simp add: p_def min.absorb1)
      then have "p = take k s @ drop k p"
        using append_take_drop_id [of k p] by simp
      moreover have "length (drop k p) = Suc (snd f)"
        using big wide by (simp add: p_def k_def)
      ultimately have "snd g \<le> snd f" if "unclosed_fence (take k s) = Some g" for g
        using unclosed_fence_cut [of "take k s" "fst g" "snd g" "drop k p" "fst f" "snd f"]
          \<open>unclosed_fence (take k s) = Some g\<close> Some by simp
      moreover have "truncate_markdown s limit = take k s @ u ''...'' @
          (case unclosed_fence (take k s) of None \<Rightarrow> [] | Some g \<Rightarrow> closing_fence g)"
        using big Some wide by (simp add: truncate_markdown_def p_def closing_fence_def k_def split: option.split)
      moreover have "length (take k s) + 3 + Suc (snd f) = limit"
        using big wide by (simp add: k_def)
      ultimately show ?thesis
        by (cases "unclosed_fence (take k s)") (fastforce simp: u_def closing_fence_def)+
    qed
  qed
qed


fun card_markdown :: "content \<Rightarrow> utext option" where
  "card_markdown (CObj [_, _, _, (_, CObj [(_, CArr [CObj [_, (_, CStr t)]])])]) = Some t"
| "card_markdown _ = None"

fun card_title :: "content \<Rightarrow> utext option" where
  "card_title (CObj [_, _, (_, CObj [(_, CObj [_, (_, CStr t)]), _]), _]) = Some t"
| "card_title _ = None"

definition card_fits :: "rendered_message \<Rightarrow> bool" where
  "card_fits m =
     (case (card_title (msg_content m), card_markdown (msg_content m)) of
        (Some title, Some body) \<Rightarrow> length title \<le> 100 \<and> length body \<le> MARKDOWN_BODY_LIMIT
      | _ \<Rightarrow> False)"

lemma card_fits_truncated: "card_fits (interactive_card title (truncate_markdown s MARKDOWN_BODY_LIMIT) t)"
  by (simp add: card_fits_def interactive_card_def truncate_markdown_length)

text \<open>
  C25. Every card, of a task and of an outbox item, has a title of at most 100 and a body of at most 4000
  characters, the dots and the closing fence of a cut body included, whatever its text holds.
\<close>

theorem cards_fit:
  "card_fits (render_task_notification r FCard n) \<and>
   pred_sum (\<lambda>e. True) card_fits (render_outbox_notification item FCard kind session)"
  by (auto simp: render_task_notification_def render_outbox_notification_def card_fits_truncated Let_def
      split: prod.splits sum.splits option.splits)

subsection \<open>Mentions\<close>

text \<open>Somewhere in the text a match of the expression for an at-tag starts.\<close>

fun has_at_tag :: "utext \<Rightarrow> bool" where
  "has_at_tag [] = False"
| "has_at_tag (c # cs) \<longleftrightarrow> at_tag (c # cs) \<noteq> None \<or> has_at_tag cs"

text \<open>Somewhere a tag begins that does not end before the next angle bracket.\<close>

fun has_broken_tag :: "utext \<Rightarrow> bool" where
  "has_broken_tag [] = False"
| "has_broken_tag (c # cs) \<longleftrightarrow>
     (at_open (c # cs) \<noteq> None \<and> at_tag (c # cs) = None \<and> is_uspace (hd (the (at_open (c # cs))))) \<or> has_broken_tag cs"

lemma at_tag_Nil [simp]: "at_tag [] = None"
  by (simp add: at_tag_def at_open_def)

lemma escape_Nil [simp]: "escape_lark_at_tags [] = []"
  by (simp add: escape_lark_at_tags.simps)

lemma escape_None:
  "at_tag (c # cs) = None \<Longrightarrow> escape_lark_at_tags (c # cs) = c # escape_lark_at_tags cs"
  by (simp add: escape_lark_at_tags.simps)

lemma escape_Some:
  "at_tag s = Some (m, rest) \<Longrightarrow> escape_lark_at_tags s = escape_brackets m @ escape_lark_at_tags rest"
  by (simp add: escape_lark_at_tags.simps)

lemma at_tag_split:
  assumes "at_tag s = Some (m, rest)"
  shows "s = m @ rest" "\<exists>m'. m = 60 # m'"
proof -
  obtain q where q: "at_open s = Some q" "rest = tl (dropWhile no_bracket q)" "dropWhile no_bracket q \<noteq> []"
    "m = take (length s - length rest) s"
    using assms by (auto simp: at_tag_def Let_def split: option.splits if_splits)
  have "suffix q s"
    using q(1) by (cases s; cases "tl s") (auto simp: at_open_def suffix_def split: list.splits if_splits)
  then have "suffix rest s"
    using q(2) by (metis suffix_dropWhile suffix_order.trans suffix_tl)
  then show s: "s = m @ rest"
    using q(4) by (auto simp: suffix_def)
  have "hd s = 60" "s \<noteq> []"
    using q(1) by (auto simp: at_open_def split: list.splits if_splits)
  moreover have "m \<noteq> []"
    using s at_tag_shorter [OF assms] by auto
  ultimately show "\<exists>m'. m = 60 # m'"
    using s by (cases m) auto
qed


lemma escape_brackets_safe: "60 \<notin> set (escape_brackets m)" "62 \<notin> set (escape_brackets m)"
  by (auto simp: escape_brackets_def u_def)

lemma escape_brackets_hd: "m = 60 # m' \<Longrightarrow> \<exists>e. escape_brackets m = 38 # e"
  by (simp add: escape_brackets_def u_def)

lemma has_at_tag_append: "60 \<notin> set m \<Longrightarrow> has_at_tag (m @ r) = has_at_tag r"
  by (induction m) (auto simp: at_tag_def at_open_def)

lemma has_broken_tag_append: "has_broken_tag r \<Longrightarrow> has_broken_tag (m @ r)"
  by (induction m) auto

text \<open>What stands in the escaped text before an entity stood in the text, at the same place.\<close>

lemma escape_char:
  assumes "escape_lark_at_tags s = x # out" "x \<noteq> 38"
  shows "\<exists>cs. s = x # cs \<and> out = escape_lark_at_tags cs"
proof (cases "at_tag s")
  case None
  then show ?thesis
    using assms by (cases s) (auto simp: escape_None)
next
  case (Some p)
  then obtain m rest where p: "at_tag s = Some (m, rest)"
    by (cases p) auto
  then show ?thesis
    using assms at_tag_split(2) [OF p] escape_brackets_hd [of m] by (auto simp: escape_Some)
qed

lemma at_open_cases:
  "at_open s = Some q \<longleftrightarrow>
     (\<exists>slash a t. s = 60 # slash @ a # t # q \<and> slash \<in> {[], [47]} \<and> a \<in> {65, 97} \<and> t \<in> {84, 116})"
proof
  assume o: "at_open s = Some q"
  then obtain cs where s: "s = 60 # cs"
    by (cases s) (auto simp: at_open_def split: if_splits)
  define y where "y = (if cs \<noteq> [] \<and> hd cs = 47 then tl cs else cs)"
  obtain a t where "y = a # t # q" "a \<in> {65, 97}" "t \<in> {84, 116}"
    using o s by (auto simp: at_open_def y_def [symmetric] split: list.splits if_splits)
  moreover have "cs = (if cs \<noteq> [] \<and> hd cs = 47 then [47] else []) @ y"
    by (cases cs) (simp_all add: y_def)
  ultimately show "\<exists>slash a t. s = 60 # slash @ a # t # q \<and> slash \<in> {[], [47]} \<and> a \<in> {65, 97} \<and> t \<in> {84, 116}"
    using s by (cases "cs \<noteq> [] \<and> hd cs = 47") (auto intro: exI [of _ "[47::nat]"] exI [of _ "[]"])
next
  assume "\<exists>slash a t. s = 60 # slash @ a # t # q \<and> slash \<in> {[], [47]} \<and> a \<in> {65, 97} \<and> t \<in> {84, 116}"
  then show "at_open s = Some q"
    by (auto simp: at_open_def)
qed

lemma escape_at_open:
  assumes "at_open (60 # escape_lark_at_tags cs) = Some q"
  shows "\<exists>r. at_open (60 # cs) = Some r \<and> q = escape_lark_at_tags r"
proof -
  obtain slash a t where e: "escape_lark_at_tags cs = slash @ a # t # q" "slash \<in> {[], [47]}" "a \<in> {65, 97}" "t \<in> {84, 116}"
    using assms by (auto simp: at_open_cases)
  obtain cs' where cs': "cs = slash @ cs'" "escape_lark_at_tags cs' = a # t # q"
    using e(1,2) escape_char [of cs 47 "a # t # q"] by auto
  obtain cs'' where cs'': "cs' = a # cs''" "escape_lark_at_tags cs'' = t # q"
    using escape_char [OF cs'(2)] e(3) by auto
  obtain r where "cs'' = t # r" "q = escape_lark_at_tags r"
    using escape_char [OF cs''(2)] e(4) by auto
  then show ?thesis
    using cs'(1) cs''(1) e(2-4) by (auto simp: at_open_cases)
qed

lemma escape_tag_broken:
  assumes "at_tag (60 # cs) = None" "at_tag (60 # escape_lark_at_tags cs) \<noteq> None"
  shows "has_broken_tag (60 # cs)"
proof -
  obtain q where q: "at_open (60 # escape_lark_at_tags cs) = Some q"
    "takeWhile no_bracket q = [] \<or> is_uspace (hd (takeWhile no_bracket q))"
    "dropWhile no_bracket q \<noteq> []" "hd (dropWhile no_bracket q) = 62"
    using assms(2) by (auto simp: at_tag_def Let_def split: option.splits if_splits)
  obtain r where r: "at_open (60 # cs) = Some r" "q = escape_lark_at_tags r"
    using escape_at_open [OF q(1)] by blast
  obtain x out where x: "q = x # out"
    using q(3) by (cases q) auto
  have "x = 62 \<or> is_uspace x"
    using q(2,4) x by (auto split: if_splits)
  then have "x \<noteq> 38"
    by (auto simp: is_uspace_def)
  then obtain r' where r': "r = x # r'"
    using escape_char [of r x out] r(2) x by auto
  have "x \<noteq> 62"
    using assms(1) r(1) r' by (auto simp: at_tag_def Let_def no_bracket_def)
  then show ?thesis
    using assms(1) r(1) r' \<open>x = 62 \<or> is_uspace x\<close> by simp
qed

text \<open>
  In a text without a tag that is broken off by another angle bracket, no mention is left after the
  escape: nothing in the result matches the expression for an at-tag. A text without a mention is not changed.
\<close>

theorem mentions_escaped:
  assumes "\<not> has_broken_tag s"
  shows "\<not> has_at_tag (escape_lark_at_tags s) \<and> (escape_lark_at_tags s = s) = (\<not> has_at_tag s)"
proof -
  have "has_at_tag (escape_lark_at_tags s) \<Longrightarrow> has_broken_tag s" for s
  proof (induction s rule: escape_lark_at_tags.induct)
    case (1 s)
    show ?case
    proof (cases "at_tag s")
      case None
      then show ?thesis
      proof (cases s)
        case (Cons c cs)
        then show ?thesis
          using 1 None escape_tag_broken [of cs]
          by (cases "c = 60") (auto simp: escape_None at_tag_def at_open_def)
      qed (use 1 in simp)
    next
      case (Some p)
      then obtain m rest where p: "at_tag s = Some (m, rest)"
        by (cases p) auto
      have "has_at_tag (escape_lark_at_tags rest)"
        using 1(3) escape_Some [OF p] has_at_tag_append [OF escape_brackets_safe(1)] by simp
      then show ?thesis
        using 1(2) [OF p] at_tag_split(1) [OF p] has_broken_tag_append by auto
    qed
  qed
  moreover have "(escape_lark_at_tags s = s) = (\<not> has_at_tag s)"
  proof (induction s rule: escape_lark_at_tags.induct)
    case (1 s)
    show ?case
    proof (cases "at_tag s")
      case None
      then show ?thesis
        using 1 by (cases s) (auto simp: escape_None)
    next
      case (Some p)
      then obtain m rest where p: "at_tag s = Some (m, rest)"
        by (cases p) auto
      obtain m' where m': "m = 60 # m'" "s = m @ rest"
        using at_tag_split [OF p] by auto
      then have "has_at_tag s" "escape_lark_at_tags s \<noteq> s"
        using Some escape_Some [OF p] escape_brackets_hd [OF m'(1)] by auto
      then show ?thesis
        by simp
    qed
  qed
  ultimately show ?thesis
    using assms by blast
qed


lemma mentions_escaped_ex:
  "\<not> has_at_tag (escape_lark_at_tags (u ''to <at id=all></AT>'')) \<and> has_at_tag (u ''to <at id=all></AT>'')"
proof -
  have "\<not> has_broken_tag (u ''to <at id=all></AT>'')" "has_at_tag (u ''to <at id=all></AT>'')"
    by code_simp+
  then show ?thesis
    using mentions_escaped [of "u ''to <at id=all></AT>''"] by blast
qed

text \<open>The escape makes one pass: a tag inside a broken one is escaped, and the outer one becomes whole.\<close>

lemma broken_tag_becomes_whole: "has_at_tag (escape_lark_at_tags (u ''<at <at> id=all>''))"
  by code_simp

text \<open>A text without a line break is one line.\<close>

lemma split_break_plain: "list_all (\<lambda>c. \<not> is_ubreak c) s \<Longrightarrow> split_break s = (s, [])"
proof (induction s)
  case (Cons c cs)
  moreover have "is_ubreak 13"
    by (simp add: is_ubreak_def)
  ultimately show ?case
    by (cases "c = 13") simp_all
qed simp

lemma ulines_plain: "list_all (\<lambda>c. \<not> is_ubreak c) s \<Longrightarrow> ulines s = (if s = [] then [] else [s])"
  using split_break_plain [of s] by (simp add: ulines.simps [of s])

lemma plain_line_neutralized:
  assumes "list_all (\<lambda>c. \<not> is_ubreak c) s" "s \<noteq> []"
  shows "neutralize_lark_mentions s = (if fence_marker s = None then neutralize_inline_mentions s else s)"
    "unclosed_fence s = fence_marker s"
  using assms ulines_plain [OF assms(1)]
  by (simp_all add: neutralize_lark_mentions_def neutralize_line_def unclosed_fence_def)

text \<open>
  A line that starts with a code span of three backticks counts as the start of a fence, and the mentions
  after the span stay.
\<close>

lemma span_of_three_counts_as_fence:
  "neutralize_lark_mentions (u ''```x``` <at id=all></at>'') = u ''```x``` <at id=all></at>''"
proof -
  have "fence_marker (u ''```x``` <at id=all></at>'') \<noteq> None"
    by code_simp
  moreover have "u ''```x``` <at id=all></at>'' \<noteq> []"
    by (simp add: u_def)
  moreover have "list_all (\<lambda>c. \<not> is_ubreak c) (u ''```x``` <at id=all></at>'')"
    by (simp add: u_def is_ubreak_def)
  ultimately show ?thesis
    by (simp only: plain_line_neutralized if_False simp_thms)
qed

text \<open>The cut comes after the mentions are neutralised: it may take the end of a code span away.\<close>

lemma cut_opens_span:
  "truncate_markdown (neutralize_lark_mentions (u ''`<at id=all>` and more'')) 15 = u ''`<at id=all>...''"
  "neutralize_lark_mentions (u ''`<at id=all>...'') \<noteq> u ''`<at id=all>...''"
proof -
  have plain: "list_all (\<lambda>c. \<not> is_ubreak c) (u ''`<at id=all>` and more'')"
    "list_all (\<lambda>c. \<not> is_ubreak c) (u ''`<at id=all>...'')" "list_all (\<lambda>c. \<not> is_ubreak c) (u ''`<at id=all>'')"
    by (simp_all add: u_def is_ubreak_def)
  have "fence_marker (u ''`<at id=all>` and more'') = None" "fence_marker (u ''`<at id=all>...'') = None"
    "fence_marker (u ''`<at id=all>'') = None"
    "neutralize_inline_mentions (u ''`<at id=all>` and more'') = u ''`<at id=all>` and more''"
    "neutralize_inline_mentions (u ''`<at id=all>...'') \<noteq> u ''`<at id=all>...''"
    by code_simp+
  moreover have "u s \<noteq> []" if "s \<noteq> []" for s
    using that by (simp add: u_def)
  ultimately have "neutralize_lark_mentions (u ''`<at id=all>` and more'') = u ''`<at id=all>` and more''"
    "unclosed_fence (u ''`<at id=all>'') = None"
    and goal2: "neutralize_lark_mentions (u ''`<at id=all>...'') \<noteq> u ''`<at id=all>...''"
    using plain by (simp_all add: plain_line_neutralized)
  moreover have "length (u ''`<at id=all>` and more'') = 22"
    "take 12 (u ''`<at id=all>` and more'') = u ''`<at id=all>''" "u ''`<at id=all>'' @ u ''...'' = u ''`<at id=all>...''"
    by (simp_all add: u_def)
  ultimately show "truncate_markdown (neutralize_lark_mentions (u ''`<at id=all>` and more'')) 15 = u ''`<at id=all>...''"
    by (simp add: truncate_markdown_def)
  show "neutralize_lark_mentions (u ''`<at id=all>...'') \<noteq> u ''`<at id=all>...''"
    by (rule goal2)
qed

end
