(* ===== verification/Daemon.thy ===== *)
theory Daemon
  imports Lark_Control Lark_Render
begin

text \<open>
  \<^verbatim>\<open>server/daemon/app.py\<close> and \<^verbatim>\<open>server/daemon/auth.py\<close>: the runtime that puts the orchestrator, the
  router, the outbox and the HTTP interface on one event loop. The orchestrator is part of the state; its
  coroutines are embedded by \<open>in_orc\<close>. The loops of the three workers are given by their rounds: a worker
  is idle between two rounds, busy in one, and dead once its loop has ended. The session manager, the
  connection to Lark, the client's sends and the file system are outside calls or arguments; times are
  microseconds.
\<close>

subsection \<open>The runtime\<close>

datatype daemon_call =
    OrcCall call
  | SendRendered int rendered_message
  | StartManager
  | StartConnection
  | CloseConnection
  | CloseManager
  | CreateInteractiveCall string string "string option" string
  | CloseInteractiveCall string
  | CloseLark

datatype worker = Idle | Busy | Dead

record spool_file =
  sf_name :: string
  sf_symlink :: bool
  sf_size :: nat
  sf_text :: "string outcome"
  sf_unlink :: "unit outcome"

record runtime =
  rt_orc :: orchestrator
  rt_degraded :: "string option"
  rt_reported :: "string option"
  rt_outbox :: worker
  rt_route :: worker
  rt_expiry :: worker
  rt_closed :: bool
  rt_clock :: nat
  rt_spool :: "spool_file list"
  rt_calls :: "daemon_call list"

record daemon_config =
  dm_orc :: orchestrator_config
  dm_poll :: nat
  dm_delay :: int
  dm_format :: message_format
  dm_now :: "nat \<Rightarrow> instant"
  dm_token :: string
  dm_manager :: bool
  dm_loads :: "string \<Rightarrow> json outcome"

datatype api_body =
    BodyReply reply_value
  | BodySession codex_session
  | BodySessions "codex_session list"
  | BodyDescriptor string
  | BodyCancelled
  | BodyEmpty
  | BodyAccepted bool
  | BodyHealth string string string

datatype response = Ok nat api_body | Refused nat string

datatype daemon_value = VNone | VOrc reply_value | VRouted control_result | VResponse response

type_synonym 'a dsync = "(runtime, 'a) sync"
type_synonym 'a dtask = "(runtime, daemon_call, string, 'a) task"
type_synonym 'a dsegment = "runtime \<Rightarrow> runtime \<times> 'a dtask"

definition new_runtime :: "orchestrator \<Rightarrow> spool_file list \<Rightarrow> runtime" where
  "new_runtime orc spool = \<lparr>rt_orc = orc, rt_degraded = None, rt_reported = None, rt_outbox = Dead, rt_route = Dead,
     rt_expiry = Dead, rt_closed = False, rt_clock = 0, rt_spool = spool, rt_calls = []\<rparr>"

text \<open>The orchestrator's code on the runtime.\<close>

definition on_orc :: "'a osync \<Rightarrow> 'a dsync" where
  "on_orc m = (\<lambda>s. case m (rt_orc s) of (r, orc) \<Rightarrow> (r, s\<lparr>rt_orc := orc\<rparr>))"

primrec lift_task :: "(orchestrator, call, string, 'a) task \<Rightarrow> 'a dtask" where
  "lift_task (Done r) = Done r"
| "lift_task (Await q k) = Await (OrcCall q) (\<lambda>r s.
     (case map_prod id lift_task (k r (rt_orc s)) of (orc, t) \<Rightarrow> (s\<lparr>rt_orc := orc\<rparr>, t)))"

definition in_orc :: "(orchestrator \<Rightarrow> orchestrator \<times> (orchestrator, call, string, 'a) task) \<Rightarrow> 'a dsegment" where
  "in_orc f = (\<lambda>s. case f (rt_orc s) of (orc, t) \<Rightarrow> (s\<lparr>rt_orc := orc\<rparr>, lift_task t))"

definition dawait :: "daemon_call \<Rightarrow> (string outcome \<Rightarrow> 'a dsegment) \<Rightarrow> 'a dsegment" where
  "dawait q k = (\<lambda>s. (s\<lparr>rt_calls := rt_calls s @ [q]\<rparr>, Await q k))"

definition runtime_now :: "daemon_config \<Rightarrow> instant dsync" where
  "runtime_now d = (\<lambda>s. (Inr (dm_now d (rt_clock s)), s\<lparr>rt_clock := Suc (rt_clock s)\<rparr>))"

definition dread :: "(codex_store \<Rightarrow> 'a outcome) \<Rightarrow> 'a dsync" where
  "dread f = on_orc (read_store f)"

definition dwrite :: "(codex_store \<Rightarrow> ('a \<times> codex_store) outcome) \<Rightarrow> 'a dsync" where
  "dwrite f = on_orc (write_store f)"

definition is_cancel :: "exn \<Rightarrow> bool" where
  "is_cancel e \<longleftrightarrow> exn_type e = ''CancelledError''"

definition is_runtime_error :: "exn \<Rightarrow> bool" where
  "is_runtime_error e \<longleftrightarrow> exn_type e \<in> {''RuntimeError'', ''ProcessExitedError'', ''ServerRpcError'', ''ProtocolError'',
     ''LarkAPIError'', ''NotImplementedError'', ''RecursionError''}"

subsection \<open>The outbox worker\<close>

definition enqueue_daemon_notification :: "daemon_config \<Rightarrow> string \<Rightarrow> string \<Rightarrow> int dsync" where
  "enqueue_daemon_notification d ty summary =
     bnd (runtime_now d) (\<lambda>created.
       dwrite (store_enqueue_outbox ty summary None None None None (Some (created + dm_delay d)) (Some created) created))"

text \<open>\<^verbatim>\<open>_render\<close>: the interaction and the session are read anew; the display is validated.\<close>

definition session_display_of :: "string \<Rightarrow> codex_session \<Rightarrow> outbox_item \<Rightarrow> session_display outcome" where
  "session_display_of sid v item =
     (case (if truthy_text (o_agent item) then agent_of (the (o_agent item)) else Some CODEX) of
        None \<Rightarrow> Inl (Exn ''ValidationError'' [])
      | Some a \<Rightarrow> if s_name v = [] then Inl (Exn ''ValidationError'' [])
          else Inr \<lparr>sd_session_id = sid, sd_session_name = s_name v, sd_agent = a\<rparr>)"

definition render_item :: "daemon_config \<Rightarrow> outbox_item \<Rightarrow> rendered_message dsync" where
  "render_item d item =
     bnd (if suffix ''interaction_requested'' (o_notification_type item) \<and> truthy_text (o_interaction_id item)
          then dread (store_get_interaction (the (o_interaction_id item))) else return None) (\<lambda>interaction.
     bnd (if truthy_text (o_session_id item) then dread (store_get_session (the (o_session_id item))) else return None) (\<lambda>session.
     bnd (case session of None \<Rightarrow> return None
          | Some v \<Rightarrow> from_outcome (map_sum id Some (session_display_of (the (o_session_id item)) v item))) (\<lambda>display.
       from_outcome (render_outbox_notification item (dm_format d) (map_option i_kind interaction) display))))"

definition retry_delay :: "nat \<Rightarrow> int \<Rightarrow> int" where
  "retry_delay poll attempts = min 300000000 (int poll * 2 ^ nat (min (attempts + 1) 10))"

definition send_failed :: "daemon_config \<Rightarrow> outbox_item \<Rightarrow> exn \<Rightarrow> bool dsync" where
  "send_failed d item e =
     (if is_cancel e then raise e
      else bnd (runtime_now d) (\<lambda>now.
        dwrite (store_record_outbox_failure (o_id item) (''send failed ('' @ exn_type e @ '')'')
          (now + retry_delay (dm_poll d) (o_attempt_count item)))))"

definition record_delivery :: "daemon_config \<Rightarrow> outbox_item \<Rightarrow> string \<Rightarrow> bool dsync" where
  "record_delivery d item message_id =
     bnd (if truthy_text (o_interaction_id item)
          then dwrite (store_attach_lark_message_id (the (o_interaction_id item)) message_id) else return True) (\<lambda>_.
     bnd (runtime_now d) (\<lambda>now. dwrite (store_mark_outbox_sent (o_id item) None now)))"

definition send_item :: "daemon_config \<Rightarrow> outbox_item \<Rightarrow> 'a dsegment \<Rightarrow> 'a dsegment" where
  "send_item d item rest =
     (let failed = (\<lambda>e. run_then (send_failed d item e) (\<lambda>_. rest)) in
      run_try (render_item d item) failed (\<lambda>m.
        dawait (SendRendered (o_id item) m) (\<lambda>reply. case reply of
            Inl e \<Rightarrow> failed e
          | Inr message_id \<Rightarrow> run_try (record_delivery d item message_id) failed (\<lambda>_. rest))))"

fun send_items :: "daemon_config \<Rightarrow> outbox_item list \<Rightarrow> daemon_value dsegment" where
  "send_items d [] = finish (return VNone)"
| "send_items d (item # items) = send_item d item (send_items d items)"

definition outbox_round :: "daemon_config \<Rightarrow> daemon_value dsegment" where
  "outbox_round d = run_then (runtime_now d) (\<lambda>now.
     run_then (dread (store_list_due_outbox (Some now) 50 now)) (send_items d))"

text \<open>
  A round of a worker's loop. An exception that leaves the loop ends the worker; \<open>close\<close> ends it by
  cancelling its task.
\<close>

definition worker_round ::
  "(runtime \<Rightarrow> worker) \<Rightarrow> ((worker \<Rightarrow> worker) \<Rightarrow> runtime \<Rightarrow> runtime) \<Rightarrow> daemon_value dsegment \<Rightarrow> daemon_value dsegment" where
  "worker_round get upd body s =
     (if get s \<noteq> Idle then (s, Done (Inr VNone))
      else call_then body (\<lambda>r. case r of
          Inl e \<Rightarrow> run_then (modify (upd (\<lambda>_. Dead))) (\<lambda>_. finish (raise e))
        | Inr v \<Rightarrow> run_then (modify (upd (\<lambda>w. if w = Busy then Idle else w))) (\<lambda>_. finish (return v)))
        (upd (\<lambda>_. Busy) s))"

subsection \<open>The router and the expiry worker\<close>

text \<open>\<open>Inl\<close> is the error the connection stopped with, seen when no event came in time.\<close>

definition route_round :: "daemon_config \<Rightarrow> instant \<Rightarrow> lark_event outcome \<Rightarrow> daemon_value dsegment" where
  "route_round d nw event =
     (let stop = (\<lambda>e. if is_cancel e then finish (raise e)
        else run_then (modify (\<lambda>s. s\<lparr>rt_degraded := Some (''Lark event routing unavailable ('' @ exn_type e @ '')''),
            rt_route := Dead\<rparr>)) (\<lambda>_. finish (return VNone)))
      in case event of
           Inl e \<Rightarrow> stop e
         | Inr v \<Rightarrow> call_then (in_orc (route_event (dm_orc d) nw v)) (\<lambda>r. case r of
               Inl e \<Rightarrow> stop e
             | Inr result \<Rightarrow> finish (return (VRouted result))))"

definition expiry_failed :: "daemon_config \<Rightarrow> exn \<Rightarrow> daemon_value dsegment" where
  "expiry_failed d e =
     (if is_cancel e then finish (raise e)
      else let safe_error = ''Interaction expiry unavailable ('' @ exn_type e @ '')'' in
        run_then (modify (\<lambda>s. s\<lparr>rt_degraded := Some safe_error\<rparr>)) (\<lambda>_.
        run_then (gets rt_reported) (\<lambda>reported.
          if reported = Some safe_error then finish (return VNone)
          else run_then (enqueue_daemon_notification d ''runtime:degraded'' safe_error) (\<lambda>_.
            run_then (modify (\<lambda>s. s\<lparr>rt_reported := Some safe_error\<rparr>)) (\<lambda>_. finish (return VNone))))))"

definition expiry_round :: "daemon_config \<Rightarrow> daemon_value dsegment" where
  "expiry_round d = call_then (in_orc (expire_due_interactions (dm_orc d) None)) (\<lambda>r. case r of
       Inl e \<Rightarrow> expiry_failed d e
     | Inr v \<Rightarrow> finish (return (VOrc v)))"

subsection \<open>Hooks\<close>

definition MAX_HOOK_BYTES :: nat where
  "MAX_HOOK_BYTES = 64 * 1024"

definition HOOK_EVENTS :: "string list" where
  "HOOK_EVENTS = [''SessionStart'', ''PermissionRequest'', ''Stop'']"

text \<open>The identifier is recorded first; \<open>False\<close> is an event that was seen before.\<close>

definition accept_hook :: "daemon_config \<Rightarrow> string \<Rightarrow> json_object \<Rightarrow> bool dsync" where
  "accept_hook d name payload =
     bnd (case nonempty_str (jget payload ''event_id'') of
            None \<Rightarrow> return True
          | Some event_id \<Rightarrow> bnd (runtime_now d) (\<lambda>now. dwrite (store_record_event_once (''hook:'' @ event_id) None now))) (\<lambda>fresh.
     if \<not> fresh then return False
     else bnd (enqueue_daemon_notification d (''hook:'' @ name) (''Codex hook '' @ name)) (\<lambda>_. return True))"

definition unlink :: "spool_file \<Rightarrow> unit dsync" where
  "unlink f = bnd (from_outcome (sf_unlink f)) (\<lambda>_. modify (\<lambda>s. s\<lparr>rt_spool := filter (\<lambda>g. sf_name g \<noteq> sf_name f) (rt_spool s)\<rparr>))"

definition drain_file :: "daemon_config \<Rightarrow> spool_file \<Rightarrow> unit dsync" where
  "drain_file d f =
     (if sf_symlink f \<or> MAX_HOOK_BYTES < sf_size f then return ()
      else bnd (from_outcome (sf_text f)) (\<lambda>t.
        bnd (from_outcome (dm_loads d t)) (\<lambda>payload. case payload of
          JObj kvs \<Rightarrow>
            if unhashable (jget kvs ''hook_event_name'') then raise (Exn ''TypeError'' ''unhashable type'')
            else (case jget kvs ''hook_event_name'' of
                JStr name \<Rightarrow> if name \<notin> set HOOK_EVENTS then return () else bnd (accept_hook d name kvs) (\<lambda>_. unlink f)
              | _ \<Rightarrow> return ())
        | _ \<Rightarrow> return ())))"

definition drain_error_ignored :: "exn \<Rightarrow> bool" where
  "drain_error_ignored e \<longleftrightarrow> is_os_error e \<or>
     exn_type e \<in> {''UnicodeError'', ''UnicodeDecodeError'', ''UnicodeEncodeError'', ''JSONDecodeError''}"

definition drain_spool :: "daemon_config \<Rightarrow> unit dsync" where
  "drain_spool d = bnd (gets rt_spool) (\<lambda>files. for_each (sort_key sf_name files) (\<lambda>f.
     catch (drain_file d f) (\<lambda>e. if drain_error_ignored e then return () else raise e)))"


subsection \<open>The HTTP interface\<close>

definition is_ascii :: "string \<Rightarrow> bool" where
  "is_ascii s \<longleftrightarrow> list_all (\<lambda>c. ord c < 128) s"

text \<open>\<open>None\<close> lets the request pass; \<^verbatim>\<open>compare_digest\<close> refuses a string that is not ASCII.\<close>

definition authenticate :: "string \<Rightarrow> string option \<Rightarrow> response outcome option" where
  "authenticate token header =
     (case py_partition (CHR '' '') (opt_or header []) of (scheme, sep, supplied) \<Rightarrow>
        if py_casefold scheme \<noteq> ''bearer'' then Some (Inr (Refused 401 ''unauthorized''))
        else if \<not> is_ascii supplied \<or> \<not> is_ascii token
        then Some (Inl (Exn ''TypeError'' ''comparing strings with non-ASCII characters is not supported''))
        else if supplied \<noteq> token then Some (Inr (Refused 401 ''unauthorized''))
        else None)"

definition respond :: "response \<Rightarrow> daemon_value dsegment" where
  "respond r = finish (return (VResponse r))"

definition with_auth :: "daemon_config \<Rightarrow> string option \<Rightarrow> daemon_value dsegment \<Rightarrow> daemon_value dsegment" where
  "with_auth d header body = (case authenticate (dm_token d) header of
     None \<Rightarrow> body | Some r \<Rightarrow> finish (from_outcome (map_sum id VResponse r)))"

text \<open>\<^verbatim>\<open>_read_bounded_body\<close> over the chunks of a request.\<close>

fun read_chunks :: "nat \<Rightarrow> string \<Rightarrow> string list \<Rightarrow> string option" where
  "read_chunks limit body [] = Some body"
| "read_chunks limit body (c # cs) =
     (if limit < length (body @ c) then None else read_chunks limit (body @ c) cs)"

definition too_large :: response where
  "too_large = Refused 413 ''payload too large''"

definition read_bounded_body :: "nat \<Rightarrow> string option \<Rightarrow> string list \<Rightarrow> (response + string) outcome" where
  "read_bounded_body limit content_length chunks =
     (let read = Inr (case read_chunks limit [] chunks of None \<Rightarrow> Inl too_large | Some b \<Rightarrow> Inr b) in
      case content_length of
        None \<Rightarrow> read
      | Some v \<Rightarrow> if v = [] \<or> \<not> py_isdigit v then read
          else (case py_int_of_digits v of
              Inl e \<Rightarrow> Inl e
            | Inr n \<Rightarrow> if limit < n then Inr (Inl too_large) else read))"

definition hook_name :: "json_object \<Rightarrow> string option" where
  "hook_name payload = (case List.map_filter (\<lambda>k. as_str (jget payload k)) [''hook_event_name'', ''event_name'', ''hook_name''] of
     [] \<Rightarrow> None | n # ns \<Rightarrow> Some n)"

definition ingest_hook :: "daemon_config \<Rightarrow> string option \<Rightarrow> string option \<Rightarrow> string list \<Rightarrow> daemon_value dsegment" where
  "ingest_hook d header content_length chunks = with_auth d header
     (run_then (from_outcome (read_bounded_body MAX_HOOK_BYTES content_length chunks)) (\<lambda>body. case body of
        Inl refused \<Rightarrow> respond refused
      | Inr bytes \<Rightarrow> (case dm_loads d bytes of
            Inl e \<Rightarrow> if exn_type e \<in> {''UnicodeDecodeError'', ''JSONDecodeError''} then respond (Refused 400 ''invalid JSON'')
              else finish (raise e)
          | Inr (JObj payload) \<Rightarrow> (case hook_name payload of
                None \<Rightarrow> respond (Refused 422 ''unsupported hook event'')
              | Some name \<Rightarrow>
                  if name \<notin> set HOOK_EVENTS then respond (Refused 422 ''unsupported hook event'')
                  else run_then (accept_hook d name payload) (\<lambda>fresh. respond (Ok 202 (BodyAccepted (\<not> fresh)))))
          | Inr _ \<Rightarrow> respond (Refused 400 ''JSON object required''))))"

record session_body =
  sb_name :: string
  sb_cwd :: string
  sb_prompt :: string
  sb_model :: "string option"
  sb_sandbox :: string

text \<open>The constraints of the request models, on stripped fields; an interactive session has no prompt.\<close>

definition session_body_ok :: "bool \<Rightarrow> session_body \<Rightarrow> bool" where
  "session_body_ok interactive b \<longleftrightarrow>
     sb_name b \<noteq> [] \<and> length (sb_name b) \<le> 200 \<and> sb_cwd b \<noteq> [] \<and> length (sb_cwd b) \<le> 4096 \<and>
     (interactive \<or> sb_prompt b \<noteq> [] \<and> length (sb_prompt b) \<le> 1000000) \<and>
     (case sb_model b of None \<Rightarrow> True | Some m \<Rightarrow> length m \<le> 200) \<and>
     sb_sandbox b \<in> {''read-only'', ''workspace-write''}"

definition checked_body :: "bool \<Rightarrow> session_body \<Rightarrow> daemon_value dsegment \<Rightarrow> daemon_value dsegment" where
  "checked_body interactive b body = (if session_body_ok interactive b then body else respond (Refused 422 ''validation''))"

definition create_session_endpoint :: "daemon_config \<Rightarrow> string option \<Rightarrow> session_body \<Rightarrow> daemon_value dsegment" where
  "create_session_endpoint d header b = with_auth d header (checked_body False b
     (call_then (in_orc (create_session (dm_orc d) (sb_name b) (sb_cwd b) (sb_prompt b) (sb_model b) (sb_sandbox b)))
        (\<lambda>r. case r of
           Inr v \<Rightarrow> respond (Ok 201 (BodyReply v))
         | Inl e \<Rightarrow> if is_runtime_error e then respond (Refused 502 ''Codex app-server unavailable'') else finish (raise e))))"

definition create_interactive_endpoint :: "daemon_config \<Rightarrow> string option \<Rightarrow> session_body \<Rightarrow> daemon_value dsegment" where
  "create_interactive_endpoint d header b = with_auth d header (checked_body True b
     (if \<not> dm_manager d then respond (Refused 503 ''interactive Codex sessions are not configured'')
      else dawait (CreateInteractiveCall (sb_name b) (sb_cwd b) (sb_model b) (sb_sandbox b)) (\<lambda>r. case r of
          Inr descriptor \<Rightarrow> respond (Ok 201 (BodyDescriptor descriptor))
        | Inl e \<Rightarrow> if is_os_error e \<or> is_runtime_error e
            then respond (Refused 502 ''interactive Codex app-server unavailable'') else finish (raise e))))"

text \<open>The reply of the manager's \<^verbatim>\<open>close_session\<close> is the identifier, or empty when there was no such session.\<close>

definition close_interactive_endpoint :: "daemon_config \<Rightarrow> string option \<Rightarrow> string \<Rightarrow> daemon_value dsegment" where
  "close_interactive_endpoint d header session_id = with_auth d header
     (if \<not> dm_manager d then respond (Refused 503 ''interactive Codex sessions are not configured'')
      else dawait (CloseInteractiveCall session_id) (\<lambda>r. case r of
          Inl e \<Rightarrow> finish (raise e)
        | Inr found \<Rightarrow> if found = [] then respond (Refused 404 ''interactive session not found'') else respond (Ok 204 BodyEmpty)))"

definition list_sessions_endpoint :: "daemon_config \<Rightarrow> string option \<Rightarrow> session_status option \<Rightarrow> daemon_value dsegment" where
  "list_sessions_endpoint d header status = with_auth d header
     (run_then (dread (store_list_sessions status)) (\<lambda>vs. respond (Ok 200 (BodySessions vs))))"

definition get_session_endpoint :: "daemon_config \<Rightarrow> string option \<Rightarrow> string \<Rightarrow> daemon_value dsegment" where
  "get_session_endpoint d header session_id = with_auth d header
     (run_then (dread (store_get_session session_id)) (\<lambda>v. case v of
        None \<Rightarrow> respond (Refused 404 ''session not found'') | Some x \<Rightarrow> respond (Ok 200 (BodySession x))))"

definition cancel_session_endpoint :: "daemon_config \<Rightarrow> string option \<Rightarrow> string \<Rightarrow> daemon_value dsegment" where
  "cancel_session_endpoint d header session_id = with_auth d header
     (run_then (dread (store_get_session session_id)) (\<lambda>v.
        if v = None then respond (Refused 404 ''session not found'')
        else call_then (in_orc (cancel_session (dm_orc d) session_id)) (\<lambda>r. case r of
            Inl e \<Rightarrow> finish (raise e)
          | Inr b \<Rightarrow> if b = RBool False then respond (Refused 409 ''session is not cancellable'')
              else respond (Ok 200 BodyCancelled))))"

definition health :: "runtime \<Rightarrow> response" where
  "health s =
     (let codex_error = terminal_error (rt_orc s);
          degraded = (if rt_degraded s \<noteq> None then True else codex_error \<noteq> None) in
      Ok 200 (BodyHealth (if degraded then ''degraded'' else ''ok'') (if codex_error \<noteq> None then ''degraded'' else ''ready'')
        (opt_or (rt_degraded s) ''ready'')))"

subsection \<open>Start and close\<close>

text \<open>Every part is closed, whatever the others raise; the store is closed last, in a \<^verbatim>\<open>finally\<close> clause.\<close>

definition close_lark_and_store :: "unit dsegment" where
  "close_lark_and_store = dawait CloseLark (\<lambda>r.
     run_then (modify (\<lambda>s. s\<lparr>rt_orc := (rt_orc s)\<lparr>orc_store := store_close (orc_store (rt_orc s))\<rparr>\<rparr>)) (\<lambda>_.
       case r of Inl e \<Rightarrow> finish (raise e) | Inr _ \<Rightarrow> finish (return ())))"

definition close_runtime :: "daemon_config \<Rightarrow> unit dsegment" where
  "close_runtime d = run_then (gets rt_closed) (\<lambda>is_closed.
     if is_closed then finish (return ())
     else run_then (modify (\<lambda>s. s\<lparr>rt_closed := True, rt_outbox := Dead, rt_route := Dead, rt_expiry := Dead\<rparr>)) (\<lambda>_.
       let close_codex = call_then (in_orc close) (\<lambda>_. close_lark_and_store);
           close_manager = (if dm_manager d then dawait CloseManager (\<lambda>_. close_codex) else close_codex)
       in dawait CloseConnection (\<lambda>_. close_manager)))"

definition start_failed :: "daemon_config \<Rightarrow> exn \<Rightarrow> daemon_value dsegment" where
  "start_failed d e = call_then (close_runtime d) (\<lambda>r. case r of
     Inl x \<Rightarrow> finish (raise x) | Inr _ \<Rightarrow> finish (raise e))"

definition start_runtime :: "daemon_config \<Rightarrow> daemon_value dsegment" where
  "start_runtime d =
     (let failed = start_failed d;
          create_tasks = run_then (modify (\<lambda>s. s\<lparr>rt_outbox := Idle, rt_route := Idle, rt_expiry := Idle\<rparr>)) (\<lambda>_. finish (return VNone));
          start_connection = dawait StartConnection (\<lambda>r. case r of Inl e \<Rightarrow> failed e | Inr _ \<Rightarrow> create_tasks);
          start_manager = (if dm_manager d then dawait StartManager (\<lambda>r. case r of Inl e \<Rightarrow> failed e | Inr _ \<Rightarrow> start_connection)
            else start_connection)
      in run_try (drain_spool d) failed (\<lambda>_.
           call_then (in_orc (start (dm_orc d))) (\<lambda>r. case r of Inl e \<Rightarrow> failed e | Inr _ \<Rightarrow> start_manager)))"

subsection \<open>Every entry of the daemon\<close>

text \<open>
  \<open>DOrc\<close> are the calls of the orchestrator from its own consumers, the gateway and the session manager.
\<close>

datatype daemon_handler =
    DOrc handler
  | DStart
  | DClose
  | DOutbox
  | DRoute instant "lark_event outcome"
  | DExpiry
  | DHook "string option" "string option" "string list"
  | DCreate "string option" session_body
  | DCreateInteractive "string option" session_body
  | DCloseInteractive "string option" string
  | DList "string option" "session_status option"
  | DGet "string option" string
  | DCancel "string option" string
  | DHealth

primrec daemon_start :: "daemon_config \<Rightarrow> daemon_handler \<Rightarrow> daemon_value dsegment" where
  "daemon_start d (DOrc h) = call_then (in_orc (start_handler (dm_orc d) h)) (\<lambda>r. finish (from_outcome (map_sum id VOrc r)))"
| "daemon_start d DStart = start_runtime d"
| "daemon_start d DClose = call_then (close_runtime d) (\<lambda>r. finish (from_outcome (map_sum id (\<lambda>_. VNone) r)))"
| "daemon_start d DOutbox = worker_round rt_outbox rt_outbox_update (outbox_round d)"
| "daemon_start d (DRoute nw event) = worker_round rt_route rt_route_update (route_round d nw event)"
| "daemon_start d DExpiry = worker_round rt_expiry rt_expiry_update (expiry_round d)"
| "daemon_start d (DHook header content_length chunks) = ingest_hook d header content_length chunks"
| "daemon_start d (DCreate header b) = create_session_endpoint d header b"
| "daemon_start d (DCreateInteractive header b) = create_interactive_endpoint d header b"
| "daemon_start d (DCloseInteractive header session_id) = close_interactive_endpoint d header session_id"
| "daemon_start d (DList header status) = list_sessions_endpoint d header status"
| "daemon_start d (DGet header session_id) = get_session_endpoint d header session_id"
| "daemon_start d (DCancel header session_id) = cancel_session_endpoint d header session_id"
| "daemon_start d DHealth = run_then (gets health) respond"

text \<open>Outside the handlers the app-server starts or stops, and the outbox worker takes an event it waited for.\<close>

inductive daemon_environment :: "runtime \<Rightarrow> runtime \<Rightarrow> bool" where
  app_server: "daemon_environment s (s\<lparr>rt_orc := (rt_orc s)\<lparr>app_running := b\<rparr>\<rparr>)"
| take_event: "events (rt_orc s) = e # es \<Longrightarrow> daemon_environment s (s\<lparr>rt_orc := (rt_orc s)\<lparr>events := es\<rparr>\<rparr>)"

definition daemon_run :: "daemon_config \<Rightarrow> codex_store \<Rightarrow> spool_file list \<Rightarrow> runtime \<Rightarrow> bool" where
  "daemon_run d st spool s \<longleftrightarrow>
     (\<exists>ts. (loop (daemon_start d) daemon_environment)\<^sup>*\<^sup>* (new_runtime (initial st) spool, []) (s, ts))"

end
