(* ===== verification/Daemon_Properties.thy ===== *)
theory Daemon_Properties
  imports Daemon "HOL-Library.Multiset"
begin

text \<open>
  The daemon refines the orchestrator: every run of the whole program, seen on the state of the orchestrator
  alone, is a run of the orchestrator's own event loop, whose environment is what it was assumed to be. A task of
  the daemon follows at most one task of the orchestrator at a time, which \<open>tracks\<close> keeps; the other
  properties of the daemon are about single entries.
\<close>

subsection \<open>Following a task of the orchestrator\<close>

abbreviation orc_loop ::
  "orchestrator_config \<Rightarrow> orchestrator \<times> otask list \<Rightarrow> orchestrator \<times> otask list \<Rightarrow> bool" where
  "orc_loop c \<equiv> loop (start_handler c) environment"

definition opt_mset :: "otask option \<Rightarrow> otask multiset" where
  "opt_mset a = (case a of None \<Rightarrow> {#} | Some t \<Rightarrow> {#t#})"

text \<open>Among any other tasks \<open>M\<close>, the orchestrator comes from the one state and task to the other.\<close>

definition moves :: "orchestrator_config \<Rightarrow> orchestrator \<Rightarrow> otask option \<Rightarrow> orchestrator \<Rightarrow> otask option \<Rightarrow> bool" where
  "moves c s a s' b \<longleftrightarrow> (\<forall>ts M. mset ts = opt_mset a + M \<longrightarrow>
     (\<exists>ts' L. (orc_loop c)\<^sup>*\<^sup>* (s, ts) (s', ts') \<and> mset ts' = opt_mset b + (L + M)))"

lemma movesD:
  assumes "moves c s a s' b" "mset ts = opt_mset a + M"
  obtains ts' L where "(orc_loop c)\<^sup>*\<^sup>* (s, ts) (s', ts')" "mset ts' = opt_mset b + (L + M)"
  using assms unfolding moves_def by blast

lemma moves_refl [simp]: "moves c s a s a"
  unfolding moves_def by (metis add_0 rtranclp.rtrancl_refl)

lemma moves_trans:
  assumes "moves c s a s1 b" "moves c s1 b s2 d"
  shows "moves c s a s2 d"
  unfolding moves_def
proof (intro allI impI)
  fix ts M
  assume "mset ts = opt_mset a + M"
  then obtain ts1 L1 where 1: "(orc_loop c)\<^sup>*\<^sup>* (s, ts) (s1, ts1)" "mset ts1 = opt_mset b + (L1 + M)"
    by (rule movesD [OF assms(1)])
  obtain ts2 L2 where 2: "(orc_loop c)\<^sup>*\<^sup>* (s1, ts1) (s2, ts2)" "mset ts2 = opt_mset d + (L2 + (L1 + M))"
    using movesD [OF assms(2) 1(2)] by blast
  then have "mset ts2 = opt_mset d + ((L2 + L1) + M)"
    by (simp add: add.assoc)
  then show "\<exists>ts' L. (orc_loop c)\<^sup>*\<^sup>* (s, ts) (s2, ts') \<and> mset ts' = opt_mset d + (L + M)"
    using rtranclp_trans [OF 1(1) 2(1)] by blast
qed

lemma moves_environment:
  assumes "environment\<^sup>*\<^sup>* s s'"
  shows "moves c s a s' a"
proof -
  have "(orc_loop c)\<^sup>*\<^sup>* (s, ts) (s', ts)" for ts
    using assms
    by (induction rule: rtranclp_induct) (auto intro: rtranclp.rtrancl_into_rtrancl loop.environment)
  then show ?thesis
    unfolding moves_def by (metis add_0)
qed

lemma moves_spawn:
  assumes "start_handler c h s = (s', t)"
  shows "moves c s a s' (Some t)"
  unfolding moves_def
proof (intro allI impI)
  fix ts M
  assume ts: "mset ts = opt_mset a + M"
  have "orc_loop c (s, ts) (s', ts @ [t])"
    by (rule loop.spawn) (rule assms)
  moreover have "mset (ts @ [t]) = opt_mset (Some t) + (opt_mset a + M)"
    using ts by (simp add: opt_mset_def)
  ultimately show "\<exists>ts' L. (orc_loop c)\<^sup>*\<^sup>* (s, ts) (s', ts') \<and> mset ts' = opt_mset (Some t) + (L + M)"
    by blast
qed

lemma moves_resume:
  assumes "k r s = (s', t)"
  shows "moves c s (Some (Await q k)) s' (Some t)"
  unfolding moves_def
proof (intro allI impI)
  fix ts M
  assume ts: "mset ts = opt_mset (Some (Await q k)) + M"
  then have "Await q k \<in> set ts"
    by (metis opt_mset_def option.case(2) set_mset_mset union_iff union_single_eq_member add_mset_add_single)
  then obtain us vs where uv: "ts = us @ Await q k # vs"
    by (metis split_list)
  have "orc_loop c (s, ts) (s', us @ t # vs)"
    unfolding uv by (rule loop.resume) (rule assms)
  moreover have "mset (us @ t # vs) = opt_mset (Some t) + ({#} + M)"
    using ts by (simp add: uv opt_mset_def)
  ultimately show "\<exists>ts' L. (orc_loop c)\<^sup>*\<^sup>* (s, ts) (s', ts') \<and> mset ts' = opt_mset (Some t) + (L + M)"
    by blast
qed

text \<open>\<open>p\<close> is the orchestrator within the state.\<close>

inductive tracks ::
  "orchestrator_config \<Rightarrow> ('s \<Rightarrow> orchestrator) \<Rightarrow> ('s, 'q, string, 'a) task \<Rightarrow> otask option \<Rightarrow> bool" for c p where
  tracks_done: "tracks c p (Done r) a"
| tracks_await: "(\<And>r s. \<exists>b. moves c (p s) a (p (fst (k r s))) b \<and> tracks c p (snd (k r s)) b) \<Longrightarrow> tracks c p (Await q k) a"

inductive_cases tracks_awaitE: "tracks c p (Await q k) a"

definition follows :: "orchestrator_config \<Rightarrow> ('s \<Rightarrow> orchestrator) \<Rightarrow> ('s \<Rightarrow> 's \<times> ('s, 'q, string, 'a) task) \<Rightarrow> bool" where
  "follows c p f \<longleftrightarrow> (\<forall>a s. \<exists>b. moves c (p s) a (p (fst (f s))) b \<and> tracks c p (snd (f s)) b)"

definition quiet :: "('s \<Rightarrow> orchestrator) \<Rightarrow> ('s, 'a) sync \<Rightarrow> bool" where
  "quiet p m \<longleftrightarrow> (\<forall>s. environment\<^sup>*\<^sup>* (p s) (p (snd (m s))))"

named_theorems follow_rules

lemma followsD: "follows c p f \<Longrightarrow> \<exists>b. moves c (p s) a (p (fst (f s))) b \<and> tracks c p (snd (f s)) b"
  by (simp add: follows_def)

lemma quietD: "quiet p m \<Longrightarrow> m s = (r, s') \<Longrightarrow> moves c (p s) a (p s') a"
  unfolding quiet_def by (metis moves_environment snd_conv)

lemma follows_then:
  assumes "moves c (p s) a (p s') a" "follows c p f"
  shows "\<exists>b. moves c (p s) a (p (fst (f s'))) b \<and> tracks c p (snd (f s')) b"
  using followsD [OF assms(2)] moves_trans [OF assms(1)] by blast

lemma follows_finish [follow_rules]: "quiet p m \<Longrightarrow> follows c p (finish m)"
  unfolding follows_def finish_def by (auto intro: tracks_done dest: quietD split: prod.split)

lemma follows_run_then [follow_rules]:
  assumes "quiet p m" "\<And>x. follows c p (k x)"
  shows "follows c p (run_then m k)"
  unfolding follows_def
proof (intro allI)
  fix a s
  obtain r s' where m: "m s = (r, s')"
    by (cases "m s")
  note q = quietD [OF assms(1) m, of c a]
  show "\<exists>b. moves c (p s) a (p (fst (run_then m k s))) b \<and> tracks c p (snd (run_then m k s)) b"
  proof (cases r)
    case (Inl e)
    then show ?thesis
      using q m by (auto simp: run_then_def intro: tracks_done)
  next
    case (Inr x)
    then show ?thesis
      using follows_then [where p = p, OF q assms(2)] m by (simp add: run_then_def)
  qed
qed

lemma follows_run_try [follow_rules]:
  assumes "quiet p m" "\<And>e. follows c p (h e)" "\<And>x. follows c p (k x)"
  shows "follows c p (run_try m h k)"
  unfolding follows_def
proof (intro allI)
  fix a s
  obtain r s' where m: "m s = (r, s')"
    by (cases "m s")
  note q = quietD [OF assms(1) m, of c a]
  show "\<exists>b. moves c (p s) a (p (fst (run_try m h k s))) b \<and> tracks c p (snd (run_try m h k s)) b"
    using follows_then [where p = p, OF q assms(2)] follows_then [where p = p, OF q assms(3)] m
    by (cases r) (simp_all add: run_try_def)
qed

lemma tracks_bind:
  assumes "tracks c p t a" "\<And>r. follows c p (g r)"
  shows "\<exists>b. moves c (p s) a (p (fst (bind_task g t s))) b \<and> tracks c p (snd (bind_task g t s)) b"
  using assms(1)
proof (induction arbitrary: s rule: tracks.induct)
  case (tracks_done r a)
  then show ?case
    using followsD [OF assms(2)] by simp
next
  case (tracks_await a k q)
  have "\<exists>b. moves c (p s1) a (p (fst (bind_task g (snd (k r s1)) (fst (k r s1))))) b \<and>
      tracks c p (snd (bind_task g (snd (k r s1)) (fst (k r s1)))) b" for r s1
    using tracks_await [of s1 r] moves_trans by blast
  then have "tracks c p (Await q (\<lambda>r s1. case map_prod id (bind_task g) (k r s1) of (s2, h) \<Rightarrow> h s2)) a"
    by (intro tracks.tracks_await) (simp add: case_prod_unfold)
  then show ?case
    by (auto intro: moves_refl)
qed

lemma follows_call_then [follow_rules]:
  assumes "follows c p f" "\<And>r. follows c p (g r)"
  shows "follows c p (call_then f g)"
  unfolding follows_def
proof (intro allI)
  fix a s
  obtain s' t where f: "f s = (s', t)"
    by (cases "f s")
  then obtain b where "moves c (p s) a (p s') b" "tracks c p t b"
    using followsD [OF assms(1), of s a] by auto
  then show "\<exists>b. moves c (p s) a (p (fst (call_then f g s))) b \<and> tracks c p (snd (call_then f g s)) b"
    using tracks_bind [of c p t b g s', OF _ assms(2)] f moves_trans by (fastforce simp: call_then_def)
qed

lemma tracks_self: "tracks c id t (Some t)"
proof (induction t)
  case (Done r)
  then show ?case
    by (rule tracks_done)
next
  case (Await q k)
  show ?case
  proof (rule tracks_await)
    fix r s
    have "snd (k r s) \<in> Basic_BNFs.snds (k r s)"
      by (cases "k r s") (auto simp: prod_set_simps)
    then have tracked: "tracks c id (snd (k r s)) (Some (snd (k r s)))"
      by (rule Await.IH [of "k r" "k r s", OF rangeI rangeI])
    show "\<exists>b. moves c (id s) (Some (Await q k)) (id (fst (k r s))) b \<and> tracks c id (snd (k r s)) b"
      using tracked moves_resume [of k r s "fst (k r s)" "snd (k r s)"] by auto
  qed
qed

lemma follows_handler [follow_rules]: "follows c id (start_handler c h)"
  unfolding follows_def
proof (intro allI)
  fix a s
  obtain s' t where "start_handler c h s = (s', t)"
    by (cases "start_handler c h s")
  then show "\<exists>b. moves c (id s) a (id (fst (start_handler c h s))) b \<and> tracks c id (snd (start_handler c h s)) b"
    using moves_spawn tracks_self by (metis fst_conv id_apply snd_conv)
qed

lemma tracks_lift: "tracks c id t a \<Longrightarrow> tracks c rt_orc (lift_task t) a"
proof (induction rule: tracks.induct)
  case (tracks_done r a)
  then show ?case
    by (simp add: tracks.tracks_done)
next
  case (tracks_await a k q)
  have "\<exists>b. moves c (rt_orc s) a (fst (k r (rt_orc s))) b \<and> tracks c rt_orc (lift_task (snd (k r (rt_orc s)))) b" for r s
    using tracks_await [of "rt_orc s" r] by auto
  then have "tracks c rt_orc (Await (OrcCall q) (\<lambda>r s.
      (s\<lparr>rt_orc := fst (k r (rt_orc s))\<rparr>, lift_task (snd (k r (rt_orc s)))))) a"
    by (intro tracks.tracks_await) simp
  then show ?case
    by (simp add: case_prod_unfold)
qed

lemma follows_in_orc [follow_rules]: "follows c id f \<Longrightarrow> follows c rt_orc (in_orc f)"
  unfolding follows_def in_orc_def by (force simp: case_prod_unfold intro: tracks_lift)

lemma follows_dawait [follow_rules]:
  assumes "\<And>r. follows c rt_orc (k r)"
  shows "follows c rt_orc (dawait q k)"
proof -
  have "tracks c rt_orc (Await q k) a" for a
    by (rule tracks_await) (rule followsD [OF assms])
  then show ?thesis
    unfolding follows_def dawait_def by (auto intro: moves_refl)
qed

lemma follows_if [follow_rules]: "follows c p f \<Longrightarrow> follows c p g \<Longrightarrow> follows c p (if b then f else g)"
  by simp

lemma follows_case_option [follow_rules]:
  "follows c p f \<Longrightarrow> (\<And>x. follows c p (h x)) \<Longrightarrow> follows c p (case v of None \<Rightarrow> f | Some x \<Rightarrow> h x)"
  by (cases v) simp_all

lemma follows_case_sum [follow_rules]:
  "(\<And>e. follows c p (i e)) \<Longrightarrow> (\<And>y. follows c p (j y)) \<Longrightarrow> follows c p (case w of Inl e \<Rightarrow> i e | Inr y \<Rightarrow> j y)"
  by (cases w) simp_all

subsection \<open>Code that leaves the orchestrator to its environment\<close>

named_theorems quiet_rules

lemma quiet_intros [quiet_rules, follow_rules]:
  "quiet p (return x)" "quiet p (raise e)" "quiet p (from_outcome r)" "quiet p (gets f)"
  by (simp_all add: quiet_def sync_defs)

lemma quiet_modify: "(\<And>s. p (f s) = p s) \<Longrightarrow> quiet p (modify f)"
  by (simp add: quiet_def modify_def)

lemma quiet_bnd [quiet_rules]: "quiet p m \<Longrightarrow> (\<And>x. quiet p (f x)) \<Longrightarrow> quiet p (bnd m f)"
  unfolding quiet_def bnd_def by (fastforce split: sum.splits prod.splits intro: rtranclp_trans)

lemma quiet_catch [quiet_rules]: "quiet p m \<Longrightarrow> (\<And>e. quiet p (h e)) \<Longrightarrow> quiet p (catch m h)"
  unfolding quiet_def catch_def by (fastforce split: sum.splits prod.splits intro: rtranclp_trans)

lemma quiet_for_each [quiet_rules]: "(\<And>x. quiet p (f x)) \<Longrightarrow> quiet p (for_each xs f)"
  by (induction xs) (auto intro: quiet_rules)

lemma quiet_if [quiet_rules]: "quiet p m \<Longrightarrow> quiet p n \<Longrightarrow> quiet p (if b then m else n)"
  by simp

lemma quiet_case_option [quiet_rules]:
  "quiet p m \<Longrightarrow> (\<And>x. quiet p (f x)) \<Longrightarrow> quiet p (case v of None \<Rightarrow> m | Some x \<Rightarrow> f x)"
  by (cases v) simp_all

lemma quiet_write:
  assumes "\<And>st x st'. f st = Inr (x, st') \<Longrightarrow> others st st'"
  shows "quiet id (write_store f)"
  unfolding quiet_def write_store_def
  by (auto split: sum.split prod.split intro: assms environment.store)

lemma quiet_on_orc [quiet_rules]: "quiet id m \<Longrightarrow> quiet rt_orc (on_orc m)"
  unfolding quiet_def on_orc_def by (auto split: prod.split) (metis snd_conv)

lemma quiet_read [quiet_rules]: "quiet id (read_store f)"
  by (simp add: quiet_def read_store_def)

lemma quiet_store_calls [quiet_rules]:
  "quiet id (write_store (store_record_event_once e r nw))"
  "quiet id (write_store (store_enqueue_outbox ty p' s ag sn i nx cr nw))"
  "quiet id (write_store (store_attach_lark_message_id iid m))"
  "quiet id (write_store (store_mark_outbox_sent oid t nw))"
  "quiet id (write_store (store_record_outbox_failure oid er due))"
  by (rule quiet_write, erule others.intros)+

lemma quiet_runtime [quiet_rules]:
  "quiet rt_orc (dread f)" "quiet rt_orc (runtime_now d)"
  "quiet id (write_store g) \<Longrightarrow> quiet rt_orc (dwrite g)"
  by (auto simp: dread_def dwrite_def intro: quiet_rules) (simp add: quiet_def runtime_now_def)

lemma quiet_enqueue_daemon [quiet_rules]: "quiet rt_orc (enqueue_daemon_notification d ty su)"
  unfolding enqueue_daemon_notification_def by (intro quiet_rules)

lemma quiet_accept_hook [quiet_rules]: "quiet rt_orc (accept_hook d name payload)"
  unfolding accept_hook_def by (intro quiet_rules)

lemma quiet_drain [quiet_rules]: "quiet rt_orc (drain_spool d)"
proof -
  have "quiet rt_orc (unlink f)" for f
    unfolding unlink_def by (intro quiet_rules quiet_modify) simp
  then have "quiet rt_orc (drain_file d f)" for f
    unfolding drain_file_def by (intro quiet_rules) (auto intro!: quiet_rules split: json.split)
  then show ?thesis
    unfolding drain_spool_def by (intro quiet_rules)
qed

lemma quiet_outbox [quiet_rules]:
  "quiet rt_orc (render_item d item)" "quiet rt_orc (send_failed d item e)" "quiet rt_orc (record_delivery d item m)"
  unfolding render_item_def send_failed_def record_delivery_def by (intro quiet_rules)+

subsection \<open>The entries of the daemon\<close>

lemma follows_orc [follow_rules]:
  "follows c id (create_session c name cwd prompt model sandbox)"
  "follows c id (resolve_interaction c iid actor allow answers)"
  "follows c id (expire_due_interactions c now)"
  "follows c id (cancel_session c sid)"
  "follows c id (start c)"
  "follows c id close"
  using follows_handler [of c "HCreateSession name cwd prompt model sandbox"]
    follows_handler [of c "HResolve iid actor allow answers"] follows_handler [of c "HExpire now"]
    follows_handler [of c "HCancel sid"] follows_handler [of c HStart] follows_handler [of c HClose]
  by simp_all

lemma follows_route [follow_rules]: "follows c id (route_event c nw e)"
proof -
  have r [follow_rules]: "follows c id (refuse reason i)" for reason i
    unfolding refuse_def by (intro follow_rules)
  have s [follow_rules]: "follows c id (resolve_for c iid actor allow answers)" for iid actor allow answers
    unfolding resolve_for_def by (intro follow_rules)
  have q: "quiet id (read_store f)" "quiet id (write_store (store_record_event_once i j k))" for f i j k
    by (intro quiet_rules)+
  show ?thesis
    unfolding route_event_def
    by (cases e) (simp_all only: lark_event.case route_reaction_def route_message_def route_answers_def Let_def,
      (intro follow_rules r s q)+)
qed

lemma follows_modify_then [follow_rules]:
  "(\<And>s. rt_orc (f s) = rt_orc s) \<Longrightarrow> (\<And>x. follows c rt_orc (k x)) \<Longrightarrow> follows c rt_orc (run_then (modify f) k)"
  by (intro follows_run_then quiet_modify)

lemma follows_send_items [follow_rules]: "follows c rt_orc (send_items d items)"
  by (induction items) (auto simp: send_item_def Let_def intro!: follow_rules quiet_rules)

lemma follows_outbox_round [follow_rules]: "follows c rt_orc (outbox_round d)"
  unfolding outbox_round_def by (intro follow_rules quiet_rules)

lemma follows_route_round [follow_rules]: "follows (dm_orc d) rt_orc (route_round d nw v)"
  unfolding route_round_def Let_def by (intro follow_rules quiet_rules quiet_modify) simp_all

lemma follows_expiry_round [follow_rules]: "follows (dm_orc d) rt_orc (expiry_round d)"
proof -
  have "follows (dm_orc d) rt_orc (expiry_failed d e)" for e
    unfolding expiry_failed_def Let_def by (intro follow_rules quiet_rules quiet_modify) simp_all
  then show ?thesis
    unfolding expiry_round_def by (intro follow_rules quiet_rules)
qed

lemma follows_worker_round:
  assumes "follows c rt_orc body" "\<And>f s. rt_orc (upd f s) = rt_orc s"
  shows "follows c rt_orc (worker_round get upd body)"
proof -
  have w: "follows c rt_orc (call_then body (\<lambda>r. case r of
      Inl e \<Rightarrow> run_then (modify (upd (\<lambda>_. Dead))) (\<lambda>_. finish (raise e))
    | Inr v \<Rightarrow> run_then (modify (upd (\<lambda>w. if w = Busy then Idle else w))) (\<lambda>_. finish (return v))))"
    using assms by (intro follow_rules quiet_rules) auto
  show ?thesis
    unfolding follows_def worker_round_def
    using followsD [OF w, of "upd (\<lambda>_. Busy) s" for s] assms(2) by (auto intro: tracks_done moves_refl)
qed

lemma follows_respond [follow_rules]: "follows c rt_orc (respond r)"
  unfolding respond_def by (intro follow_rules)

lemma follows_with_auth [follow_rules]: "follows c rt_orc body \<Longrightarrow> follows c rt_orc (with_auth d header body)"
  unfolding with_auth_def by (intro follow_rules)

lemma follows_checked [follow_rules]: "follows c rt_orc body \<Longrightarrow> follows c rt_orc (checked_body i b body)"
  unfolding checked_body_def by (intro follow_rules)

lemma follows_ingest [follow_rules]: "follows c rt_orc (ingest_hook d header cl chunks)"
  unfolding ingest_hook_def by (intro follow_rules quiet_rules) (auto intro!: follow_rules quiet_rules split: json.split)

lemma follows_endpoints [follow_rules]:
  "follows (dm_orc d) rt_orc (create_session_endpoint d header b)"
  "follows c rt_orc (create_interactive_endpoint d header b)"
  "follows c rt_orc (close_interactive_endpoint d header sid)"
  "follows c rt_orc (list_sessions_endpoint d header status)"
  "follows c rt_orc (get_session_endpoint d header sid)"
  "follows (dm_orc d) rt_orc (cancel_session_endpoint d header sid)"
  unfolding create_session_endpoint_def create_interactive_endpoint_def close_interactive_endpoint_def
    list_sessions_endpoint_def get_session_endpoint_def cancel_session_endpoint_def
  by (intro follow_rules quiet_rules)+

lemma follows_close_runtime [follow_rules]: "follows c rt_orc (close_runtime d)"
proof -
  have "environment\<^sup>*\<^sup>* s (s\<lparr>orc_store := store_close (orc_store s)\<rparr>)" for s
    by (blast intro: environment.store others.close)
  then have "quiet rt_orc (modify (\<lambda>s. s\<lparr>rt_orc := (rt_orc s)\<lparr>orc_store := store_close (orc_store (rt_orc s))\<rparr>\<rparr>))"
    by (simp add: quiet_def modify_def)
  then have "follows c rt_orc close_lark_and_store"
    unfolding close_lark_and_store_def by (intro follow_rules)
  then show ?thesis
    unfolding close_runtime_def Let_def by (intro follow_rules) auto
qed

lemma follows_start_runtime [follow_rules]: "follows (dm_orc d) rt_orc (start_runtime d)"
proof -
  have "follows (dm_orc d) rt_orc (start_failed d e)" for e
    unfolding start_failed_def by (intro follow_rules)
  then show ?thesis
    unfolding start_runtime_def Let_def by (intro follow_rules quiet_rules) auto
qed

lemma follows_daemon: "follows (dm_orc d) rt_orc (daemon_start d h)"
  by (cases h; simp only: daemon_start.simps; intro follow_rules follows_worker_round quiet_rules) auto

subsection \<open>The refinement\<close>

text \<open>
  A program that contains the orchestrator: its handlers follow the orchestrator's, and what its environment
  does is what the orchestrator's environment may do. The orchestrator inside then makes a run of its own.
\<close>

locale orchestrator_inside =
  fixes c :: orchestrator_config
    and p :: "'s \<Rightarrow> orchestrator"
    and start :: "'h \<Rightarrow> 's \<Rightarrow> 's \<times> ('s, 'q, string, 'a) task"
    and env :: "'s \<Rightarrow> 's \<Rightarrow> bool"
  assumes handler_follows: "follows c p (start h)"
    and env_inside: "env s s' \<Longrightarrow> environment (p s) (p s')"
begin

definition related :: "('s, 'q, string, 'a) task list \<Rightarrow> otask list \<Rightarrow> bool" where
  "related ds ts \<longleftrightarrow> (\<exists>tr L. list_all2 (tracks c p) ds tr \<and> mset ts = sum_list (map opt_mset tr) + L)"

lemma related_step:
  assumes "moves c s a s' b" "list_all2 (tracks c p) us ts1" "tracks c p t b"
    "list_all2 (tracks c p) vs ts2" "mset ts = sum_list (map opt_mset (ts1 @ a # ts2)) + L"
  shows "\<exists>ts'. (orc_loop c)\<^sup>*\<^sup>* (s, ts) (s', ts') \<and> related (us @ t # vs) ts'"
proof -
  have "mset ts = opt_mset a + (sum_list (map opt_mset (ts1 @ ts2)) + L)"
    using assms(5) by (simp add: ac_simps)
  then obtain ts' L' where s: "(orc_loop c)\<^sup>*\<^sup>* (s, ts) (s', ts')"
    and m: "mset ts' = opt_mset b + (L' + (sum_list (map opt_mset (ts1 @ ts2)) + L))"
    using movesD [OF assms(1)] by metis
  have "mset ts' = sum_list (map opt_mset (ts1 @ b # ts2)) + (L' + L)"
    using m by (simp add: ac_simps)
  moreover have "list_all2 (tracks c p) (us @ t # vs) (ts1 @ b # ts2)"
    using assms(2-4) by (simp add: list_all2_appendI)
  ultimately show ?thesis
    using s unfolding related_def by blast
qed

lemma step_inside:
  assumes "loop start env x y" "related (snd x) ts"
  shows "\<exists>ts'. (orc_loop c)\<^sup>*\<^sup>* (p (fst x), ts) (p (fst y), ts') \<and> related (snd y) ts'"
  using assms
proof (induction rule: loop.induct)
  case (spawn h s s' t ds)
  obtain b where b: "moves c (p s) None (p s') b" "tracks c p t b"
    using followsD [OF handler_follows, of s None h] spawn.hyps by auto
  obtain tr L where tr: "list_all2 (tracks c p) ds tr" "mset ts = sum_list (map opt_mset tr) + L"
    using spawn.prems by (auto simp: related_def)
  then have "mset ts = sum_list (map opt_mset (tr @ None # [])) + L"
    by (simp add: opt_mset_def)
  then show ?case
    using related_step [OF b(1) tr(1) b(2)] by simp
next
  case (resume k r s s' t us q vs)
  obtain tr L where tr: "list_all2 (tracks c p) (us @ Await q k # vs) tr"
    "mset ts = sum_list (map opt_mset tr) + L"
    using resume.prems by (auto simp: related_def)
  then obtain ts1 a ts2 where a: "tr = ts1 @ a # ts2" "list_all2 (tracks c p) us ts1"
    "tracks c p (Await q k) a" "list_all2 (tracks c p) vs ts2"
    by (auto simp: list_all2_append1 list_all2_Cons1)
  obtain b where "moves c (p s) a (p s') b" "tracks c p t b"
    using a(3) resume.hyps by (elim tracks_awaitE) (metis fst_conv snd_conv)
  then show ?case
    using related_step [OF _ a(2) _ a(4)] tr(2) a(1) by simp
next
  case (environment s s' ds)
  then have "orc_loop c (p s, ts) (p s', ts)"
    by (blast intro: loop.environment env_inside)
  then show ?case
    using environment.prems by auto
qed

lemma run_inside:
  assumes "(loop start env)\<^sup>*\<^sup>* (s0, []) (s, ds)" and "p s0 = initial st"
  shows "orch_run c st (p s)"
proof -
  have "\<exists>ts. (orc_loop c)\<^sup>*\<^sup>* (p s0, []) (p (fst x), ts) \<and> related (snd x) ts"
    if "(loop start env)\<^sup>*\<^sup>* (s0, []) x" for x
    using that
  proof (induction rule: rtranclp_induct)
    case base
    then show ?case
      by (auto simp: related_def)
  next
    case (step y z)
    then show ?case
      using step_inside by (meson rtranclp_trans)
  qed
  then show ?thesis
    using assms unfolding orch_run_def by fastforce
qed

end

lemma daemon_environment_inside: "daemon_environment s s' \<Longrightarrow> environment (rt_orc s) (rt_orc s')"
  by (cases rule: daemon_environment.cases) (auto intro: environment.intros)

interpretation in_daemon: orchestrator_inside "dm_orc d" rt_orc "daemon_start d" daemon_environment for d
  by unfold_locales (rule follows_daemon, rule daemon_environment_inside)

text \<open>
  C26. The daemon refines the orchestrator: whatever the interleaving of its start and close, the outbox, routing
  and expiry workers, the hooks, the HTTP requests, the consumers and the gateway, with every reply or failure of the
  outside calls, the orchestrator inside it makes a run of its own event loop.
\<close>

theorem daemon_refines_orchestrator:
  assumes "daemon_run d st spool s"
  shows "orch_run (dm_orc d) st (rt_orc s)"
proof -
  obtain ds where "(loop (daemon_start d) daemon_environment)\<^sup>*\<^sup>* (new_runtime (initial st) spool, []) (s, ds)"
    using assms unfolding daemon_run_def by blast
  then show ?thesis
    by (rule in_daemon.run_inside) (simp add: new_runtime_def)
qed

end
