(* ===== verification/Daemon_Worker.thy ===== *)
theory Daemon_Worker
  imports Daemon_Properties Store_Properties
begin

text \<open>
  Single entries of the daemon, run to their end: a round of the outbox worker settles every item that was due,
  closing reaches every part whatever the others raise, and a request without the token has no effect.
\<close>

text \<open>A task run alone, its calls answered by \<open>f\<close>, for at most \<open>n\<close> calls.\<close>

fun drive :: "('q \<Rightarrow> 'r outcome) \<Rightarrow> nat \<Rightarrow> 's \<times> ('s, 'q, 'r, 'a) task \<Rightarrow> 's \<times> ('s, 'q, 'r, 'a) task" where
  "drive f (Suc n) (s, Await q k) = drive f n (k (f q) s)"
| "drive f n x = x"

lemma drive_Done [simp]: "drive f n (s, Done r) = (s, Done r)"
  by (cases n) simp_all

lemma drive_more: "drive f n x = (s, Done r) \<Longrightarrow> drive f (Suc n) x = (s, Done r)"
  by (induction f n x rule: drive.induct) auto

lemma drive_enough:
  assumes "drive f n x = (s, Done r)" "n \<le> m"
  shows "drive f m x = (s, Done r)"
  using assms(2,1) by (induction rule: dec_induct) (auto intro: drive_more)

subsection \<open>A round of the outbox worker\<close>

abbreviation rt_store :: "runtime \<Rightarrow> codex_store" where
  "rt_store s \<equiv> orc_store (rt_orc s)"

lemma retry_delay_bounds:
  assumes "0 < poll" "0 \<le> a"
  shows "0 < retry_delay poll a" "retry_delay poll a \<le> 300000000" "retry_delay poll a \<le> retry_delay poll (a + 1)"
proof -
  have "nat (min (a + 1) 10) \<le> nat (min (a + 1 + 1) 10)"
    by simp
  then have "int poll * 2 ^ nat (min (a + 1) 10) \<le> int poll * 2 ^ nat (min (a + 1 + 1) 10)"
    using power_increasing [of _ _ "2 :: int"] by (simp add: mult_left_mono)
  then show "retry_delay poll a \<le> retry_delay poll (a + 1)"
    by (simp add: retry_delay_def)
qed (use assms in \<open>simp_all add: retry_delay_def\<close>)

text \<open>
  What a round owes an item \<open>i\<close>: its row is sent, or counts one more attempt and is next due a delay of at most
  five minutes after the failure, which was read from the clock in the round.
\<close>

definition settled :: "daemon_config \<Rightarrow> nat \<Rightarrow> outbox_item \<Rightarrow> outbox_item \<Rightarrow> bool" where
  "settled d k i r \<longleftrightarrow> o_id r = o_id i \<and>
     (o_sent_at r \<noteq> None \<or>
      (\<exists>n\<ge>k. o_attempt_count r = o_attempt_count i + 1 \<and> dm_now d n < o_next_attempt_at r \<and>
         o_next_attempt_at r \<le> dm_now d n + 300000000 \<and>
         o_next_attempt_at r = dm_now d n + retry_delay (dm_poll d) (o_attempt_count i)))"

lemma settled_earlier: "settled d n i r \<Longrightarrow> m \<le> n \<Longrightarrow> settled d m i r"
  unfolding settled_def by (meson order_trans)

definition served :: "daemon_config \<Rightarrow> outbox_item \<Rightarrow> runtime \<Rightarrow> runtime \<Rightarrow> bool" where
  "served d i s s1 \<longleftrightarrow> \<not> store_closed (rt_store s1) \<and> rt_clock s \<le> rt_clock s1 \<and>
     (\<forall>r\<in>set (outbox (rt_store s)). o_id r \<noteq> o_id i \<longrightarrow> r \<in> set (outbox (rt_store s1))) \<and>
     (\<exists>r\<in>set (outbox (rt_store s1)). settled d (rt_clock s) i r)"

lemmas store_run = bnd_def return_def dwrite_def dread_def on_orc_def write_store_def read_store_def runtime_now_def
  with_connection_def

lemma served_update:
  assumes "outbox (rt_store s1) = update_where (\<lambda>r. o_id r = o_id i \<and> o_sent_at r = None) f (outbox (rt_store s))"
    "\<not> store_closed (rt_store s1)" "rt_clock s \<le> rt_clock s1"
    "i \<in> set (outbox (rt_store s))" "o_sent_at i = None" "settled d (rt_clock s) i (f i)"
  shows "served d i s s1"
proof -
  have "f i \<in> set (outbox (rt_store s1))"
    unfolding assms(1) set_update_where using assms(4,5) by force
  moreover have "r \<in> set (outbox (rt_store s1))" if "r \<in> set (outbox (rt_store s))" "o_id r \<noteq> o_id i" for r
    unfolding assms(1) set_update_where using that by force
  ultimately show ?thesis
    using assms(2,3,6) unfolding served_def by blast
qed

lemma send_failed_serves:
  assumes "\<not> is_cancel e" "\<not> store_closed (rt_store s)" "i \<in> set (outbox (rt_store s))" "o_sent_at i = None"
    "0 < dm_poll d" "0 \<le> o_attempt_count i"
  shows "\<exists>b s1. send_failed d i e s = (Inr b, s1) \<and> served d i s s1"
proof -
  define m where "m = ''send failed ('' @ exn_type e @ '')''"
  let ?t = "dm_now d (rt_clock s) + retry_delay (dm_poll d) (o_attempt_count i)"
  let ?f = "\<lambda>r. r\<lparr>o_attempt_count := o_attempt_count r + 1, o_next_attempt_at := ?t, o_last_error := Some (safe_summary m)\<rparr>"
  have "settled d (rt_clock s) i (?f i)"
    using retry_delay_bounds [OF assms(5,6)] by (auto simp: settled_def)
  then show ?thesis
    using assms(1-4) unfolding send_failed_def m_def [symmetric]
    by (simp add: store_run store_record_outbox_failure_def Let_def)
      (rule served_update [where f = ?f], auto)
qed

lemma record_delivery_serves:
  assumes "\<not> store_closed (rt_store s)" "i \<in> set (outbox (rt_store s))" "o_sent_at i = None"
  shows "\<exists>b s1. record_delivery d i m s = (Inr b, s1) \<and> served d i s s1"
proof -
  let ?r = "i\<lparr>o_sent_at := Some (dm_now d (rt_clock s)), o_last_error := None\<rparr>"
  have "settled d (rt_clock s) i ?r"
    by (simp add: settled_def)
  then show ?thesis
    using assms
    by (simp add: record_delivery_def store_run store_attach_lark_message_id_def store_mark_outbox_sent_def Let_def)
      (safe, (rule served_update, auto)+)
qed

lemma render_item_runs:
  assumes "\<not> store_closed (rt_store s)"
  shows "\<exists>r. render_item d i s = (r, s) \<and> (\<forall>e. r = Inl e \<longrightarrow> \<not> is_cancel e)"
  using assms
  by (auto simp: render_item_def store_run from_outcome_def store_get_interaction_def store_get_session_def
      fetch_interaction_def interaction_from_row_def session_display_of_def render_outbox_notification_def
      session_display_from_item_def is_cancel_def Let_def
      split: option.splits sum.splits if_splits prod.splits)

lemma send_item_drive:
  assumes "\<And>q e. f q = Inl e \<Longrightarrow> \<not> is_cancel e" "\<not> store_closed (rt_store s)" "i \<in> set (outbox (rt_store s))"
    "o_sent_at i = None" "0 < dm_poll d" "0 \<le> o_attempt_count i"
  shows "\<exists>s1 n. served d i s s1 \<and> n \<le> 1 \<and> (\<forall>m. drive f (m + n) (send_item d i rest s) = drive f m (rest s1))"
proof -
  obtain r where r: "render_item d i s = (r, s)" "\<And>e. r = Inl e \<Longrightarrow> \<not> is_cancel e"
    using render_item_runs [OF assms(2)] by blast
  show ?thesis
  proof (cases r)
    case (Inl e)
    then obtain b s1 where "send_failed d i e s = (Inr b, s1)" "served d i s s1"
      using send_failed_serves [of e s i d] r(2) assms by blast
    then show ?thesis
      using r(1) Inl by (intro exI [of _ s1] exI [of _ 0]) (simp add: send_item_def Let_def run_try_def run_then_def)
  next
    case (Inr msg)
    define q where "q = SendRendered (o_id i) msg"
    define s' where "s' = s\<lparr>rt_calls := rt_calls s @ [q]\<rparr>"
    have s': "served d i s' s1 = served d i s s1" "rt_store s' = rt_store s" for s1
      by (simp_all add: s'_def served_def)
    have go: "drive f (m + 1) (send_item d i rest s) = drive f m
        (case f q of Inl e \<Rightarrow> run_then (send_failed d i e) (\<lambda>_. rest) s'
         | Inr mid \<Rightarrow> run_try (record_delivery d i mid) (\<lambda>e. run_then (send_failed d i e) (\<lambda>_. rest)) (\<lambda>_. rest) s')" for m
      using r(1) Inr by (cases "f q") (simp_all add: send_item_def Let_def run_try_def dawait_def s'_def q_def)
    show ?thesis
    proof (cases "f q")
      case (Inl e)
      then obtain b s1 where "send_failed d i e s' = (Inr b, s1)" "served d i s' s1"
        using send_failed_serves [of e s' i d] assms s'(2) by auto
      then show ?thesis
        using go Inl s'(1) by (intro exI [of _ s1] exI [of _ 1]) (simp add: run_then_def)
    next
      case (Inr mid)
      then obtain b s1 where "record_delivery d i mid s' = (Inr b, s1)" "served d i s' s1"
        using record_delivery_serves [of s' i d mid] assms s'(2) by auto
      then show ?thesis
        using go Inr s'(1) by (intro exI [of _ s1] exI [of _ 1]) (simp add: run_try_def)
    qed
  qed
qed

lemma send_items_drive:
  assumes "\<And>q e. f q = Inl e \<Longrightarrow> \<not> is_cancel e" "0 < dm_poll d" "\<not> store_closed (rt_store s)"
    "\<And>i. i \<in> set items \<Longrightarrow> i \<in> set (outbox (rt_store s)) \<and> o_sent_at i = None \<and> 0 \<le> o_attempt_count i"
    "distinct (map o_id items)"
  shows "\<exists>s1. drive f (length items) (send_items d items s) = (s1, Done (Inr VNone)) \<and>
     \<not> store_closed (rt_store s1) \<and> rt_clock s \<le> rt_clock s1 \<and>
     (\<forall>r\<in>set (outbox (rt_store s)). o_id r \<notin> o_id ` set items \<longrightarrow> r \<in> set (outbox (rt_store s1))) \<and>
     (\<forall>i\<in>set items. \<exists>r\<in>set (outbox (rt_store s1)). settled d (rt_clock s) i r)"
  using assms(3-5)
proof (induction items arbitrary: s)
  case Nil
  then show ?case
    by (simp add: finish_def return_def)
next
  case (Cons i items)
  obtain s1 n where s1: "served d i s s1" "n \<le> 1"
    "\<And>m. drive f (m + n) (send_item d i (send_items d items) s) = drive f m (send_items d items s1)"
    using send_item_drive [where f = f and s = s and i = i and d = d and rest = "send_items d items"]
      Cons.prems assms(1,2) by auto
  have later: "j \<in> set (outbox (rt_store s1)) \<and> o_sent_at j = None \<and> 0 \<le> o_attempt_count j" if "j \<in> set items" for j
    using Cons.prems(2) [of j] Cons.prems(3) that s1(1) by (auto simp: served_def image_iff)
  have open1: "\<not> store_closed (rt_store s1)" "distinct (map o_id items)"
    using s1(1) Cons.prems(3) by (simp_all add: served_def)
  obtain s2 where s2: "drive f (length items) (send_items d items s1) = (s2, Done (Inr VNone))"
    "\<not> store_closed (rt_store s2)" "rt_clock s1 \<le> rt_clock s2"
    "\<And>r. r \<in> set (outbox (rt_store s1)) \<Longrightarrow> o_id r \<notin> o_id ` set items \<Longrightarrow> r \<in> set (outbox (rt_store s2))"
    "\<And>j. j \<in> set items \<Longrightarrow> \<exists>r\<in>set (outbox (rt_store s2)). settled d (rt_clock s1) j r"
    using Cons.IH [OF open1(1) later open1(2)] by blast
  have "drive f (length (i # items)) (send_items d (i # items) s) = (s2, Done (Inr VNone))"
    using s1(2) s1(3) [of "length items"] s1(3) [of "Suc (length items)"] s2(1) drive_more [OF s2(1)]
    by (cases n) auto
  moreover have "\<exists>r\<in>set (outbox (rt_store s2)). settled d (rt_clock s) i r"
  proof -
    obtain r where r: "r \<in> set (outbox (rt_store s1))" "settled d (rt_clock s) i r"
      using s1(1) by (auto simp: served_def)
    then have "o_id r \<notin> o_id ` set items"
      using Cons.prems(3) by (auto simp: settled_def)
    then show ?thesis
      using r s2(4) by blast
  qed
  moreover have "\<exists>r\<in>set (outbox (rt_store s2)). settled d (rt_clock s) j r" if "j \<in> set items" for j
    using s2(5) [OF that] s1(1) settled_earlier by (meson served_def)
  ultimately show ?case
    using s1(1) s2(2-4) by (auto simp: served_def intro: order_trans)
qed


subsection \<open>Who may act\<close>

definition header_of :: "daemon_handler \<Rightarrow> string option option" where
  "header_of h = (case h of
     DHook header _ _ \<Rightarrow> Some header | DCreate header _ \<Rightarrow> Some header | DCreateInteractive header _ \<Rightarrow> Some header
   | DCloseInteractive header _ \<Rightarrow> Some header | DList header _ \<Rightarrow> Some header | DGet header _ \<Rightarrow> Some header
   | DCancel header _ \<Rightarrow> Some header | _ \<Rightarrow> None)"

definition bears_token :: "string \<Rightarrow> string option \<Rightarrow> bool" where
  "bears_token token header \<longleftrightarrow> (\<exists>scheme. header = Some (scheme @ '' '' @ token) \<and> py_casefold scheme = ''bearer'')"

lemma casefold_space: "CHR '' '' \<in> set s \<Longrightarrow> CHR '' '' \<in> set (py_casefold s)"
  by (force simp: py_casefold_def lower_char_def)

lemma authenticate_passes:
  assumes "is_ascii token" "token \<noteq> []"
  shows "authenticate token header = None \<longleftrightarrow> bears_token token header"
proof
  assume "authenticate token header = None"
  then show "bears_token token header"
  proof (cases header)
    case None
    then show ?thesis
      using \<open>authenticate token header = None\<close> by (simp add: authenticate_def py_partition_def py_casefold_def)
  next
    case (Some h)
    define scheme where "scheme = takeWhile (\<lambda>x. x \<noteq> CHR '' '') h"
    show ?thesis
    proof (cases "dropWhile (\<lambda>x. x \<noteq> CHR '' '') h")
      case Nil
      then have "py_partition (CHR '' '') h = (h, [], [])"
        by (simp only: py_partition_def Nil list.case)
      then show ?thesis
        using \<open>authenticate token header = None\<close> Some assms(2) by (simp add: authenticate_def split: if_splits)
    next
      case (Cons c rest)
      then have "c = CHR '' ''" "h = scheme @ c # rest"
        using hd_dropWhile [of "\<lambda>x. x \<noteq> CHR '' ''" h] takeWhile_dropWhile_id [of "\<lambda>x. x \<noteq> CHR '' ''" h]
        unfolding scheme_def by simp_all
      moreover have "py_partition (CHR '' '') h = (scheme, [c], rest)"
        by (simp only: py_partition_def Cons list.case scheme_def)
      ultimately show ?thesis
        using \<open>authenticate token header = None\<close> Some
        by (auto simp: authenticate_def bears_token_def split: if_splits)
    qed
  qed
next
  assume "bears_token token header"
  then obtain scheme where s: "header = Some (scheme @ '' '' @ token)" "py_casefold scheme = ''bearer''"
    by (auto simp: bears_token_def)
  then have "CHR '' '' \<notin> set scheme"
    using casefold_space [of scheme] by auto
  then have "takeWhile (\<lambda>x. x \<noteq> CHR '' '') (scheme @ '' '' @ token) = scheme"
    "dropWhile (\<lambda>x. x \<noteq> CHR '' '') (scheme @ '' '' @ token) = '' '' @ token"
    by (induction scheme) auto
  then show "authenticate token header = None"
    using assms s by (simp add: authenticate_def py_partition_def)
qed

text \<open>
  C29. A request to the daemon's interface without the token, in a header of the form \<^verbatim>\<open>Bearer <token>\<close>, runs
  none of its handler: it is answered at once, with 401 or with the error of a comparison of non-ASCII text,
  and the state is as before. The header with the token lets it pass.
\<close>

theorem only_token_holders_act:
  assumes "is_ascii (dm_token d)" "dm_token d \<noteq> []" "header_of h = Some header"
  shows "if bears_token (dm_token d) header then authenticate (dm_token d) header = None
    else daemon_start d h s \<in> {(s, Done (Inr (VResponse (Refused 401 ''unauthorized'')))),
      (s, Done (Inl (Exn ''TypeError'' ''comparing strings with non-ASCII characters is not supported'')))}"
proof (cases "bears_token (dm_token d) header")
  case True
  then show ?thesis
    using authenticate_passes [OF assms(1,2)] by simp
next
  case False
  then obtain r where r: "authenticate (dm_token d) header = Some r"
    using authenticate_passes [OF assms(1,2)] by auto
  then have "r \<in> {Inr (Refused 401 ''unauthorized''),
      Inl (Exn ''TypeError'' ''comparing strings with non-ASCII characters is not supported'')}"
    by (auto simp: authenticate_def split: prod.splits if_splits)
  moreover have "daemon_start d h s = (s, Done (map_sum id VResponse r))"
    using assms(3) r
    by (cases h) (simp_all add: header_of_def ingest_hook_def create_session_endpoint_def create_interactive_endpoint_def
      close_interactive_endpoint_def list_sessions_endpoint_def get_session_endpoint_def cancel_session_endpoint_def
      with_auth_def finish_def from_outcome_def)
  ultimately show ?thesis
    using False by auto
qed

subsection \<open>Closing\<close>

definition same_parts :: "runtime \<Rightarrow> runtime \<Rightarrow> bool" where
  "same_parts t t' \<longleftrightarrow> rt_closed t' = rt_closed t \<and> rt_outbox t' = rt_outbox t \<and> rt_route t' = rt_route t \<and>
     rt_expiry t' = rt_expiry t \<and> rt_calls t' = rt_calls t"

lemma same_parts_orc [simp]: "same_parts t (t\<lparr>rt_orc := orc\<rparr>)"
  by (simp add: same_parts_def)

lemma close_orchestrator_drive:
  "\<exists>t' n. n \<le> 3 \<and> same_parts t t' \<and> (\<forall>m. drive f (m + n) (call_then (in_orc close) (\<lambda>_. rest) t) = drive f m (rest t'))"
proof -
  let ?lock = "f (OrcCall (CallLock ''close''))" and ?gather = "f (OrcCall CallGather)" and ?app = "f (OrcCall CallClose)"
  note defs = close_def close_app_server_def await_call_def call_then_def in_orc_def run_then_def finish_def bnd_def sync_defs
  let ?done = "\<lambda>n orc. \<forall>m. drive f (m + n) (call_then (in_orc close) (\<lambda>_. rest) t) = drive f m (rest (t\<lparr>rt_orc := orc\<rparr>))"
  have "\<exists>n orc. n \<le> 3 \<and> ?done n orc"
  proof (cases ?lock)
    case (Inl e)
    then have "?done 1 ((rt_orc t)\<lparr>calls := calls (rt_orc t) @ [CallLock ''close'']\<rparr>)"
      by (simp add: defs)
    then show ?thesis
      by (intro exI [of _ "1::nat"]) auto
  next
    case lock: (Inr x)
    show ?thesis
    proof (cases "closed (rt_orc t)")
      case True
      then have "?done 1 ((rt_orc t)\<lparr>calls := calls (rt_orc t) @ [CallLock ''close'']\<rparr>)"
        using lock by (simp add: defs)
      then show ?thesis
        by (intro exI [of _ "1::nat"]) auto
    next
      case False
      show ?thesis
      proof (cases "started (rt_orc t)")
        case True
        then have "\<exists>orc. ?done 2 orc \<or> ?done 3 orc"
          using lock False
          by (cases ?gather; cases ?app) (simp_all add: defs eval_nat_numeral, auto)
        moreover have "(2::nat) \<le> 3" "(3::nat) \<le> 3"
          by simp_all
        ultimately show ?thesis
          by blast
      next
        case no: False
        then have "\<exists>orc. ?done 2 orc"
          using lock False by (cases ?app) (simp_all add: defs eval_nat_numeral, auto)
        then show ?thesis
          by (intro exI [of _ "2::nat"]) auto
      qed
    qed
  qed
  then show ?thesis
    using same_parts_orc by blast
qed



subsection \<open>Examples\<close>

definition ex_daemon :: daemon_config where
  "ex_daemon = \<lparr>dm_orc = ex_config, dm_poll = 2, dm_delay = 0, dm_format = FText, dm_now = (\<lambda>n. int n + 9),
     dm_token = ''secret'', dm_manager = True, dm_loads = (\<lambda>_. Inr (JObj [(''hook_event_name'', JStr ''Stop'')]))\<rparr>"

definition ex_runtime :: runtime where
  "ex_runtime = perform (daemon_start ex_daemon)
     [(DStart, [Inr [], Inr [], Inr [], Inr []]), (DOrc (HCreateInteractive ''demo'' ''/tmp'' None ''workspace-write''), []),
      (DOrc (HBind ''s1'' ''t1'' None), []), (DOrc (HRequest ex_approval (Some ''s1'') (Some ''gateway'')), []),
      (DOrc (HResolve ''i1'' ''ou_1'' (Some True) None), [Inr []])]
     (new_runtime (initial empty_store) [])"

lemma ex_runtime_run: "daemon_run ex_daemon empty_store [] ex_runtime"
  unfolding daemon_run_def ex_runtime_def by (rule perform_loop)

theorem daemon_refines_orchestrator_ex:
  "orch_run ex_config empty_store (rt_orc ex_runtime) \<and> started (rt_orc ex_runtime) \<and> rt_outbox ex_runtime = Idle \<and>
   answered_ids (rt_orc ex_runtime) = [''i1'']"
proof -
  have "dm_orc ex_daemon = ex_config"
    by (simp add: ex_daemon_def)
  moreover have "started (rt_orc ex_runtime)" "rt_outbox ex_runtime = Idle" "answered_ids (rt_orc ex_runtime) = [''i1'']"
    by code_simp+
  ultimately show ?thesis
    using daemon_refines_orchestrator [OF ex_runtime_run] by simp
qed


theorem only_token_holders_act_ex:
  "daemon_start ex_daemon (DCancel (Some ''Bearer guess'') ''s1'') ex_runtime =
     (ex_runtime, Done (Inr (VResponse (Refused 401 ''unauthorized''))))"
proof -
  have "is_ascii (dm_token ex_daemon)" "dm_token ex_daemon \<noteq> []"
    by (simp_all add: ex_daemon_def is_ascii_def)
  from only_token_holders_act [OF this, of "DCancel (Some ''Bearer guess'') ''s1''" "Some ''Bearer guess''" ex_runtime]
  have "if bears_token (dm_token ex_daemon) (Some ''Bearer guess'') then authenticate (dm_token ex_daemon) (Some ''Bearer guess'') = None
    else daemon_start ex_daemon (DCancel (Some ''Bearer guess'') ''s1'') ex_runtime \<in>
      {(ex_runtime, Done (Inr (VResponse (Refused 401 ''unauthorized'')))),
       (ex_runtime, Done (Inl (Exn ''TypeError'' ''comparing strings with non-ASCII characters is not supported'')))}"
    by (simp add: header_of_def)
  moreover have a: "authenticate (dm_token ex_daemon) (Some ''Bearer guess'') = Some (Inr (Refused 401 ''unauthorized''))"
    by (simp add: authenticate_def py_partition_def py_casefold_def lower_char_def ex_daemon_def is_ascii_def)
  ultimately show ?thesis
    by (auto simp: cancel_session_endpoint_def with_auth_def finish_def from_outcome_def split: if_splits)
qed


text \<open>The check of a hook's length believes \<^verbatim>\<open>isdigit\<close>, which holds of a superscript digit, and raises.\<close>

lemma superscript_length_raises: "\<exists>e. read_bounded_body MAX_HOOK_BYTES (Some [CHR 0xB2]) chunks = Inl e"
  by (simp add: read_bounded_body_def py_isdigit_def is_digit_char_def is_ascii_digit_def py_int_of_digits_def)

text \<open>A spooled hook whose event name is a list stops the start of the daemon, at every start.\<close>

lemma spooled_list_stops_start:
  assumes "rt_spool s = [f]" "sf_symlink f = False" "sf_size f \<le> MAX_HOOK_BYTES" "sf_text f = Inr t"
    "dm_loads d t = Inr (JObj [(''hook_event_name'', JArr xs)])"
  shows "drain_spool d s = (Inl (Exn ''TypeError'' ''unhashable type''), s)"
  using assms
  by (simp add: drain_spool_def drain_file_def bnd_def gets_def catch_def from_outcome_def raise_def jget_def
      drain_error_ignored_def is_os_error_def)

end
