(* ===== verification/Hooks.thy ===== *)
theory Hooks
  imports Notification Daemon_Worker
begin

text \<open>
  The programs Codex and Claude Code call: \<^verbatim>\<open>modules/agent/agent_hook.py\<close>,
  \<^verbatim>\<open>modules/codex/codex_hook_adapter.py\<close>, \<^verbatim>\<open>modules/codex/codex_hook.py\<close>,
  \<^verbatim>\<open>modules/codex/codex_tui.py\<close>, \<^verbatim>\<open>modules/claude/claude_hook.py\<close> and \<^verbatim>\<open>commands/codex_args.py\<close>. A
  callback is reduced to a few short fields and is posted to the daemon, or spooled for its next start; the
  theory ends with the proof that both ways the daemon takes it. The JSON parser, the HTTP sender, the file
  system and \<^verbatim>\<open>subprocess\<close> are parameters.
\<close>

subsection \<open>Bounded JSON\<close>

text \<open>UTF-8 of a text in the Latin-1 range.\<close>

definition utf8_char :: "char \<Rightarrow> string" where
  "utf8_char c = (if ord c < 128 then [c] else [char_of (192 + ord c div 64), char_of (128 + ord c mod 64)])"

definition utf8 :: "string \<Rightarrow> string" where
  "utf8 s = concat (map utf8_char s)"

definition hook_json_error :: "exn \<Rightarrow> bool" where
  "hook_json_error e \<longleftrightarrow> exn_type e \<in>
     {''UnicodeError'', ''UnicodeDecodeError'', ''UnicodeEncodeError'', ''JSONDecodeError''}"

definition parse_bounded_json_object :: "(string \<Rightarrow> json outcome) \<Rightarrow> nat \<Rightarrow> string \<Rightarrow> json_object option outcome" where
  "parse_bounded_json_object loads max_bytes raw =
     (if max_bytes < length (utf8 raw) then Inr None
      else (case loads raw of
          Inl e \<Rightarrow> if hook_json_error e then Inr None else Inl e
        | Inr (JObj kvs) \<Rightarrow> Inr (Some kvs)
        | Inr _ \<Rightarrow> Inr None))"

text \<open>\<open>reader n\<close> is \<^verbatim>\<open>sys.stdin.read(n)\<close>; the input of the terminal is left alone when the argument is the event.\<close>

definition read_callback_stdin ::
  "(string \<Rightarrow> json outcome) \<Rightarrow> nat \<Rightarrow> string list \<Rightarrow> (nat \<Rightarrow> string outcome) \<Rightarrow> string outcome" where
  "read_callback_stdin loads max_bytes argv reader =
     (if argv = [] then reader (max_bytes + 1)
      else (case parse_bounded_json_object loads max_bytes (last argv) of
          Inl e \<Rightarrow> Inl e
        | Inr (Some _) \<Rightarrow> Inr []
        | Inr None \<Rightarrow> reader (max_bytes + 1)))"

subsection \<open>The sanitised callback\<close>

type_synonym hook_fields = "(string \<times> string) list"

definition CALLBACK_EVENTS :: "string list" where
  "CALLBACK_EVENTS = [''SessionStart'', ''PermissionRequest'', ''Stop'']"

text \<open>The first candidate that is a JSON object; the later ones are then not parsed.\<close>

fun first_object :: "(string \<Rightarrow> json outcome) \<Rightarrow> string list \<Rightarrow> json_object option outcome" where
  "first_object loads [] = Inr None"
| "first_object loads (raw # rest) =
     (case parse_bounded_json_object loads MAX_HOOK_BYTES raw of
        Inl e \<Rightarrow> Inl e
      | Inr (Some kvs) \<Rightarrow> Inr (Some kvs)
      | Inr None \<Rightarrow> first_object loads rest)"

definition callback_event :: "json_object \<Rightarrow> string option" where
  "callback_event payload =
     (case List.map_filter (\<lambda>k. as_str (jget payload k)) [''hook_event_name'', ''event_name'', ''hook_name''] of
        [] \<Rightarrow> None | n # ns \<Rightarrow> Some n)"

definition optional_field :: "string \<Rightarrow> json \<Rightarrow> hook_fields" where
  "optional_field key v = (case nonempty_str v of None \<Rightarrow> [] | Some s \<Rightarrow> [(key, take 200 s)])"

definition normalize_payload :: "json_object \<Rightarrow> hook_fields option" where
  "normalize_payload payload =
     (if jget payload ''type'' = JStr ''agent-turn-complete''
      then (case nonempty_str (jget payload ''turn-id'') of
          None \<Rightarrow> None
        | Some turn_id \<Rightarrow> Some ([(''hook_event_name'', ''Stop''), (''event_id'', take 200 turn_id),
            (''callback_type'', ''agent-turn-complete'')] @ optional_field ''thread_id'' (jget payload ''thread-id'')))
      else (case callback_event payload of
          None \<Rightarrow> None
        | Some event_name \<Rightarrow>
            if event_name \<notin> set CALLBACK_EVENTS then None
            else Some ((''hook_event_name'', event_name) # optional_field ''event_id'' (jget payload ''event_id''))))"

definition normalize_callback :: "(string \<Rightarrow> json outcome) \<Rightarrow> string list \<Rightarrow> string \<Rightarrow> hook_fields option outcome" where
  "normalize_callback loads argv stdin =
     (case first_object loads ((if argv = [] then [] else [last argv]) @ (if stdin = [] then [] else [stdin])) of
        Inl e \<Rightarrow> Inl e
      | Inr None \<Rightarrow> Inr None
      | Inr (Some payload) \<Rightarrow> Inr (normalize_payload payload))"

subsection \<open>Delivery, or the spool\<close>

definition fields_json :: "hook_fields \<Rightarrow> json_object" where
  "fields_json safe_fields = map (\<lambda>(k, v). (k, JStr v)) safe_fields"

definition hook_text :: "hook_fields \<Rightarrow> string" where
  "hook_text safe_fields = dumps '', '' '': '' (JObj (fields_json safe_fields))"

text \<open>
  The file system as a spooling program meets it: the result of \<^verbatim>\<open>mkdir\<close>, the random name, and for a
  write of a text the file it leaves behind (a failed one may leave a broken file) and its result.
\<close>

record spool_env =
  se_mkdir :: "unit outcome"
  se_name :: string
  se_write :: "string \<Rightarrow> string \<Rightarrow> spool_file option \<times> unit outcome"

definition spool_path :: "spool_env \<Rightarrow> string" where
  "spool_path v = ''hook-'' @ se_name v @ ''.json''"

definition os_error_false :: "exn \<Rightarrow> bool outcome" where
  "os_error_false e = (if is_os_error e then Inr False else Inl e)"

definition deliver_sanitized_hook ::
  "spool_env \<Rightarrow> (hook_fields \<Rightarrow> unit outcome) \<Rightarrow> hook_fields \<Rightarrow> (spool_file list, bool) sync" where
  "deliver_sanitized_hook v sender safe_fields spool =
     (case sender safe_fields of
        Inr _ \<Rightarrow> (Inr True, spool)
      | Inl e \<Rightarrow>
          if \<not> is_plain_exception e then (Inl e, spool)
          else (case se_mkdir v of
              Inl e' \<Rightarrow> (os_error_false e', spool)
            | Inr _ \<Rightarrow> (case se_write v (spool_path v) (hook_text safe_fields) of
                (file, result) \<Rightarrow>
                  (case result of Inl e' \<Rightarrow> os_error_false e' | Inr _ \<Rightarrow> Inr True,
                   spool @ (case file of None \<Rightarrow> [] | Some f \<Rightarrow> [f])))))"

definition handle_callback ::
  "(string \<Rightarrow> json outcome) \<Rightarrow> spool_env \<Rightarrow> (hook_fields \<Rightarrow> unit outcome) \<Rightarrow> string list \<Rightarrow> string \<Rightarrow>
   (spool_file list, bool) sync" where
  "handle_callback loads v sender argv stdin =
     bnd (from_outcome (normalize_callback loads argv stdin)) (\<lambda>r. case r of
        None \<Rightarrow> return False
      | Some safe_fields \<Rightarrow> deliver_sanitized_hook v sender safe_fields)"

subsection \<open>The user's own notify command\<close>

definition NOTIFY_CHAIN :: string where
  "NOTIFY_CHAIN = ''LARK_BOT_CODEX_NOTIFY_CHAIN''"

definition NOTIFY_CHAIN_ACTIVE :: string where
  "NOTIFY_CHAIN_ACTIVE = ''LARK_BOT_CODEX_NOTIFY_CHAIN_ACTIVE''"

type_synonym environ = "(string \<times> string) list"

record child_process =
  cp_command :: "string list"
  cp_environ :: environ

definition command_parts :: "json \<Rightarrow> string list option" where
  "command_parts v = (case v of
     JArr xs \<Rightarrow> if xs = [] \<or> list_ex (\<lambda>x. nonempty_str x = None) xs then None
       else Some (List.map_filter nonempty_str xs)
   | _ \<Rightarrow> None)"

text \<open>The result, and the child that was started.\<close>

definition forward_existing_notify ::
  "(string \<Rightarrow> json outcome) \<Rightarrow> (child_process \<Rightarrow> unit outcome) \<Rightarrow> environ \<Rightarrow> string list \<Rightarrow> string \<Rightarrow>
   (child_process list, bool) sync" where
  "forward_existing_notify loads popen source argv stdin =
     (let source_get = map_of source in
      if source_get NOTIFY_CHAIN_ACTIVE = Some ''1'' then return False
      else (case source_get NOTIFY_CHAIN of
          None \<Rightarrow> return False
        | Some raw_chain \<Rightarrow>
            if raw_chain = [] then return False
            else bnd (from_outcome (case loads raw_chain of
                Inl e \<Rightarrow> if exn_type e = ''JSONDecodeError'' then Inr None else Inl e
              | Inr v \<Rightarrow> Inr (command_parts v))) (\<lambda>chain. case chain of
                None \<Rightarrow> return False
              | Some parts \<Rightarrow>
                  bnd (from_outcome (first_object loads (if argv = [] then [] else [last argv]))) (\<lambda>from_argv.
                    let raw_payload = (if from_argv = None then stdin else last argv) in
                    if raw_payload = [] then return False
                    else bnd (from_outcome (first_object loads [raw_payload])) (\<lambda>payload.
                      if payload = None then return False
                      else let child = \<lparr>cp_command = parts @ [raw_payload],
                          cp_environ = dict_pop NOTIFY_CHAIN (dict_set NOTIFY_CHAIN_ACTIVE ''1'' source)\<rparr>
                        in (\<lambda>started_children. case popen child of
                          Inr _ \<Rightarrow> (Inr True, started_children @ [child])
                        | Inl e \<Rightarrow> (os_error_false e, started_children)))))))"

subsection \<open>The notify override and its fragment file\<close>

definition OWNED_COMMAND :: "string list" where
  "OWNED_COMMAND = [''lark-bot'', ''codex-hook'']"

definition build_notify_override :: "string list \<Rightarrow> string outcome" where
  "build_notify_override command =
     (if command = [] \<or> [] \<in> set command then value_error ''notify command must contain non-empty strings''
      else Inr (''notify=['' @ py_join '','' (map dumps_str command) @ '']''))"

definition hook_fragment :: "string outcome" where
  "hook_fragment = map_sum id
     (\<lambda>override. ''# Pass this file as a Codex config profile, or use the lark-bot codex launcher.\<newline>'' @ override @ ''\<newline>'')
     (build_notify_override OWNED_COMMAND)"

datatype fragment_file = NoFile | TextFile string | Symlink "string outcome" | BrokenFile exn

datatype hook_check = HookMissing | HookMalformed string | HookInstalled | HookModified

text \<open>
  \<^verbatim>\<open>mkdir\<close> and \<^verbatim>\<open>write_text\<close> may fail; a failed write leaves the file as the parameter says.
\<close>

definition install_hooks :: "unit outcome \<Rightarrow> (fragment_file \<times> unit outcome) option \<Rightarrow> (fragment_file, unit) sync" where
  "install_hooks mkdir write_failure file =
     (case mkdir of Inl e \<Rightarrow> (Inl e, file) | Inr _ \<Rightarrow> (case file of
        Symlink t \<Rightarrow> (value_error ''refusing to replace symlink notify fragment'', file)
      | _ \<Rightarrow> (case hook_fragment of
            Inl e \<Rightarrow> (Inl e, file)
          | Inr text \<Rightarrow> (case write_failure of None \<Rightarrow> (Inr (), TextFile text) | Some (left, r) \<Rightarrow> (r, left)))))"

definition uninstall_hooks :: "unit outcome \<Rightarrow> (fragment_file, unit) sync" where
  "uninstall_hooks unlinked file =
     (if file = NoFile then (Inr (), NoFile)
      else (case unlinked of Inl e \<Rightarrow> (Inl e, file) | Inr _ \<Rightarrow> (Inr (), NoFile)))"

fun fragment_text :: "fragment_file \<Rightarrow> string outcome" where
  "fragment_text NoFile = Inl (Exn ''FileNotFoundError'' [])"
| "fragment_text (TextFile t) = Inr t"
| "fragment_text (Symlink r) = r"
| "fragment_text (BrokenFile e) = Inl e"

definition check_hooks :: "fragment_file \<Rightarrow> hook_check outcome" where
  "check_hooks file =
     (case fragment_text file of
        Inl e \<Rightarrow> if exn_type e = ''FileNotFoundError'' then Inr HookMissing
          else if is_os_error e then Inr (HookMalformed (exn_str e)) else Inl e
      | Inr current \<Rightarrow> (case hook_fragment of
            Inl e \<Rightarrow> Inl e
          | Inr text \<Rightarrow> Inr (if current = text then HookInstalled else HookModified)))"

subsection \<open>What a callback is reduced to\<close>

text \<open>
  At most four fields, each a short non-empty text, the event name among the known ones.
\<close>

definition hook_type_ok :: "hook_fields \<Rightarrow> bool" where
  "hook_type_ok payload \<longleftrightarrow>
     distinct (map fst payload) \<and>
     set (map fst payload) \<subseteq> {''hook_event_name'', ''event_id'', ''callback_type'', ''thread_id''} \<and>
     (\<forall>v \<in> set (map snd payload). v \<noteq> [] \<and> length v \<le> 200) \<and>
     (\<exists>event_name \<in> set CALLBACK_EVENTS. map_of payload ''hook_event_name'' = Some event_name)"

lemma optional_field_cases: "optional_field k v = [] \<or> (\<exists>s. optional_field k v = [(k, s)] \<and> s \<noteq> [] \<and> length s \<le> 200)"
  by (auto simp: optional_field_def nonempty_str_Some split: option.split)

lemma normalize_payload_ok:
  assumes "normalize_payload p = Some payload"
  shows "hook_type_ok payload"
proof (cases "jget p ''type'' = JStr ''agent-turn-complete''")
  case True
  then show ?thesis
    using assms optional_field_cases [of "''thread_id''" "jget p ''thread-id''"]
    by (auto simp: normalize_payload_def hook_type_ok_def CALLBACK_EVENTS_def nonempty_str_Some
        split: option.splits)
next
  case False
  then show ?thesis
    using assms optional_field_cases [of "''event_id''" "jget p ''event_id''"]
    by (auto simp: normalize_payload_def hook_type_ok_def CALLBACK_EVENTS_def split: option.splits if_splits)
qed

lemma normalize_callback_Some:
  assumes "normalize_callback loads argv stdin = Inr (Some payload)"
  obtains p where "normalize_payload p = Some payload"
  using assms by (auto simp: normalize_callback_def split: sum.splits option.splits)

text \<open>
  The prompt and the answers of the assistant are never read: a payload says as much as its part under
  the seven keys.
\<close>

definition READ_KEYS :: "string list" where
  "READ_KEYS = [''type'', ''turn-id'', ''thread-id'', ''hook_event_name'', ''event_name'', ''hook_name'', ''event_id'']"

lemma map_of_filter_key: "map_of (filter (\<lambda>kv. fst kv \<in> A) d) k = (if k \<in> A then map_of d k else None)"
  by (induction d) auto

lemma prompts_never_read: "normalize_payload (filter (\<lambda>kv. fst kv \<in> set READ_KEYS) p) = normalize_payload p"
proof -
  let ?q = "filter (\<lambda>kv. fst kv \<in> set READ_KEYS) p"
  have same: "jget ?q k = jget p k" if "k \<in> set READ_KEYS" for k
    using that by (simp add: jget_def map_of_filter_key)
  have "jget ?q ''type'' = jget p ''type''" "jget ?q ''turn-id'' = jget p ''turn-id''"
    "jget ?q ''thread-id'' = jget p ''thread-id''" "jget ?q ''hook_event_name'' = jget p ''hook_event_name''"
    "jget ?q ''event_name'' = jget p ''event_name''" "jget ?q ''hook_name'' = jget p ''hook_name''"
    "jget ?q ''event_id'' = jget p ''event_id''"
    by (rule same, simp add: READ_KEYS_def)+
  note keys = this
  show ?thesis
    unfolding normalize_payload_def callback_event_def List.map_filter_simps keys ..
qed

subsection \<open>Its text is short\<close>

lemma utf8_simps [simp]: "utf8 [] = []" "utf8 (c # s) = utf8_char c @ utf8 s" "utf8 (s @ t) = utf8 s @ utf8 t"
  by (simp_all add: utf8_def)

lemma length_utf8_char: "length (utf8_char c) \<le> 2"
  by (simp add: utf8_char_def)

lemma length_utf8: "length (utf8 s) \<le> 2 * length s"
proof (induction s)
  case (Cons c s)
  then show ?case using length_utf8_char [of c] by simp
qed simp

lemma length_escape_char: "length (escape_char c) \<le> 6"
  by (simp add: escape_char_def)

lemma length_dumps_str: "length (dumps_str s) \<le> 6 * length s + 2"
proof -
  have "length (concat (map escape_char s)) \<le> 6 * length s"
  proof (induction s)
    case (Cons c s)
    then show ?case using length_escape_char [of c] by simp
  qed simp
  then show ?thesis by (simp add: dumps_str_def)
qed

lemma length_py_join: "(\<And>x. x \<in> set xs \<Longrightarrow> length x \<le> n) \<Longrightarrow> length (py_join sep xs) \<le> length xs * (n + length sep)"
proof (induction sep xs rule: py_join.induct)
  case (3 sep x y xs)
  then have "length (py_join sep (y # xs)) \<le> length (y # xs) * (n + length sep)" "length x \<le> n"
    by auto
  then show ?case by simp
qed auto

lemma length_hook_text:
  assumes "hook_type_ok payload"
  shows "length (hook_text payload) \<le> 6000"
proof -
  have "length payload = card (set (map fst payload))"
    using assms by (metis hook_type_ok_def distinct_card length_map)
  also have "\<dots> \<le> card {''hook_event_name'', ''event_id'', ''callback_type'', ''thread_id''}"
    using assms by (intro card_mono) (auto simp: hook_type_ok_def)
  finally have four: "length payload \<le> 4"
    by simp
  have part: "length (dumps_str k @ '': '' @ dumps_str v) \<le> 1298" if "(k, v) \<in> set payload" for k v
  proof -
    have "k \<in> {''hook_event_name'', ''event_id'', ''callback_type'', ''thread_id''}" "length v \<le> 200"
      using assms that by (fastforce simp: hook_type_ok_def)+
    then have "length k \<le> 15" "length v \<le> 200"
      by auto
    then show ?thesis
      using length_dumps_str [of k] length_dumps_str [of v] by simp
  qed
  have "length (py_join '', '' (map (\<lambda>(k, v). dumps_str k @ '': '' @ dumps '', '' '': '' v) (fields_json payload)))
      \<le> length payload * 1300"
    using part length_py_join [of "map (\<lambda>(k, v). dumps_str k @ '': '' @ dumps '', '' '': '' v) (fields_json payload)" 1298 "'', ''"]
    by (force simp: fields_json_def)
  also have "\<dots> \<le> 4 * 1300"
    using four by (rule mult_le_mono1)
  finally show ?thesis
    by (simp add: hook_text_def)
qed

corollary hook_text_bounded: "hook_type_ok payload \<Longrightarrow> length (utf8 (hook_text payload)) \<le> MAX_HOOK_BYTES"
  using length_hook_text [of payload] length_utf8 [of "hook_text payload"] by (simp add: MAX_HOOK_BYTES_def)

subsection \<open>The daemon takes it\<close>

lemma map_of_fields_json: "map_of (fields_json payload) k = map_option JStr (map_of payload k)"
  by (induction payload) (auto simp: fields_json_def)

lemma jget_fields_json: "map_of payload k = Some v \<Longrightarrow> jget (fields_json payload) k = JStr v"
  by (simp add: jget_def map_of_fields_json)

lemma known_event:
  assumes "hook_type_ok payload"
  obtains event_name where "map_of payload ''hook_event_name'' = Some event_name" "event_name \<in> set HOOK_EVENTS"
    "hook_name (fields_json payload) = Some event_name"
proof -
  obtain event_name where e: "map_of payload ''hook_event_name'' = Some event_name" "event_name \<in> set CALLBACK_EVENTS"
    using assms by (auto simp: hook_type_ok_def)
  then have "hook_name (fields_json payload) = Some event_name"
    by (simp add: hook_name_def jget_fields_json)
  moreover have "event_name \<in> set HOOK_EVENTS"
    using e(2) by (simp add: CALLBACK_EVENTS_def HOOK_EVENTS_def)
  ultimately show thesis
    using e(1) that by blast
qed

text \<open>What the spool holds after a write that went through.\<close>

definition whole_file :: "string \<Rightarrow> spool_file \<Rightarrow> bool" where
  "whole_file t f \<longleftrightarrow> sf_text f = Inr t \<and> \<not> sf_symlink f \<and> sf_size f = length (utf8 t)"

text \<open>The two ways in, for an event name and its fields.\<close>

definition taken_from_spool :: "daemon_config \<Rightarrow> spool_file \<Rightarrow> string \<Rightarrow> json_object \<Rightarrow> bool" where
  "taken_from_spool d f event_name kvs \<longleftrightarrow> drain_file d f = bnd (accept_hook d event_name kvs) (\<lambda>_. unlink f)"

definition taken_by_request :: "daemon_config \<Rightarrow> string \<Rightarrow> string list \<Rightarrow> string \<Rightarrow> json_object \<Rightarrow> bool" where
  "taken_by_request d header chunks event_name kvs \<longleftrightarrow>
     ingest_hook d (Some header) (Some (show_nat (length (concat chunks)))) chunks =
       run_then (accept_hook d event_name kvs) (\<lambda>fresh. respond (Ok 202 (BodyAccepted (\<not> fresh))))"

lemma spool_takes:
  assumes "hook_type_ok payload" and "whole_file (hook_text payload) f"
    and "dm_loads d (hook_text payload) = Inr (JObj (fields_json payload))"
    and "map_of payload ''hook_event_name'' = Some event_name"
  shows "taken_from_spool d f event_name (fields_json payload)"
proof -
  obtain n where "map_of payload ''hook_event_name'' = Some n" "n \<in> set HOOK_EVENTS"
    using known_event [OF assms(1)] by blast
  moreover have "sf_size f \<le> MAX_HOOK_BYTES"
    using hook_text_bounded assms(1,2) by (simp add: whole_file_def)
  ultimately show ?thesis
    using assms(2-4)
    by (simp add: taken_from_spool_def whole_file_def drain_file_def from_outcome_def bnd_def jget_fields_json)
qed

lemma read_chunks_all: "length (b @ concat chunks) \<le> n \<Longrightarrow> read_chunks n b chunks = Some (b @ concat chunks)"
  by (induction n b chunks rule: read_chunks.induct) auto

lemma digits_of_power: "0 < k \<Longrightarrow> n < 10 ^ k \<Longrightarrow> length (show_nat n) \<le> k"
proof (induction n arbitrary: k rule: show_nat.induct)
  case (1 n)
  show ?case
  proof (cases "n < 10")
    case True
    then show ?thesis using 1 by (simp add: show_nat.simps [of n])
  next
    case False
    then obtain m where k: "k = Suc m"
      using 1 by (cases k) auto
    have "0 < m"
      using False 1(3) k by (cases m) auto
    moreover have "n div 10 < 10 ^ m"
      using 1(3) k by (simp add: less_mult_imp_div_less mult.commute)
    ultimately show ?thesis
      using False 1(1) k by (simp add: show_nat.simps [of n])
  qed
qed

lemma read_bounded_body_declared:
  assumes "length (concat chunks) \<le> MAX_HOOK_BYTES"
  shows "read_bounded_body MAX_HOOK_BYTES (Some (show_nat (length (concat chunks)))) chunks = Inr (Inr (concat chunks))"
proof -
  let ?n = "length (concat chunks)"
  have "?n < 10 ^ 5"
    using assms by (simp add: MAX_HOOK_BYTES_def)
  then have "length (show_nat ?n) \<le> 4300"
    using digits_of_power [of 5 ?n] by simp
  moreover have "list_all is_ascii_digit (show_nat ?n)" "py_isdigit (show_nat ?n)"
    using show_nat_digits by (auto simp: list_all_iff py_isdigit_def is_digit_char_def)
  ultimately show ?thesis
    using assms read_chunks_all [of "[]" chunks MAX_HOOK_BYTES]
    by (simp add: read_bounded_body_def py_int_of_digits_def)
qed

lemma run_then_returned: "run_then (from_outcome (Inr x)) k = k x"
  by (rule ext) (simp add: run_then_def from_outcome_def)

lemma request_takes:
  assumes "hook_type_ok payload" and "authenticate (dm_token d) (Some header) = None"
    and "dm_loads d (concat chunks) = Inr (JObj (fields_json payload))" and "length (concat chunks) \<le> MAX_HOOK_BYTES"
    and "map_of payload ''hook_event_name'' = Some event_name"
  shows "taken_by_request d header chunks event_name (fields_json payload)"
proof -
  obtain n where "n \<in> set HOOK_EVENTS" "hook_name (fields_json payload) = Some n" "n = event_name"
    using known_event [OF assms(1)] assms(5) by force
  then show ?thesis
    using assms(2,3) read_bounded_body_declared [OF assms(4)]
    by (simp add: taken_by_request_def ingest_hook_def with_auth_def run_then_returned)
qed

text \<open>
  C31. A callback of Codex is reduced to at most four fields, each a short non-empty text, with a known event name,
  and both ways the daemon takes it under that name: the request that posts it passes every check of the
  endpoint, and where the request fails the call still returns \<open>True\<close> and the spooled file passes every
  check of the next start and is removed. The parser reads back what was printed, and the write went through.
\<close>

theorem callback_reaches_daemon:
  assumes "normalize_callback loads argv stdin = Inr (Some payload)"
    and "authenticate (dm_token d) (Some header) = None"
    and "dm_loads d (hook_text payload) = Inr (JObj (fields_json payload))"
    and "dm_loads d (concat chunks) = Inr (JObj (fields_json payload))"
    and "length (concat chunks) \<le> MAX_HOOK_BYTES"
    and "se_mkdir v = Inr ()" and "se_write v (spool_path v) (hook_text payload) = (Some f, Inr ())"
    and "whole_file (hook_text payload) f"
  shows "hook_type_ok payload \<and>
    (\<exists>event_name. map_of payload ''hook_event_name'' = Some event_name \<and>
       taken_by_request d header chunks event_name (fields_json payload) \<and>
       taken_from_spool d f event_name (fields_json payload)) \<and>
    handle_callback loads v sender argv stdin spool =
      (case sender payload of
         Inr _ \<Rightarrow> (Inr True, spool)
       | Inl e \<Rightarrow> if is_plain_exception e then (Inr True, spool @ [f]) else (Inl e, spool))"
proof -
  obtain p where "normalize_payload p = Some payload"
    using normalize_callback_Some assms(1) by blast
  then have ok: "hook_type_ok payload"
    by (rule normalize_payload_ok)
  then obtain event_name where name: "map_of payload ''hook_event_name'' = Some event_name"
    using known_event by blast
  have "handle_callback loads v sender argv stdin spool =
      (case sender payload of
         Inr _ \<Rightarrow> (Inr True, spool)
       | Inl e \<Rightarrow> if is_plain_exception e then (Inr True, spool @ [f]) else (Inl e, spool))"
    using assms(1,6,7)
    by (simp add: handle_callback_def bnd_def from_outcome_def deliver_sanitized_hook_def split: sum.split)
  with ok name show ?thesis
    using request_takes [OF ok assms(2,4,5) name] spool_takes [OF ok assms(8,3) name] by blast
qed

definition ex_notify :: "string \<Rightarrow> json outcome" where
  "ex_notify = (\<lambda>_. Inr (JObj [(''type'', JStr ''agent-turn-complete''), (''turn-id'', JStr ''u1''),
     (''last-assistant-message'', JStr ''All files were removed'')]))"

definition ex_fields :: hook_fields where
  "ex_fields = [(''hook_event_name'', ''Stop''), (''event_id'', ''u1''), (''callback_type'', ''agent-turn-complete'')]"

definition ex_spooled :: spool_file where
  "ex_spooled = \<lparr>sf_name = ''hook-1.json'', sf_symlink = False, sf_size = length (utf8 (hook_text ex_fields)),
     sf_text = Inr (hook_text ex_fields), sf_unlink = Inr ()\<rparr>"

theorem callback_reaches_daemon_ex:
  "handle_callback ex_notify \<lparr>se_mkdir = Inr (), se_name = ''1'', se_write = (\<lambda>_ _. (Some ex_spooled, Inr ()))\<rparr>
     (\<lambda>_. Inl (Exn ''ConnectError'' [])) [''codex-hook'', ''{}''] [] [] = (Inr True, [ex_spooled]) \<and>
   taken_from_spool (ex_daemon\<lparr>dm_loads := (\<lambda>_. Inr (JObj (fields_json ex_fields)))\<rparr>) ex_spooled ''Stop'' (fields_json ex_fields)"
proof -
  let ?v = "\<lparr>se_mkdir = Inr (), se_name = ''1'', se_write = (\<lambda>_ _. (Some ex_spooled, Inr ()))\<rparr>"
  let ?d = "ex_daemon\<lparr>dm_loads := (\<lambda>_. Inr (JObj (fields_json ex_fields)))\<rparr>"
  have "normalize_callback ex_notify [''codex-hook'', ''{}''] [] = Inr (Some ex_fields)"
    by (simp add: normalize_callback_def parse_bounded_json_object_def MAX_HOOK_BYTES_def utf8_char_def ex_notify_def
        normalize_payload_def jget_def optional_field_def ex_fields_def)
  moreover have "authenticate (dm_token ?d) (Some ''Bearer secret'') = None"
    by code_simp
  moreover have "whole_file (hook_text ex_fields) ex_spooled"
    by (simp add: whole_file_def ex_spooled_def)
  ultimately show ?thesis
    using callback_reaches_daemon [of ex_notify "[''codex-hook'', ''{}'']" "[]" ex_fields ?d "''Bearer secret''" "[]" ?v
        ex_spooled "\<lambda>_. Inl (Exn ''ConnectError'' [])" "[]"]
    by (simp add: is_plain_exception_def ex_fields_def)
qed

subsection \<open>The user's own notify command is called once\<close>

text \<open>
  With a chain in the environment and an event as the argument, the user's command is started on the same
  event; in the environment it gets, no further chain is started, whatever the parser and the event.
\<close>

lemma nonempty_strs: "list_all (\<lambda>p. p \<noteq> []) parts \<Longrightarrow>
    \<not> list_ex (\<lambda>x. nonempty_str x = None) (map JStr parts) \<and> List.map_filter nonempty_str (map JStr parts) = parts"
  by (induction parts) auto

lemma existing_notify_continues:
  assumes "map_of source NOTIFY_CHAIN_ACTIVE = None" and "map_of source NOTIFY_CHAIN = Some raw_chain" "raw_chain \<noteq> []"
    and "loads raw_chain = Inr (JArr (map JStr parts))" and "parts \<noteq> []" "list_all (\<lambda>p. p \<noteq> []) parts"
    and "argv \<noteq> []" "last argv \<noteq> []" and "parse_bounded_json_object loads MAX_HOOK_BYTES (last argv) = Inr (Some event)"
    and "\<And>child. popen child = Inr ()"
  shows "\<exists>child. forward_existing_notify loads popen source argv stdin [] = (Inr True, [child]) \<and>
    cp_command child = parts @ [last argv] \<and>
    forward_existing_notify loads' popen' (cp_environ child) argv' stdin' [] = (Inr False, [])"
proof -
  let ?child = "\<lparr>cp_command = parts @ [last argv],
    cp_environ = dict_pop NOTIFY_CHAIN (dict_set NOTIFY_CHAIN_ACTIVE ''1'' source)\<rparr>"
  have "command_parts (JArr (map JStr parts)) = Some parts"
    using nonempty_strs [OF assms(6)] assms(5) by (simp add: command_parts_def)
  then have "forward_existing_notify loads popen source argv stdin [] = (Inr True, [?child])"
    using assms by (simp add: forward_existing_notify_def bnd_def from_outcome_def)
  moreover have "NOTIFY_CHAIN \<noteq> NOTIFY_CHAIN_ACTIVE"
    by (simp add: NOTIFY_CHAIN_def NOTIFY_CHAIN_ACTIVE_def)
  then have "map_of (cp_environ ?child) NOTIFY_CHAIN_ACTIVE = Some ''1''"
    by simp
  then have "forward_existing_notify loads' popen' (cp_environ ?child) argv' stdin' [] = (Inr False, [])"
    by (simp add: forward_existing_notify_def return_def)
  ultimately show ?thesis
    by (intro exI [of _ ?child]) simp
qed

subsection \<open>The fragment file\<close>

lemma hook_fragment_exists: "\<exists>t. hook_fragment = Inr t"
  by (simp add: hook_fragment_def build_notify_override_def OWNED_COMMAND_def)

text \<open>What was installed is found installed, what was uninstalled missing, and a link is never written through.\<close>

lemma install_then_check:
  assumes "\<forall>t. frag \<noteq> Symlink t" and "install_hooks (Inr ()) None frag = (Inr (), frag')"
  shows "check_hooks frag' = Inr HookInstalled"
proof -
  obtain t where t: "hook_fragment = Inr t"
    using hook_fragment_exists by blast
  then have "frag' = TextFile t"
    using assms unfolding install_hooks_def t by (cases frag) simp_all
  then show ?thesis
    unfolding check_hooks_def t by simp
qed

lemma uninstall_then_check: "uninstall_hooks (Inr ()) file = (Inr (), file') \<Longrightarrow> check_hooks file' = Inr HookMissing"
  by (auto simp: uninstall_hooks_def check_hooks_def split: if_splits)

lemma install_keeps_symlink: "snd (install_hooks mkdir write_failure (Symlink t)) = Symlink t"
  by (simp add: install_hooks_def split: sum.split)

subsection \<open>Claude Code\<close>

definition build_claude_notification_from_json ::
  "(string \<Rightarrow> json option) \<Rightarrow> (json_object \<Rightarrow> claude_event outcome) \<Rightarrow> string \<Rightarrow> notification_request outcome" where
  "build_claude_notification_from_json loads validate payload =
     (case parse_event_payload loads validate ''Claude'' payload of
        Inl e \<Rightarrow> Inl e
      | Inr event \<Rightarrow> claude_event_to_notification event)"

definition read_hook_notification ::
  "(string \<Rightarrow> json option) \<Rightarrow> (json_object \<Rightarrow> claude_event outcome) \<Rightarrow> string \<Rightarrow> notification_request outcome" where
  "read_hook_notification loads validate payload =
     (if MAX_HOOK_BYTES < length (utf8 payload) then value_error ''Claude hook payload is too large''
      else build_claude_notification_from_json loads validate payload)"

text \<open>The sender's exception is passed on.\<close>

definition handle_hook ::
  "(string \<Rightarrow> json option) \<Rightarrow> (json_object \<Rightarrow> claude_event outcome) \<Rightarrow> string \<Rightarrow> (notification_request \<Rightarrow> ('s, unit) sync) \<Rightarrow>
   ('s, notification_request) sync" where
  "handle_hook loads validate payload sender =
     bnd (from_outcome (read_hook_notification loads validate payload)) (\<lambda>request.
     bnd (sender request) (\<lambda>_. return request))"

end
