(* ===== verification/Agent_Sessions.thy ===== *)
theory Agent_Sessions
  imports Orchestrator
begin

text \<open>
  \<^verbatim>\<open>modules/agent/agent_service.py\<close>: the service that runs the operations of one session one after another,
  and the registry of the agents; with the facades \<^verbatim>\<open>modules/codex/codex_service.py\<close> and
  \<^verbatim>\<open>modules/claude/claude_service.py\<close>. The guard lock of the service is never held across an \<^verbatim>\<open>await\<close>, so
  each guarded block is one step of the event loop; what suspends a call is the session's lock and the
  operation. \<^verbatim>\<open>asyncio.Lock\<close> is modelled as the standard library has it: first come, first served, and the
  first waiter is resumed in a later step, before which nobody else gets the lock.
\<close>

subsection \<open>The service\<close>

text \<open>
  Session locks are objects: \<open>ss_heap\<close> holds every lock object ever made, \<open>ss_locks\<close> is the dictionary
  \<^verbatim>\<open>_locks\<close>, and a call keeps a reference to its own entry, whatever the dictionary holds by then.
\<close>

record session_lock =
  sl_users :: nat
  sl_locked :: bool
  sl_waiters :: "nat list"

record service_call =
  sc_task :: nat
  sc_session :: string
  sc_entry :: nat
  sc_running :: bool

record session_service =
  ss_heap :: "session_lock list"
  ss_locks :: "(string \<times> nat) list"
  ss_calls :: "service_call list"

definition new_service :: session_service where
  "new_service = \<lparr>ss_heap = [], ss_locks = [], ss_calls = []\<rparr>"

definition on_entry :: "nat \<Rightarrow> (session_lock \<Rightarrow> session_lock) \<Rightarrow> session_service \<Rightarrow> session_service" where
  "on_entry n f s = s\<lparr>ss_heap := (ss_heap s)[n := f (ss_heap s ! n)]\<rparr>"

text \<open>The first guarded block: the entry of the session, made when there is none, has one more user.\<close>

definition obtain_entry :: "string \<Rightarrow> session_service \<Rightarrow> nat \<times> session_service" where
  "obtain_entry session_id s =
     (case map_of (ss_locks s) session_id of
        Some n \<Rightarrow> (n, s)
      | None \<Rightarrow> (length (ss_heap s),
          s\<lparr>ss_heap := ss_heap s @ [\<lparr>sl_users = 0, sl_locked = False, sl_waiters = []\<rparr>],
            ss_locks := dict_set session_id (length (ss_heap s)) (ss_locks s)\<rparr>))"

definition add_user :: "session_lock \<Rightarrow> session_lock" where
  "add_user l = l\<lparr>sl_users := Suc (sl_users l)\<rparr>"

text \<open>\<^verbatim>\<open>Lock.acquire\<close>: at once, or as the last waiter.\<close>

definition acquirable :: "session_lock \<Rightarrow> bool" where
  "acquirable l \<longleftrightarrow> \<not> sl_locked l \<and> sl_waiters l = []"

definition acquire :: "nat \<Rightarrow> session_lock \<Rightarrow> session_lock" where
  "acquire task l = (if acquirable l then l\<lparr>sl_locked := True\<rparr> else l\<lparr>sl_waiters := sl_waiters l @ [task]\<rparr>)"

definition resume :: "nat \<Rightarrow> session_lock \<Rightarrow> session_lock" where
  "resume task l = l\<lparr>sl_locked := True, sl_waiters := remove1 task (sl_waiters l)\<rparr>"

definition release :: "session_lock \<Rightarrow> session_lock" where
  "release l = l\<lparr>sl_locked := False\<rparr>"

definition withdraw :: "nat \<Rightarrow> session_lock \<Rightarrow> session_lock" where
  "withdraw task l = l\<lparr>sl_waiters := remove1 task (sl_waiters l)\<rparr>"

text \<open>A call up to its first suspension: waiting for the lock, or inside the operation.\<close>

definition run_serialized :: "nat \<Rightarrow> string \<Rightarrow> session_service \<Rightarrow> unit outcome \<times> session_service" where
  "run_serialized task session_id s =
     (if session_id = [] then (value_error ''session_id must not be empty'', s)
      else (case obtain_entry session_id s of (n, s1) \<Rightarrow>
        let s2 = on_entry n add_user s1;
            got = acquirable (ss_heap s2 ! n);
            s3 = on_entry n (acquire task) s2
        in (Inr (), s3\<lparr>ss_calls := ss_calls s3 @
             [\<lparr>sc_task = task, sc_session = session_id, sc_entry = n, sc_running = got\<rparr>]\<rparr>)))"

text \<open>The waiter whose turn it is goes on.\<close>

definition enter_operation :: "service_call \<Rightarrow> session_service \<Rightarrow> session_service" where
  "enter_operation c s = (on_entry (sc_entry c) (resume (sc_task c)) s)
     \<lparr>ss_calls := update_where (\<lambda>x. sc_task x = sc_task c) (\<lambda>x. x\<lparr>sc_running := True\<rparr>) (ss_calls s)\<rparr>"

text \<open>The second guarded block, in the \<^verbatim>\<open>finally\<close> clause; the call then returns or raises.\<close>

definition leave :: "service_call \<Rightarrow> session_service \<Rightarrow> session_service" where
  "leave c s =
     (let s1 = on_entry (sc_entry c) (\<lambda>l. l\<lparr>sl_users := sl_users l - 1\<rparr>) s;
          l = ss_heap s1 ! sc_entry c
      in s1\<lparr>ss_calls := filter (\<lambda>x. sc_task x \<noteq> sc_task c) (ss_calls s1),
           ss_locks := (if sl_users l = 0 \<and> \<not> sl_locked l then dict_pop (sc_session c) (ss_locks s1) else ss_locks s1)\<rparr>)"

definition end_operation :: "service_call \<Rightarrow> session_service \<Rightarrow> session_service" where
  "end_operation c s = leave c (on_entry (sc_entry c) release s)"

definition cancel_waiting :: "service_call \<Rightarrow> session_service \<Rightarrow> session_service" where
  "cancel_waiting c s = leave c (on_entry (sc_entry c) (withdraw (sc_task c)) s)"

text \<open>
  The event loop: a new call; the resumption of the first waiter of a free lock; the end of a running
  operation, by a result, an exception or a cancellation; the cancellation of a waiting call.
\<close>

definition turn_of_call :: "service_call \<Rightarrow> session_service \<Rightarrow> bool" where
  "turn_of_call c s \<longleftrightarrow> \<not> sl_locked (ss_heap s ! sc_entry c) \<and>
     (case sl_waiters (ss_heap s ! sc_entry c) of [] \<Rightarrow> False | t # ts \<Rightarrow> t = sc_task c)"

inductive service_step :: "session_service \<Rightarrow> session_service \<Rightarrow> bool" where
  call: "task \<notin> sc_task ` set (ss_calls s) \<Longrightarrow> service_step s (snd (run_serialized task session_id s))"
| enter: "c \<in> set (ss_calls s) \<Longrightarrow> \<not> sc_running c \<Longrightarrow> turn_of_call c s \<Longrightarrow> service_step s (enter_operation c s)"
| ended: "c \<in> set (ss_calls s) \<Longrightarrow> sc_running c \<Longrightarrow> service_step s (end_operation c s)"
| cancelled: "c \<in> set (ss_calls s) \<Longrightarrow> \<not> sc_running c \<Longrightarrow> service_step s (cancel_waiting c s)"

inductive service_reachable :: "session_service \<Rightarrow> bool" where
  init: "service_reachable new_service"
| step: "service_reachable s \<Longrightarrow> service_step s s' \<Longrightarrow> service_reachable s'"

subsection \<open>The registry and the facades\<close>

text \<open>Adapters are opaque; the registry keeps the first one of each kind.\<close>

type_synonym 'a registry = "(agent_kind \<times> 'a) list"

definition registry_register :: "agent_kind \<Rightarrow> 'a \<Rightarrow> ('a registry, unit) sync" where
  "registry_register agent adapter r =
     (if map_of r agent \<noteq> None then (value_error (''agent adapter already registered: '' @ agent_value agent), r)
      else (Inr (), dict_set agent adapter r))"

definition registry_get :: "agent_kind + string \<Rightarrow> 'a registry \<Rightarrow> 'a outcome" where
  "registry_get agent r =
     (case (case agent of Inl kind \<Rightarrow> Some kind | Inr text \<Rightarrow> agent_of text) of
        None \<Rightarrow> value_error ''not a valid AgentKind''
      | Some kind \<Rightarrow> (case map_of r kind of
            None \<Rightarrow> Inl (Exn ''KeyError'' (''agent adapter is not registered: '' @ agent_value kind))
          | Some adapter \<Rightarrow> Inr adapter))"

definition registry_registered :: "'a registry \<Rightarrow> agent_kind list" where
  "registry_registered r = map fst r"

datatype agent_session_status = A_WAITING | A_STATUS session_status

fun agent_status_value :: "agent_session_status \<Rightarrow> string" where
  "agent_status_value A_WAITING = ''waiting''"
| "agent_status_value (A_STATUS s) = session_status_value s"

definition agent_status_of :: "string \<Rightarrow> agent_session_status option" where
  "agent_status_of t = find (\<lambda>v. agent_status_value v = t) (A_WAITING # map A_STATUS all_statuses)"

record agent_session =
  as_session_id :: string
  as_agent :: agent_kind
  as_name :: string
  as_conversation_id :: "string option"
  as_status :: agent_session_status
  as_summary :: string
  as_created_at :: instant
  as_updated_at :: instant

text \<open>The session as the facade returns it; pydantic refuses an empty identifier or name.\<close>

definition codex_agent_session :: "codex_session \<Rightarrow> agent_session outcome" where
  "codex_agent_session v =
     (case agent_status_of (session_status_value (s_status v)) of
        None \<Rightarrow> value_error ''not a valid SessionStatus''
      | Some st \<Rightarrow>
          if s_id v = [] \<or> s_name v = [] then Inl (Exn ''ValidationError'' [])
          else Inr \<lparr>as_session_id = s_id v, as_agent = CODEX, as_name = s_name v, as_conversation_id = s_thread_id v,
            as_status = st, as_summary = s_summary v, as_created_at = s_created_at v, as_updated_at = s_updated_at v\<rparr>)"

definition claude_create_session :: "agent_session outcome" where
  "claude_create_session = runtime_error ''Claude managed sessions are not supported''"

subsection \<open>One lock and the calls that hold a reference to it\<close>

definition lock_ok :: "session_lock \<Rightarrow> service_call list \<Rightarrow> bool" where
  "lock_ok l cs \<longleftrightarrow> sl_users l = length cs \<and>
     length (filter sc_running cs) = (if sl_locked l then 1 else 0) \<and>
     distinct (sl_waiters l) \<and> set (sl_waiters l) = sc_task ` set (filter (\<lambda>c. \<not> sc_running c) cs)"

lemma distinct_key_split:
  assumes "distinct (map f (xs @ c # ys))"
  shows "\<forall>d \<in> set xs \<union> set ys. f d \<noteq> f c"
proof -
  have "f c \<notin> f ` set xs" "f c \<notin> f ` set ys"
    using assms by auto
  then show ?thesis
    by (metis UnE imageI)
qed

lemma lock_ok_fresh: "lock_ok \<lparr>sl_users = 0, sl_locked = False, sl_waiters = []\<rparr> []"
  by (simp add: lock_ok_def)

lemma lock_ok_unused: "lock_ok l cs \<Longrightarrow> sl_users l = 0 \<Longrightarrow> \<not> sl_locked l"
  by (cases cs) (auto simp: lock_ok_def)

lemma lock_ok_acquire:
  assumes "lock_ok l cs" and "task \<notin> sc_task ` set cs" and "sc_task c = task"
    and "sc_running c = acquirable (add_user l)"
  shows "lock_ok (acquire task (add_user l)) (cs @ [c])"
  using assms by (auto simp: lock_ok_def acquire_def add_user_def acquirable_def)

lemma lock_ok_resume:
  assumes "lock_ok l (xs @ c # ys)" and "distinct (map sc_task (xs @ c # ys))" and "\<not> sc_running c" "\<not> sl_locked l"
  shows "lock_ok (resume (sc_task c) l) (xs @ c\<lparr>sc_running := True\<rparr> # ys)"
proof -
  have "\<forall>d \<in> set (xs @ ys). sc_task d \<noteq> sc_task c"
    using distinct_key_split [OF assms(2)] by simp
  then show ?thesis
    using assms by (auto simp: lock_ok_def resume_def)
qed

lemma lock_ok_leave:
  assumes "lock_ok l (xs @ c # ys)" and "distinct (map sc_task (xs @ c # ys))"
  shows "sc_running c \<Longrightarrow> lock_ok ((release l)\<lparr>sl_users := sl_users l - 1\<rparr>) (xs @ ys)"
    and "\<not> sc_running c \<Longrightarrow> lock_ok ((withdraw (sc_task c) l)\<lparr>sl_users := sl_users l - 1\<rparr>) (xs @ ys)"
proof -
  have "\<forall>d \<in> set (xs @ ys). sc_task d \<noteq> sc_task c"
    using distinct_key_split [OF assms(2)] by simp
  then show "sc_running c \<Longrightarrow> lock_ok ((release l)\<lparr>sl_users := sl_users l - 1\<rparr>) (xs @ ys)"
    and "\<not> sc_running c \<Longrightarrow> lock_ok ((withdraw (sc_task c) l)\<lparr>sl_users := sl_users l - 1\<rparr>) (xs @ ys)"
    using assms(1) by (auto simp: lock_ok_def release_def withdraw_def split: if_splits)
qed

subsection \<open>The invariant of the service\<close>

text \<open>
  Every call's entry is the one the dictionary holds for its session, no entry serves two sessions, and an
  entry is in the dictionary only while a call uses it.
\<close>

definition calls_on :: "nat \<Rightarrow> session_service \<Rightarrow> service_call list" where
  "calls_on n s = filter (\<lambda>c. sc_entry c = n) (ss_calls s)"

definition service_ok :: "session_service \<Rightarrow> bool" where
  "service_ok s \<longleftrightarrow>
     distinct (map sc_task (ss_calls s)) \<and> distinct (map fst (ss_locks s)) \<and>
     (\<forall>c \<in> set (ss_calls s). map_of (ss_locks s) (sc_session c) = Some (sc_entry c)) \<and>
     (\<forall>sid n. map_of (ss_locks s) sid = Some n \<longrightarrow> n < length (ss_heap s) \<and> (\<exists>c \<in> set (ss_calls s). sc_session c = sid)) \<and>
     (\<forall>a b n. map_of (ss_locks s) a = Some n \<longrightarrow> map_of (ss_locks s) b = Some n \<longrightarrow> a = b) \<and>
     (\<forall>n < length (ss_heap s). lock_ok (ss_heap s ! n) (calls_on n s))"

lemma service_ok_lock: "service_ok s \<Longrightarrow> n < length (ss_heap s) \<Longrightarrow> lock_ok (ss_heap s ! n) (calls_on n s)"
  by (simp add: service_ok_def)

lemma service_ok_call:
  assumes "service_ok s" and "c \<in> set (ss_calls s)"
  shows "map_of (ss_locks s) (sc_session c) = Some (sc_entry c)" and "sc_entry c < length (ss_heap s)"
  using assms unfolding service_ok_def by blast+

lemma service_ok_split:
  assumes "service_ok s" and "c \<in> set (ss_calls s)"
  obtains xs ys where "ss_calls s = xs @ c # ys" "\<forall>d \<in> set xs \<union> set ys. sc_task d \<noteq> sc_task c"
proof -
  obtain xs ys where s: "ss_calls s = xs @ c # ys"
    using assms(2) by (meson split_list)
  moreover have "distinct (map sc_task (xs @ c # ys))"
    using assms(1) s by (simp add: service_ok_def)
  then have "\<forall>d \<in> set xs \<union> set ys. sc_task d \<noteq> sc_task c"
    by (rule distinct_key_split)
  ultimately show thesis
    using that by blast
qed

lemma service_ok_inj:
  "service_ok s \<Longrightarrow> map_of (ss_locks s) a = Some n \<Longrightarrow> map_of (ss_locks s) b = Some n \<Longrightarrow> a = b"
  unfolding service_ok_def by blast

lemma same_entry_same_session:
  assumes "service_ok s" "c \<in> set (ss_calls s)" "d \<in> set (ss_calls s)"
  shows "sc_entry c = sc_entry d \<longleftrightarrow> sc_session c = sc_session d"
  using service_ok_call(1) [OF assms(1,2)] service_ok_call(1) [OF assms(1,3)] service_ok_inj [OF assms(1)] by auto

lemma service_ok_init: "service_ok new_service"
  by (simp add: service_ok_def new_service_def)

lemma service_ok_enter:
  assumes ok: "service_ok s" and c: "c \<in> set (ss_calls s)" and "\<not> sc_running c" and "turn_of_call c s"
  shows "service_ok (enter_operation c s)"
proof -
  obtain xs ys where split: "ss_calls s = xs @ c # ys" "\<forall>d \<in> set xs \<union> set ys. sc_task d \<noteq> sc_task c"
    using service_ok_split [OF ok c] .
  have keep: "update_where (\<lambda>x. sc_task x = sc_task c) (\<lambda>x. x\<lparr>sc_running := True\<rparr>) zs = zs"
    if "\<forall>d \<in> set zs. sc_task d \<noteq> sc_task c" for zs
    using that by (intro update_where_id) auto
  have calls: "ss_calls (enter_operation c s) = xs @ c\<lparr>sc_running := True\<rparr> # ys"
    using split(1) keep [of xs] keep [of ys] split(2)
    by (simp add: enter_operation_def update_where_def)
  have lock: "lock_ok (ss_heap (enter_operation c s) ! n) (calls_on n (enter_operation c s))"
    if "n < length (ss_heap s)" for n
  proof (cases "n = sc_entry c")
    case True
    let ?xs = "filter (\<lambda>d. sc_entry d = n) xs" and ?ys = "filter (\<lambda>d. sc_entry d = n) ys"
    have "lock_ok (ss_heap s ! n) (?xs @ c # ?ys)"
      using service_ok_lock [OF ok that] True split(1) by (simp add: calls_on_def)
    moreover have "distinct (map sc_task (?xs @ c # ?ys))"
      using ok split(1) by (auto simp: service_ok_def distinct_map intro: inj_on_subset)
    ultimately have "lock_ok (resume (sc_task c) (ss_heap s ! n)) (?xs @ c\<lparr>sc_running := True\<rparr> # ?ys)"
      using assms(3,4) True by (intro lock_ok_resume) (auto simp: turn_of_call_def)
    then show ?thesis
      using True that calls by (simp add: calls_on_def enter_operation_def on_entry_def)
  next
    case False
    then show ?thesis
      using service_ok_lock [OF ok that] calls split(1)
      by (simp add: calls_on_def enter_operation_def on_entry_def)
  qed
  have rest: "ss_locks (enter_operation c s) = ss_locks s" "length (ss_heap (enter_operation c s)) = length (ss_heap s)"
    by (simp_all add: enter_operation_def on_entry_def)
  show ?thesis
    using ok lock unfolding service_ok_def rest calls split(1) by auto
qed

lemma service_ok_leave:
  assumes ok: "service_ok s" and c: "c \<in> set (ss_calls s)"
    and f: "\<And>xs ys. lock_ok (ss_heap s ! sc_entry c) (xs @ c # ys) \<Longrightarrow> distinct (map sc_task (xs @ c # ys)) \<Longrightarrow>
      lock_ok ((f (ss_heap s ! sc_entry c))\<lparr>sl_users := sl_users (ss_heap s ! sc_entry c) - 1\<rparr>) (xs @ ys)"
    and users: "sl_users (f (ss_heap s ! sc_entry c)) = sl_users (ss_heap s ! sc_entry c)"
  shows "service_ok (leave c (on_entry (sc_entry c) f s))"
proof -
  let ?n = "sc_entry c" and ?s = "leave c (on_entry (sc_entry c) f s)"
  obtain xs ys where split: "ss_calls s = xs @ c # ys" "\<forall>d \<in> set xs \<union> set ys. sc_task d \<noteq> sc_task c"
    using service_ok_split [OF ok c] .
  have n: "?n < length (ss_heap s)"
    using service_ok_call [OF ok c] by blast
  have "filter (\<lambda>d. sc_task d \<noteq> sc_task c) xs = xs" "filter (\<lambda>d. sc_task d \<noteq> sc_task c) ys = ys"
    using split(2) by (auto simp: filter_id_conv)
  then have calls: "ss_calls ?s = xs @ ys"
    using split(1) by (simp add: leave_def on_entry_def Let_def)
  define l where "l = (f (ss_heap s ! ?n))\<lparr>sl_users := sl_users (ss_heap s ! ?n) - 1\<rparr>"
  have heap: "ss_heap ?s = (ss_heap s)[?n := l]"
    using n users by (simp add: leave_def on_entry_def Let_def l_def)
  have locks: "ss_locks ?s = (if sl_users l = 0 \<and> \<not> sl_locked l then dict_pop (sc_session c) (ss_locks s) else ss_locks s)"
    using n users by (simp add: leave_def on_entry_def Let_def l_def)
  have here: "lock_ok l (filter (\<lambda>d. sc_entry d = ?n) (xs @ ys))"
  proof -
    let ?xs = "filter (\<lambda>d. sc_entry d = ?n) xs" and ?ys = "filter (\<lambda>d. sc_entry d = ?n) ys"
    have "lock_ok (ss_heap s ! ?n) (?xs @ c # ?ys)"
      using service_ok_lock [OF ok n] split(1) by (simp add: calls_on_def)
    moreover have "distinct (map sc_task (?xs @ c # ?ys))"
      using ok split(1) by (auto simp: service_ok_def distinct_map intro: inj_on_subset)
    ultimately show ?thesis
      using f [of ?xs ?ys] by (simp add: l_def)
  qed
  have lock: "lock_ok (ss_heap ?s ! m) (calls_on m ?s)" if "m < length (ss_heap s)" for m
    using here service_ok_lock [OF ok that] that split(1) heap calls
    by (cases "m = ?n") (simp_all add: calls_on_def)
  have gone: "sl_users l = 0 \<longleftrightarrow> (\<forall>d \<in> set (xs @ ys). sc_session d \<noteq> sc_session c)"
  proof -
    have "sl_users l = 0 \<longleftrightarrow> (\<forall>d \<in> set (xs @ ys). sc_entry d \<noteq> ?n)"
      using here by (auto simp: lock_ok_def filter_empty_conv)
    moreover have "sc_entry d = ?n \<longleftrightarrow> sc_session d = sc_session c" if "d \<in> set (xs @ ys)" for d
      using same_entry_same_session [OF ok _ c, of d] that split(1) by auto
    ultimately show ?thesis
      by blast
  qed
  have free: "sl_users l = 0 \<Longrightarrow> \<not> sl_locked l"
    using lock_ok_unused [OF here] by blast
  have loc: "map_of (ss_locks ?s) sid = (if sid = sc_session c \<and> sl_users l = 0 then None else map_of (ss_locks s) sid)" for sid
    using locks free by auto
  have "distinct (map sc_task (xs @ ys))" "distinct (map fst (ss_locks ?s))"
    using ok split(1) locks by (auto simp: service_ok_def)
  moreover have "map_of (ss_locks ?s) (sc_session d) = Some (sc_entry d)" if "d \<in> set (xs @ ys)" for d
    using service_ok_call(1) [OF ok, of d] that gone split(1) by (auto simp: loc)
  moreover have "m < length (ss_heap s) \<and> (\<exists>d \<in> set (xs @ ys). sc_session d = sid)" if "map_of (ss_locks ?s) sid = Some m" for sid m
  proof -
    have m: "map_of (ss_locks s) sid = Some m" "\<not> (sid = sc_session c \<and> sl_users l = 0)"
      using that by (auto simp: loc split: if_splits)
    then obtain d where "d \<in> set (ss_calls s)" "sc_session d = sid" "m < length (ss_heap s)"
      using ok unfolding service_ok_def by blast
    then show ?thesis
      using m(2) gone split(1) by auto
  qed
  moreover have "a = b" if "map_of (ss_locks ?s) a = Some m" "map_of (ss_locks ?s) b = Some m" for a b m
    using that service_ok_inj [OF ok] by (auto simp: loc split: if_splits)
  ultimately show ?thesis
    using lock unfolding service_ok_def calls heap by simp
qed

lemma service_ok_end:
  assumes "service_ok s" and "c \<in> set (ss_calls s)" and running: "sc_running c"
  shows "service_ok (end_operation c s)"
  unfolding end_operation_def using assms(1,2)
proof (rule service_ok_leave)
  show "lock_ok ((release (ss_heap s ! sc_entry c))\<lparr>sl_users := sl_users (ss_heap s ! sc_entry c) - 1\<rparr>) (xs @ ys)"
    if "lock_ok (ss_heap s ! sc_entry c) (xs @ c # ys)" "distinct (map sc_task (xs @ c # ys))" for xs ys
    using lock_ok_leave(1) [OF that running] .
qed (simp add: release_def)

lemma service_ok_cancel:
  assumes "service_ok s" and "c \<in> set (ss_calls s)" and waiting: "\<not> sc_running c"
  shows "service_ok (cancel_waiting c s)"
  unfolding cancel_waiting_def using assms(1,2)
proof (rule service_ok_leave)
  show "lock_ok ((withdraw (sc_task c) (ss_heap s ! sc_entry c))\<lparr>sl_users := sl_users (ss_heap s ! sc_entry c) - 1\<rparr>) (xs @ ys)"
    if "lock_ok (ss_heap s ! sc_entry c) (xs @ c # ys)" "distinct (map sc_task (xs @ c # ys))" for xs ys
    using lock_ok_leave(2) [OF that waiting] .
qed (simp add: withdraw_def)

text \<open>A new call, with the entry of its session in the dictionary: the one it found, or the one it made.\<close>

lemma obtain_entry_ok:
  assumes ok: "service_ok s" and got: "obtain_entry session_id s = (n, t)"
  shows "ss_calls t = ss_calls s \<and> map_of (ss_locks t) session_id = Some n \<and> n < length (ss_heap t) \<and>
    distinct (map fst (ss_locks t)) \<and>
    (\<forall>c \<in> set (ss_calls t). map_of (ss_locks t) (sc_session c) = Some (sc_entry c)) \<and>
    (\<forall>sid m. map_of (ss_locks t) sid = Some m \<longrightarrow>
       m < length (ss_heap t) \<and> (sid = session_id \<or> (\<exists>c \<in> set (ss_calls t). sc_session c = sid))) \<and>
    (\<forall>a b m. map_of (ss_locks t) a = Some m \<longrightarrow> map_of (ss_locks t) b = Some m \<longrightarrow> a = b) \<and>
    (\<forall>m < length (ss_heap t). lock_ok (ss_heap t ! m) (calls_on m t))"
proof (cases "map_of (ss_locks s) session_id")
  case (Some m)
  then have "n = m" "t = s"
    using got by (auto simp: obtain_entry_def)
  then show ?thesis
    using ok Some unfolding service_ok_def by blast
next
  case None
  let ?n = "length (ss_heap s)"
  have t: "n = ?n" "ss_calls t = ss_calls s" "ss_locks t = dict_set session_id ?n (ss_locks s)"
    "ss_heap t = ss_heap s @ [\<lparr>sl_users = 0, sl_locked = False, sl_waiters = []\<rparr>]"
    using got None by (auto simp: obtain_entry_def)
  have old: "m < ?n" if "map_of (ss_locks s) sid = Some m" for sid m
    using ok that unfolding service_ok_def by blast
  have unused: "calls_on ?n t = []"
    using service_ok_call(2) [OF ok] t(2) by (fastforce simp: calls_on_def filter_empty_conv)
  have lock: "lock_ok (ss_heap t ! m) (calls_on m t)" if "m < length (ss_heap t)" for m
  proof (cases "m = ?n")
    case True
    then show ?thesis
      using unused lock_ok_fresh by (simp add: t(4))
  next
    case False
    then show ?thesis
      using service_ok_lock [OF ok, of m] that by (simp add: t calls_on_def nth_append)
  qed
  have inj: "a = b" if "map_of (ss_locks t) a = Some m" "map_of (ss_locks t) b = Some m" for a b m
    using that old [of a ?n] old [of b ?n] service_ok_inj [OF ok, of a m b]
    by (cases "a = session_id"; cases "b = session_id") (auto simp: t(3))
  have "map_of (ss_locks t) (sc_session c) = Some (sc_entry c)" if "c \<in> set (ss_calls t)" for c
    using service_ok_call(1) [OF ok, of c] that None t(2,3) by auto
  moreover have "m < length (ss_heap t) \<and> (sid = session_id \<or> (\<exists>c \<in> set (ss_calls t). sc_session c = sid))"
    if "map_of (ss_locks t) sid = Some m" for sid m
    using that ok t unfolding service_ok_def by (fastforce split: if_splits)
  moreover have "distinct (map fst (ss_locks t))"
    using ok t(3) by (auto simp: service_ok_def)
  moreover have "map_of (ss_locks t) session_id = Some n" "n < length (ss_heap t)"
    by (simp_all add: t)
  ultimately show ?thesis
    using t(2) inj lock by blast
qed

lemma service_ok_run:
  assumes ok: "service_ok s" and fresh: "task \<notin> sc_task ` set (ss_calls s)"
  shows "service_ok (snd (run_serialized task session_id s))"
proof (cases "session_id = []")
  case True
  then show ?thesis using ok by (simp add: run_serialized_def)
next
  case False
  obtain n t where got: "obtain_entry session_id s = (n, t)"
    by (cases "obtain_entry session_id s")
  note t = obtain_entry_ok [OF ok got]
  let ?l = "ss_heap t ! n"
  define c where "c = \<lparr>sc_task = task, sc_session = session_id, sc_entry = n, sc_running = acquirable (add_user ?l)\<rparr>"
  let ?r = "snd (run_serialized task session_id s)"
  have n: "n < length (ss_heap t)"
    using t by blast
  then have r: "ss_calls ?r = ss_calls t @ [c]" "ss_locks ?r = ss_locks t"
    "ss_heap ?r = (ss_heap t)[n := acquire task (add_user ?l)]"
    using False got by (simp_all add: run_serialized_def on_entry_def Let_def c_def)
  have lock: "lock_ok (ss_heap ?r ! m) (calls_on m ?r)" if "m < length (ss_heap t)" for m
  proof (cases "m = n")
    case True
    have "lock_ok ?l (calls_on n t)"
      using t n by blast
    moreover have "task \<notin> sc_task ` set (calls_on n t)"
      using fresh t by (auto simp: calls_on_def)
    ultimately have "lock_ok (acquire task (add_user ?l)) (calls_on n t @ [c])"
      by (rule lock_ok_acquire) (simp_all add: c_def)
    then show ?thesis
      using True n r by (simp add: calls_on_def c_def)
  next
    case False
    have "lock_ok (ss_heap t ! m) (calls_on m t)"
      using t that by blast
    then show ?thesis
      using False r by (simp add: calls_on_def c_def)
  qed
  have "distinct (map sc_task (ss_calls ?r))"
    using ok fresh t r(1) by (auto simp: service_ok_def c_def)
  moreover have "map_of (ss_locks ?r) (sc_session d) = Some (sc_entry d)" if "d \<in> set (ss_calls ?r)" for d
    using t that r(1,2) by (auto simp: c_def)
  moreover have "m < length (ss_heap ?r) \<and> (\<exists>d \<in> set (ss_calls ?r). sc_session d = sid)"
    if "map_of (ss_locks ?r) sid = Some m" for sid m
  proof -
    have "m < length (ss_heap t)" "sid = session_id \<or> (\<exists>d \<in> set (ss_calls t). sc_session d = sid)"
      using t that unfolding r(2) by blast+
    then show ?thesis
      using r by (auto simp: c_def)
  qed
  ultimately show ?thesis
    using t lock unfolding service_ok_def r by simp
qed

lemma service_ok_reachable: "service_reachable s \<Longrightarrow> service_ok s"
proof (induction rule: service_reachable.induct)
  case init
  show ?case by (rule service_ok_init)
next
  case (step s s')
  from step.hyps(2) step.IH show ?case
    by (cases rule: service_step.cases)
      (auto intro: service_ok_run service_ok_enter service_ok_end service_ok_cancel)
qed

subsection \<open>What the service promises\<close>

lemma at_most_one_running:
  assumes ok: "service_ok s" and c: "c \<in> set (ss_calls s)" "sc_running c" and d: "d \<in> set (ss_calls s)" "sc_running d"
    and same: "sc_session c = sc_session d"
  shows "c = d"
proof (rule ccontr)
  let ?rs = "filter sc_running (calls_on (sc_entry c) s)"
  assume "c \<noteq> d"
  have "c \<in> set ?rs" "d \<in> set ?rs"
    using c d same same_entry_same_session [OF ok c(1) d(1)] by (auto simp: calls_on_def)
  then have "card {c, d} \<le> card (set ?rs)"
    by (intro card_mono) auto
  also have "\<dots> \<le> length ?rs"
    by (rule card_length)
  also have "\<dots> \<le> 1"
    using service_ok_lock [OF ok service_ok_call(2) [OF ok c(1)]] by (simp add: lock_ok_def split: if_splits)
  finally show False
    using \<open>c \<noteq> d\<close> by simp
qed

text \<open>A waiter is never forgotten: the lock is held by a running call of the session, or its first waiter goes on.\<close>

lemma waiter_not_stuck:
  assumes ok: "service_ok s" and c: "c \<in> set (ss_calls s)" "\<not> sc_running c"
  shows "\<exists>d \<in> set (ss_calls s). sc_session d = sc_session c \<and> (sc_running d \<or> turn_of_call d s)"
proof -
  let ?n = "sc_entry c" and ?l = "ss_heap s ! sc_entry c"
  have lock: "lock_ok ?l (calls_on ?n s)"
    using service_ok_lock [OF ok service_ok_call(2) [OF ok c(1)]] .
  have "\<exists>d \<in> set (calls_on ?n s). sc_running d \<or> turn_of_call d s"
  proof (cases "sl_locked ?l")
    case True
    then have "filter sc_running (calls_on ?n s) \<noteq> []"
      using lock by (auto simp: lock_ok_def)
    then show ?thesis
      by (auto simp: filter_empty_conv)
  next
    case False
    have "sc_task c \<in> set (sl_waiters ?l)"
      using lock c by (auto simp: lock_ok_def calls_on_def)
    then obtain t ts where w: "sl_waiters ?l = t # ts"
      by (cases "sl_waiters ?l") auto
    then have "t \<in> sc_task ` set (filter (\<lambda>c. \<not> sc_running c) (calls_on ?n s))"
      using lock by (auto simp: lock_ok_def)
    then obtain d where "d \<in> set (calls_on ?n s)" "sc_task d = t"
      by auto
    then show ?thesis
      using w False by (auto simp: turn_of_call_def calls_on_def)
  qed
  then show ?thesis
    using same_entry_same_session [OF ok _ c(1)] by (auto simp: calls_on_def)
qed

text \<open>
  C32. Under every interleaving of calls, resumptions, ends and cancellations: two operations of one session
  never run together; the dictionary holds a lock exactly for the sessions with a call under way, so none
  is leaked and none is dropped too early; a waiting call always has a running call of its session before
  it, or a first waiter that may go on; and a call for a session without another one starts at once,
  whatever the other sessions do.
\<close>

theorem one_operation_per_session:
  assumes "service_reachable s"
  shows "(\<forall>c \<in> set (ss_calls s). \<forall>d \<in> set (ss_calls s).
      sc_running c \<and> sc_running d \<and> sc_session c = sc_session d \<longrightarrow> c = d) \<and>
    (\<forall>sid. map_of (ss_locks s) sid \<noteq> None \<longleftrightarrow> (\<exists>c \<in> set (ss_calls s). sc_session c = sid)) \<and>
    (\<forall>c \<in> set (ss_calls s). sc_running c \<or>
      (\<exists>d \<in> set (ss_calls s). sc_session d = sc_session c \<and> (sc_running d \<or> turn_of_call d s))) \<and>
    (\<forall>task sid. sid \<noteq> [] \<and> sid \<notin> sc_session ` set (ss_calls s) \<longrightarrow>
      sc_running (last (ss_calls (snd (run_serialized task sid s)))))"
proof -
  have ok: "service_ok s"
    using assms by (rule service_ok_reachable)
  have locks: "map_of (ss_locks s) sid \<noteq> None \<longleftrightarrow> (\<exists>c \<in> set (ss_calls s). sc_session c = sid)" for sid
    using ok unfolding service_ok_def by blast
  have "sc_running (last (ss_calls (snd (run_serialized task sid s))))"
    if "sid \<noteq> []" "sid \<notin> sc_session ` set (ss_calls s)" for task sid
  proof -
    have "map_of (ss_locks s) sid = None"
      using that(2) locks [of sid] by auto
    then show ?thesis
      using that(1) by (simp add: run_serialized_def obtain_entry_def on_entry_def Let_def acquirable_def add_user_def)
  qed
  then show ?thesis
    using at_most_one_running [OF ok] waiter_not_stuck [OF ok] locks by blast
qed

text \<open>Two calls for one session and one for another; the first one has ended, the second may go on.\<close>

definition ex_service :: session_service where
  "ex_service =
     (let s1 = snd (run_serialized 1 ''a'' new_service);
          s2 = snd (run_serialized 2 ''a'' s1);
          s3 = snd (run_serialized 3 ''b'' s2)
      in end_operation (hd (ss_calls s3)) s3)"

lemma ex_service_reachable: "service_reachable ex_service"
proof -
  define s1 where "s1 = snd (run_serialized 1 ''a'' new_service)"
  define s2 where "s2 = snd (run_serialized 2 ''a'' s1)"
  define s3 where "s3 = snd (run_serialized 3 ''b'' s2)"
  note defs = s1_def s2_def s3_def
  have "1 \<notin> sc_task ` set (ss_calls new_service)"
    by code_simp
  then have r1: "service_reachable s1"
    unfolding s1_def by (intro service_reachable.step [OF service_reachable.init] service_step.call)
  have "2 \<notin> sc_task ` set (ss_calls s1)"
    unfolding defs by code_simp
  then have r2: "service_reachable s2"
    unfolding s2_def by (intro service_reachable.step [OF r1] service_step.call)
  have "3 \<notin> sc_task ` set (ss_calls s2)"
    unfolding defs by code_simp
  then have r3: "service_reachable s3"
    unfolding s3_def by (intro service_reachable.step [OF r2] service_step.call)
  have "hd (ss_calls s3) \<in> set (ss_calls s3)" "sc_running (hd (ss_calls s3))"
    unfolding defs by code_simp+
  then have "service_reachable (end_operation (hd (ss_calls s3)) s3)"
    by (intro service_reachable.step [OF r3] service_step.ended)
  then show ?thesis
    by (simp add: ex_service_def Let_def defs)
qed

theorem one_operation_per_session_ex:
  "map sc_running (ss_calls ex_service) = [False, True] \<and> map fst (ss_locks ex_service) = [''a'', ''b''] \<and>
   (\<exists>d. sc_session d = ''a'' \<and> turn_of_call d ex_service)"
proof -
  have calls: "map sc_running (ss_calls ex_service) = [False, True]" "map sc_session (ss_calls ex_service) = [''a'', ''b'']"
    "map fst (ss_locks ex_service) = [''a'', ''b'']"
    by code_simp+
  then obtain c d where cd: "ss_calls ex_service = [c, d]" "\<not> sc_running c" "sc_session c = ''a''" "sc_session d = ''b''"
    by (auto simp: map_eq_Cons_conv)
  have "\<exists>e \<in> set (ss_calls ex_service). sc_session e = sc_session c \<and> (sc_running e \<or> turn_of_call e ex_service)"
    using one_operation_per_session [OF ex_service_reachable] cd(1,2) by auto
  then have "turn_of_call c ex_service"
    using cd by auto
  then show ?thesis
    using calls cd(3) by blast
qed

subsection \<open>The registry\<close>

lemma registered_is_found:
  "registry_register agent adapter r = (Inr (), r') \<Longrightarrow>
   registry_get (Inl agent) r' = Inr adapter \<and> registry_get (Inr (agent_value agent)) r' = Inr adapter \<and>
   registry_registered r' = registry_registered r @ [agent]"
proof -
  assume reg: "registry_register agent adapter r = (Inr (), r')"
  then have r': "map_of r agent = None" "r' = dict_set agent adapter r"
    by (auto simp: registry_register_def split: if_splits)
  have "agent_of (agent_value agent) = Some agent"
    by (cases agent) (simp_all add: agent_of_def all_agents_def)
  moreover have "map fst (dict_set agent adapter r) = map fst r @ [agent]"
    using r'(1) by (induction r) auto
  ultimately show ?thesis
    using r' by (simp add: registry_get_def registry_registered_def)
qed

text \<open>One adapter for each kind: a second one is refused, and the first one stays.\<close>

lemma registered_once:
  "registry_register agent a r = (Inr (), r') \<Longrightarrow> \<exists>e. registry_register agent b r' = (Inl e, r')"
  by (auto simp: registry_register_def split: if_splits)

text \<open>Every status of a Codex session is a status of an agent session, so the facade never fails on it.\<close>

lemma agent_status_of_codex: "agent_status_of (session_status_value st) = Some (A_STATUS st)"
  by (cases st) (simp_all add: agent_status_of_def all_statuses_def)

lemma codex_agent_session_total:
  "s_id v \<noteq> [] \<Longrightarrow> s_name v \<noteq> [] \<Longrightarrow> \<exists>a. codex_agent_session v = Inr a \<and> as_session_id a = s_id v \<and> as_status a = A_STATUS (s_status v)"
  by (simp add: codex_agent_session_def agent_status_of_codex)

end
