(* ===== verification/Launcher.thy ===== *)
theory Launcher
  imports Hooks
begin

text \<open>
  What happens before the native Codex program runs: \<^verbatim>\<open>commands/codex_args.py\<close> (may these arguments go through
  the gateway), \<^verbatim>\<open>modules/codex/codex_tui.py\<close> (the command line and the environment), and
  \<^verbatim>\<open>server/daemon/auth.py\<close> (the token both sides of the local daemon read from one file). The lookup of the
  executable, the user's \<^verbatim>\<open>config.toml\<close>, the token file and \<^verbatim>\<open>subprocess\<close> are parameters.
\<close>

subsection \<open>The arguments of Codex\<close>

definition GLOBAL_OPTIONS_WITH_VALUE :: "string list" where
  "GLOBAL_OPTIONS_WITH_VALUE =
     [''-c'', ''--config'', ''--enable'', ''--disable'', ''--remote'', ''--remote-auth-token-env'', ''-i'', ''--image'', ''-m'', ''--model'',
      ''--local-provider'', ''-p'', ''--profile'', ''-s'', ''--sandbox'', ''-C'', ''--cd'', ''--add-dir'', ''-a'', ''--ask-for-approval'']"

definition GLOBAL_FLAG_OPTIONS :: "string list" where
  "GLOBAL_FLAG_OPTIONS =
     [''--oss'', ''--dangerously-bypass-approvals-and-sandbox'', ''--dangerously-bypass-hook-trust'', ''--search'', ''--no-alt-screen'',
      ''--strict-config'']"

definition ATTACHED_VALUE_PREFIXES :: "string list" where
  "ATTACHED_VALUE_PREFIXES = [''-c'', ''-i'', ''-m'', ''-p'', ''-s'', ''-C'', ''-a'']"

text \<open>A token that is an option with its value, or a flag.\<close>

definition option_with_value :: "string \<Rightarrow> bool" where
  "option_with_value token =
     (case py_partition (CHR ''='') token of (option, sep, _) \<Rightarrow>
        sep \<noteq> [] \<and> option \<in> set GLOBAL_OPTIONS_WITH_VALUE)"

definition attached_value :: "string \<Rightarrow> bool" where
  "attached_value token = list_ex (\<lambda>p. length p < length token \<and> take (length p) token = p) ATTACHED_VALUE_PREFIXES"

text \<open>The rest of the arguments takes the place of the index.\<close>

fun uses_remote_resume_picker :: "string list \<Rightarrow> bool" where
  "uses_remote_resume_picker [] = False"
| "uses_remote_resume_picker (token # rest) =
     (if token = ''--'' then False
      else if token \<in> set GLOBAL_FLAG_OPTIONS then uses_remote_resume_picker rest
      else if option_with_value token then uses_remote_resume_picker rest
      else if attached_value token then uses_remote_resume_picker rest
      else if token \<in> set GLOBAL_OPTIONS_WITH_VALUE then (case rest of
          [] \<Rightarrow> False
        | v # vs \<Rightarrow> uses_remote_resume_picker vs)
      else if take 1 token = ''-'' \<or> token \<noteq> ''resume'' then False
      else if list_ex (\<lambda>t. t \<in> {''--last'', ''--last=true''}) rest then False
      else (case rest of [] \<Rightarrow> True | t # ts \<Rightarrow> take 1 t = ''-''))"

subsection \<open>The reference: a grammar of the arguments\<close>

inductive global_options :: "string list \<Rightarrow> bool" where
  none: "global_options []"
| one: "token \<in> set GLOBAL_FLAG_OPTIONS \<or> option_with_value token \<or> attached_value token \<Longrightarrow> global_options opts \<Longrightarrow>
    global_options (token # opts)"
| two: "token \<in> set GLOBAL_OPTIONS_WITH_VALUE \<Longrightarrow> global_options opts \<Longrightarrow> global_options (token # v # opts)"

definition asks_for_picker :: "string list \<Rightarrow> bool" where
  "asks_for_picker rest \<longleftrightarrow> ''--last'' \<notin> set rest \<and> ''--last=true'' \<notin> set rest \<and> (rest = [] \<or> take 1 (hd rest) = ''-'')"

inductive_cases global_options_ConsE: "global_options (token # opts)"

lemma other_tokens:
  "list_all (\<lambda>t. t \<notin> set GLOBAL_FLAG_OPTIONS \<and> \<not> option_with_value t \<and> \<not> attached_value t)
     (''--'' # ''resume'' # GLOBAL_OPTIONS_WITH_VALUE)"
  by code_simp

lemma one_token_kinds:
  "token \<in> set GLOBAL_FLAG_OPTIONS \<or> option_with_value token \<or> attached_value token \<Longrightarrow>
     token \<noteq> ''--'' \<and> token \<noteq> ''resume'' \<and> token \<notin> set GLOBAL_OPTIONS_WITH_VALUE"
  using other_tokens by (auto simp: list_all_iff)

lemma two_token_kinds: "token \<in> set GLOBAL_OPTIONS_WITH_VALUE \<Longrightarrow> token \<noteq> ''--'' \<and> token \<noteq> ''resume''"
  by (auto simp: GLOBAL_OPTIONS_WITH_VALUE_def)

lemma picker_sound: "uses_remote_resume_picker args \<Longrightarrow>
    \<exists>opts rest. args = opts @ ''resume'' # rest \<and> global_options opts \<and> asks_for_picker rest"
proof (induction args rule: uses_remote_resume_picker.induct)
  case (2 token rest)
  let ?one = "token \<in> set GLOBAL_FLAG_OPTIONS \<or> option_with_value token \<or> attached_value token"
  consider "?one" | "\<not> ?one" "token \<in> set GLOBAL_OPTIONS_WITH_VALUE" | "\<not> ?one" "token \<notin> set GLOBAL_OPTIONS_WITH_VALUE"
    by blast
  then show ?case
  proof cases
    case 1
    then have "uses_remote_resume_picker rest"
      using "2.prems" one_token_kinds [OF 1] by (simp split: if_splits)
    then obtain opts r where "rest = opts @ ''resume'' # r" "global_options opts" "asks_for_picker r"
      using "2.IH" 1 one_token_kinds [OF 1] by blast
    then show ?thesis
      using global_options.one [OF 1, of opts] by (intro exI [of _ "token # opts"] exI [of _ r]) simp
  next
    case 2
    then obtain v vs where vs: "rest = v # vs" "uses_remote_resume_picker vs"
      using "2.prems" two_token_kinds [OF 2(2)] by (cases rest) simp_all
    then obtain opts r where "vs = opts @ ''resume'' # r" "global_options opts" "asks_for_picker r"
      using "2.IH"(4) [OF _ _ _ _ _ vs(1)] 2 two_token_kinds [OF 2(2)] by blast
    then show ?thesis
      using global_options.two [OF 2(2), of opts v] vs(1) by (intro exI [of _ "token # v # opts"] exI [of _ r]) simp
  next
    case 3
    then have "token = ''resume''" "asks_for_picker rest"
      using "2.prems" by (cases "token = ''--''"; cases "take 1 token = ''-'' \<or> token \<noteq> ''resume''";
        cases rest; simp add: asks_for_picker_def list_ex_iff split: if_splits; blast)+
    then show ?thesis
      using global_options.none by (intro exI [of _ "[]"] exI [of _ rest]) simp
  qed
qed simp

lemma picker_complete: "global_options opts \<Longrightarrow> asks_for_picker rest \<Longrightarrow> uses_remote_resume_picker (opts @ ''resume'' # rest)"
proof (induction rule: global_options.induct)
  case none
  have "\<not> option_with_value ''resume''" "\<not> attached_value ''resume''" "''resume'' \<notin> set GLOBAL_FLAG_OPTIONS"
    "''resume'' \<notin> set GLOBAL_OPTIONS_WITH_VALUE"
    by code_simp+
  moreover have "\<not> list_ex (\<lambda>t. t \<in> {''--last'', ''--last=true''}) rest"
    using none unfolding asks_for_picker_def list_ex_iff by blast
  ultimately show ?case
    using none unfolding asks_for_picker_def by (cases rest) simp_all
next
  case (one token opts)
  then show ?case
    using one_token_kinds [OF one.hyps(1)] by simp blast
next
  case (two token opts v)
  have "token \<notin> set GLOBAL_FLAG_OPTIONS" "\<not> option_with_value token" "\<not> attached_value token"
    using one_token_kinds two.hyps(1) by blast+
  moreover have "token \<noteq> ''--''"
    using two_token_kinds two.hyps(1) by blast
  ultimately show ?case
    using two.IH two.prems two.hyps(1) by simp
qed

text \<open>
  The arguments are refused exactly when they are some complete global options, the word resume, and no
  session to resume: nothing or an option after it, and no request for the last session.
\<close>

theorem picker_refused_exactly:
  "uses_remote_resume_picker args \<longleftrightarrow>
     (\<exists>opts rest. args = opts @ ''resume'' # rest \<and> global_options opts \<and> asks_for_picker rest)"
  using picker_sound picker_complete by blast

text \<open>An explicit session is refused when an option stands before it.\<close>

lemma session_after_option_refused: "uses_remote_resume_picker [''resume'', ''-m'', ''gpt-5'', ''0199-session'']"
  by code_simp

subsection \<open>The command line and the environment\<close>

record tui_options =
  tu_args :: "string list"
  tu_codex_path :: string
  tu_callback_command :: "string list"
  tu_remote_endpoint :: "string option"
  tu_remote_auth_token :: "string option"

text \<open>
  What the launcher finds: the executable, the environment, the user's \<^verbatim>\<open>config.toml\<close> as it is read and
  parsed, and the exit status of the program.
\<close>

record tui_world =
  tw_which :: "string \<Rightarrow> string option"
  tw_environ :: environ
  tw_config :: "json_object outcome"
  tw_run :: "string list \<Rightarrow> environ option \<Rightarrow> int outcome"

definition REMOTE_TOKEN :: string where
  "REMOTE_TOKEN = ''LARK_BOT_CODEX_REMOTE_TOKEN''"

definition config_unreadable :: "exn \<Rightarrow> bool" where
  "config_unreadable e \<longleftrightarrow> is_os_error e \<or> exn_type e = ''TOMLDecodeError''"

definition read_existing_notify :: "tui_world \<Rightarrow> string list option outcome" where
  "read_existing_notify w =
     (case tw_config w of
        Inl e \<Rightarrow> if config_unreadable e then Inr None else Inl e
      | Inr config \<Rightarrow> Inr (command_parts (jget config ''notify'')))"

definition remote_command :: "tui_options \<Rightarrow> string \<Rightarrow> string list outcome" where
  "remote_command opts executable =
     (case tu_remote_endpoint opts of
        Some endpoint \<Rightarrow> Inr ([executable, ''--remote'', endpoint, ''--remote-auth-token-env'', REMOTE_TOKEN] @ tu_args opts)
      | None \<Rightarrow>
          if tu_callback_command opts = [] then Inr (executable # tu_args opts)
          else (case build_notify_override (tu_callback_command opts) of
              Inl e \<Rightarrow> Inl e
            | Inr override \<Rightarrow> Inr ([executable, ''-c'', override] @ tu_args opts)))"

definition tui_environment :: "tui_world \<Rightarrow> tui_options \<Rightarrow> environ option outcome" where
  "tui_environment w opts =
     (case tu_remote_endpoint opts of
        Some _ \<Rightarrow> Inr (Some (dict_set REMOTE_TOKEN (opt_or (tu_remote_auth_token opts) []) (tw_environ w)))
      | None \<Rightarrow> (case read_existing_notify w of
            Inl e \<Rightarrow> Inl e
          | Inr None \<Rightarrow> Inr None
          | Inr (Some parts) \<Rightarrow>
              Inr (Some (dict_set NOTIFY_CHAIN (dumps '', '' '': '' (JArr (map JStr parts))) (tw_environ w)))))"

definition run_tui :: "tui_world \<Rightarrow> tui_options \<Rightarrow> int outcome" where
  "run_tui w opts =
     (case tw_which w (tu_codex_path opts) of
        None \<Rightarrow> Inl (Exn ''FileNotFoundError'' (''Codex executable not found: '' @ tu_codex_path opts))
      | Some executable \<Rightarrow>
          if (tu_remote_endpoint opts = None) \<noteq> (tu_remote_auth_token opts = None)
          then value_error ''remote endpoint and token must be provided together''
          else (case remote_command opts executable of
              Inl e \<Rightarrow> Inl e
            | Inr command \<Rightarrow> (case tui_environment w opts of
                  Inl e \<Rightarrow> Inl e
                | Inr env \<Rightarrow> tw_run w command env)))"

text \<open>The token of the gateway is in the environment of the program, and never on its command line.\<close>

lemma remote_token_in_environment_only:
  assumes "tw_which w (tu_codex_path opts) = Some executable" and "tu_remote_endpoint opts = Some endpoint"
    and "tu_remote_auth_token opts = Some token"
  shows "\<exists>command env. run_tui w opts = tw_run w command (Some env) \<and> map_of env REMOTE_TOKEN = Some token \<and>
    set command \<subseteq> {executable, ''--remote'', endpoint, ''--remote-auth-token-env'', REMOTE_TOKEN} \<union> set (tu_args opts)"
proof -
  define command where "command = [executable, ''--remote'', endpoint, ''--remote-auth-token-env'', REMOTE_TOKEN] @ tu_args opts"
  define env where "env = dict_set REMOTE_TOKEN token (tw_environ w)"
  have "run_tui w opts = tw_run w command (Some env)"
    using assms by (simp add: run_tui_def remote_command_def tui_environment_def command_def env_def)
  moreover have "map_of env REMOTE_TOKEN = Some token"
    by (simp add: env_def)
  moreover have "set command \<subseteq> {executable, ''--remote'', endpoint, ''--remote-auth-token-env'', REMOTE_TOKEN} \<union> set (tu_args opts)"
    by (simp add: command_def)
  ultimately show ?thesis
    by blast
qed

text \<open>
  Without the gateway the user's notify command goes into the environment, and the hook program of
  theory \<open>Hooks\<close> starts it for each event.
\<close>

lemma existing_notify_survives:
  assumes "tu_remote_endpoint opts = None" "tw_config w = Inr config" "jget config ''notify'' = JArr (map JStr parts)"
    and "parts \<noteq> []" "list_all (\<lambda>p. p \<noteq> []) parts" and "map_of (tw_environ w) NOTIFY_CHAIN_ACTIVE = None"
    and "loads (dumps '', '' '': '' (JArr (map JStr parts))) = Inr (JArr (map JStr parts))"
    and "argv \<noteq> []" "last argv \<noteq> []" "parse_bounded_json_object loads MAX_HOOK_BYTES (last argv) = Inr (Some event)"
    and "\<And>child. popen child = Inr ()"
  shows "\<exists>env child. tui_environment w opts = Inr (Some env) \<and>
    forward_existing_notify loads popen env argv stdin [] = (Inr True, [child]) \<and> cp_command child = parts @ [last argv]"
proof -
  let ?text = "dumps '', '' '': '' (JArr (map JStr parts))"
  define env where "env = dict_set NOTIFY_CHAIN ?text (tw_environ w)"
  have "command_parts (JArr (map JStr parts)) = Some parts"
    using nonempty_strs [OF assms(5)] assms(4) by (simp add: command_parts_def)
  then have "tui_environment w opts = Inr (Some env)"
    using assms(1-3) by (simp add: tui_environment_def read_existing_notify_def env_def)
  moreover have "NOTIFY_CHAIN \<noteq> NOTIFY_CHAIN_ACTIVE"
    by (simp add: NOTIFY_CHAIN_def NOTIFY_CHAIN_ACTIVE_def)
  then have "map_of env NOTIFY_CHAIN_ACTIVE = None" "map_of env NOTIFY_CHAIN = Some ?text" "?text \<noteq> []"
    using assms(6) by (simp_all add: env_def)
  ultimately show ?thesis
    using existing_notify_continues [of env ?text loads parts argv event popen] assms by blast
qed

subsection \<open>The token of the daemon\<close>

text \<open>
  The token file: its permissions and its text. Opening it may fail, \<^verbatim>\<open>chmod\<close> or \<^verbatim>\<open>stat\<close> may fail, and on some file
  systems it succeeds without effect. \<open>None\<close> is a file that does not exist.
\<close>

record token_file =
  tf_group_access :: bool
  tf_text :: "string outcome"

record token_world =
  tk_windows :: bool
  tk_link :: bool
  tk_create :: "unit outcome"
  tk_random :: string
  tk_chmod :: "unit outcome"
  tk_chmod_works :: bool

definition token_error :: "string \<Rightarrow> exn" where
  "token_error m = Exn ''RuntimeError'' m"

definition os_to_token_error :: "exn \<Rightarrow> exn" where
  "os_to_token_error e = (if is_os_error e then token_error ''daemon token file is unreadable'' else e)"

definition read_token :: "token_world \<Rightarrow> token_file \<Rightarrow> string outcome \<times> token_file" where
  "read_token v f =
     (case tk_chmod v of
        Inl e \<Rightarrow> (Inl (os_to_token_error e), f)
      | Inr _ \<Rightarrow>
          (let f = f\<lparr>tf_group_access := tf_group_access f \<and> \<not> tk_chmod_works v\<rparr> in
           (if \<not> tk_windows v \<and> tf_group_access f then Inl (token_error ''daemon token file permissions are insecure'')
            else (case tf_text f of
                Inl e \<Rightarrow> Inl (os_to_token_error e)
              | Inr text \<Rightarrow>
                  if length (py_strip text) < 32 then Inl (token_error ''daemon token file is empty or insecure'')
                  else Inr (py_strip text)), f)))"

definition ensure_daemon_token :: "token_world \<Rightarrow> token_file option \<Rightarrow> string outcome \<times> token_file option" where
  "ensure_daemon_token v file =
     (if tk_link v then (Inl (token_error ''daemon token file must not be a symlink''), file)
      else (case file of
          Some f \<Rightarrow> map_prod id Some (read_token v f)
        | None \<Rightarrow> (case tk_create v of
              Inl e \<Rightarrow> (Inl e, None)
            | Inr _ \<Rightarrow> map_prod id Some (read_token v \<lparr>tf_group_access = False, tf_text = Inr (tk_random v)\<rparr>))))"

text \<open>A token that was returned once is returned again: the daemon and its clients agree, and it can be used.\<close>

lemma token_is_stable:
  assumes "ensure_daemon_token v file = (Inr token, file')" and "\<not> tk_link v'" "tk_chmod v' = Inr ()"
    and "tk_windows v' = tk_windows v"
  shows "fst (ensure_daemon_token v' file') = Inr token \<and> 32 \<le> length token"
proof -
  obtain f t where f: "file' = Some f" "tf_text f = Inr t" "token = py_strip t" "32 \<le> length token"
      "tk_windows v \<or> \<not> tf_group_access f"
    using assms(1)
    by (auto simp: ensure_daemon_token_def read_token_def map_prod_def Let_def
        split: if_splits option.splits sum.splits prod.splits)
  then show ?thesis
    using f assms(2-4) by (auto simp: ensure_daemon_token_def read_token_def map_prod_def Let_def)
qed

end
