(* ===== verification/Lark_Client.thy ===== *)
theory Lark_Client
  imports Lark_Control Lark_Render
begin

text \<open>
  \<^verbatim>\<open>modules/lark/lark_client.py\<close>: the client of the Lark API, with the access token it caches. The HTTP
  library is a parameter: what a request is answered with, and which exceptions are its own. Times are
  microseconds, as in the other theories; the lifetime Lark grants is in seconds. The two lists of the state
  that the program does not have record the tokens granted and the tokens used, with their times.
\<close>

subsection \<open>Requests and state\<close>

datatype api_request =
    TokenRequest string string string
  | MessageRequest string string json "(string \<times> utext) list"

record api_response =
  ar_status :: nat
  ar_json :: "json outcome"

record lark_client_config =
  lc_app_id :: string
  lc_app_secret :: string
  lc_receive_id :: string
  lc_receive_id_type :: string
  lc_base_url :: string
  lc_format :: message_format
  lc_tail_lines :: nat
  lc_post :: "nat \<Rightarrow> api_request \<Rightarrow> api_response outcome"
  lc_http_error :: "exn \<Rightarrow> bool"
  lc_int_of :: "json \<Rightarrow> int outcome"
  lc_time :: "nat \<Rightarrow> instant"

record cached_token =
  ct_value :: json
  ct_expires_at :: instant

record lark_client =
  lk_cached :: "cached_token option"
  lk_requests :: "api_request list"
  lk_clock :: nat
  lk_grants :: "(json \<times> instant \<times> int) list"
  lk_uses :: "(json \<times> instant) list"

type_synonym 'a lsync = "(lark_client, 'a) sync"

definition new_lark_client :: lark_client where
  "new_lark_client = \<lparr>lk_cached = None, lk_requests = [], lk_clock = 0, lk_grants = [], lk_uses = []\<rparr>"

definition lark_api_error :: "string \<Rightarrow> exn" where
  "lark_api_error m = Exn ''LarkAPIError'' m"

definition api_base :: "lark_client_config \<Rightarrow> string" where
  "api_base c = rstrip_chars [CHR ''/''] (lc_base_url c)"

definition lark_now :: "lark_client_config \<Rightarrow> instant lsync" where
  "lark_now c = (\<lambda>s. (Inr (lc_time c (lk_clock s)), s\<lparr>lk_clock := Suc (lk_clock s)\<rparr>))"

text \<open>A POST: an exception of the HTTP library becomes the client's own.\<close>

definition api_post :: "lark_client_config \<Rightarrow> string \<Rightarrow> api_request \<Rightarrow> api_response lsync" where
  "api_post c failure q = (\<lambda>s.
     (case lc_post c (length (lk_requests s)) q of
        Inl e \<Rightarrow> Inl (if lc_http_error c e then lark_api_error failure else e)
      | Inr r \<Rightarrow> Inr r,
      s\<lparr>lk_requests := lk_requests s @ [q]\<rparr>))"

subsection \<open>Reading a response\<close>

definition is_value_error :: "exn \<Rightarrow> bool" where
  "is_value_error e \<longleftrightarrow> exn_type e \<in> {''ValueError'', ''JSONDecodeError'', ''UnicodeError'', ''UnicodeDecodeError''}"

definition safe_json :: "api_response \<Rightarrow> json_object outcome" where
  "safe_json r =
     (case ar_json r of
        Inl e \<Rightarrow> Inl (if is_value_error e then lark_api_error ''Lark API returned non-JSON response'' else e)
      | Inr (JObj d) \<Rightarrow> Inr d
      | Inr _ \<Rightarrow> Inl (lark_api_error ''Lark API returned unexpected JSON response''))"

text \<open>\<^verbatim>\<open>v != 0\<close> on a JSON value: \<open>False\<close> and a float zero are equal to the integer.\<close>

fun not_zero :: "json \<Rightarrow> bool" where
  "not_zero (JInt i) = (i \<noteq> 0)"
| "not_zero (JBool b) = b"
| "not_zero (JFloat t) = truthy (JFloat t)"
| "not_zero _ = True"

definition api_failed :: "api_response \<Rightarrow> json_object \<Rightarrow> bool" where
  "api_failed r d \<longleftrightarrow> 400 \<le> ar_status r \<or> (has_key d ''code'' \<and> not_zero (jget d ''code''))"

text \<open>\<^verbatim>\<open>int(v)\<close>: the conversion of a text or a float is the parameter.\<close>

fun int_of_json :: "(json \<Rightarrow> int outcome) \<Rightarrow> json \<Rightarrow> int outcome" where
  "int_of_json p (JInt i) = Inr i"
| "int_of_json p (JBool b) = Inr (if b then 1 else 0)"
| "int_of_json p (JFloat t) = p (JFloat t)"
| "int_of_json p (JStr t) = p (JStr t)"
| "int_of_json p _ = type_error ''int() argument must be a string, a bytes-like object or a real number''"

subsection \<open>The token\<close>

definition granted_until :: "instant \<Rightarrow> int \<Rightarrow> instant" where
  "granted_until now expire_seconds = now + 1000000 * max (expire_seconds - 60) 60"

definition fetch_token :: "lark_client_config \<Rightarrow> instant \<Rightarrow> json lsync" where
  "fetch_token c now =
     bnd (api_post c ''Failed to refresh Lark tenant access token''
            (TokenRequest (api_base c @ ''/open-apis/auth/v3/tenant_access_token/internal'') (lc_app_id c) (lc_app_secret c))) (\<lambda>response.
     bnd (from_outcome (safe_json response)) (\<lambda>d.
       let token = jget d ''tenant_access_token'' in
       if api_failed response d \<or> \<not> truthy token then raise (lark_api_error ''Lark token API failed'')
       else bnd (from_outcome (if has_key d ''expire'' then int_of_json (lc_int_of c) (jget d ''expire'') else Inr 7200)) (\<lambda>expire_seconds.
         bnd (modify (\<lambda>s. s\<lparr>lk_cached := Some \<lparr>ct_value = token, ct_expires_at = granted_until now expire_seconds\<rparr>,
             lk_grants := lk_grants s @ [(token, now, expire_seconds)]\<rparr>)) (\<lambda>_. return token))))"

definition get_tenant_access_token :: "lark_client_config \<Rightarrow> json lsync" where
  "get_tenant_access_token c =
     bnd (lark_now c) (\<lambda>now.
     bnd (gets lk_cached) (\<lambda>cached.
     bnd (case cached of
            None \<Rightarrow> fetch_token c now
          | Some t \<Rightarrow> if 60 * 1000000 < ct_expires_at t - now then return (ct_value t) else fetch_token c now) (\<lambda>token.
     bnd (modify (\<lambda>s. s\<lparr>lk_uses := lk_uses s @ [(token, now)]\<rparr>)) (\<lambda>_. return token))))"

subsection \<open>Sending\<close>

definition message_id_of :: "json_object \<Rightarrow> string outcome" where
  "message_id_of d =
     (case (case jget d ''data'' of JObj v \<Rightarrow> nonempty_str (jget v ''message_id'') | _ \<Rightarrow> None) of
        None \<Rightarrow> Inl (lark_api_error ''Lark message API response missing message_id'')
      | Some message_id \<Rightarrow> Inr message_id)"

definition send_rendered :: "lark_client_config \<Rightarrow> rendered_message \<Rightarrow> string lsync" where
  "send_rendered c message =
     bnd (get_tenant_access_token c) (\<lambda>token.
     bnd (api_post c ''Failed to send Lark message''
            (MessageRequest (api_base c @ ''/open-apis/im/v1/messages'') (lc_receive_id_type c) token
               (build_api_payload (lc_receive_id c) message))) (\<lambda>response.
     bnd (from_outcome (safe_json response)) (\<lambda>d.
       if api_failed response d then raise (lark_api_error ''Lark message API failed'')
       else from_outcome (message_id_of d))))"

definition send_request :: "lark_client_config \<Rightarrow> notification_request \<Rightarrow> string lsync" where
  "send_request c request = send_rendered c (render_task_notification request (lc_format c) (lc_tail_lines c))"

definition send_text :: "lark_client_config \<Rightarrow> utext \<Rightarrow> string lsync" where
  "send_text c t = send_rendered c (text_message t)"

text \<open>One client over its life: messages are sent one after another.\<close>

inductive client_life :: "lark_client_config \<Rightarrow> lark_client \<Rightarrow> bool" for c where
  fresh: "client_life c new_lark_client"
| sent: "client_life c s \<Longrightarrow> client_life c (snd (send_rendered c message s))"

subsection \<open>No token is used late\<close>

definition used_in_time :: "(json \<times> instant \<times> int) list \<Rightarrow> json \<Rightarrow> instant \<Rightarrow> bool" where
  "used_in_time grants token now \<longleftrightarrow>
     (\<exists>granted seconds. (token, granted, seconds) \<in> set grants \<and>
        (now = granted \<or> (granted \<le> now \<and> now + 1000000 * 120 < granted + 1000000 * seconds)))"

definition carried_token :: "api_request \<Rightarrow> json option" where
  "carried_token q = (case q of MessageRequest url kind token body \<Rightarrow> Some token | TokenRequest url app secret \<Rightarrow> None)"

definition lark_client_ok :: "lark_client_config \<Rightarrow> lark_client \<Rightarrow> bool" where
  "lark_client_ok c s \<longleftrightarrow>
     (\<forall>t. lk_cached s = Some t \<longrightarrow> (\<exists>granted seconds. (ct_value t, granted, seconds) \<in> set (lk_grants s) \<and>
        ct_expires_at t = granted_until granted seconds)) \<and>
     (\<forall>(token, granted, seconds) \<in> set (lk_grants s). \<exists>k < lk_clock s. granted = lc_time c k) \<and>
     (\<forall>(token, now) \<in> set (lk_uses s). used_in_time (lk_grants s) token now) \<and>
     (\<forall>q \<in> set (lk_requests s). \<forall>token. carried_token q = Some token \<longrightarrow> token \<in> fst ` set (lk_uses s))"

lemma used_in_time_more: "used_in_time gs token now \<Longrightarrow> used_in_time (gs @ hs) token now"
  unfolding used_in_time_def by auto

lemma used_when_granted: "used_in_time (gs @ [(token, now, seconds)]) token now"
  unfolding used_in_time_def by (intro exI [of _ now] exI [of _ seconds]) simp

lemma api_post_run: "api_post c failure q s =
    (fst (api_post c failure q s), s\<lparr>lk_requests := lk_requests s @ [q]\<rparr>)"
  by (simp add: api_post_def)

lemma lark_client_ok_request:
  assumes "lark_client_ok c s" and "\<And>token. carried_token q = Some token \<Longrightarrow> token \<in> fst ` set (lk_uses s)"
  shows "lark_client_ok c (s\<lparr>lk_requests := lk_requests s @ [q]\<rparr>)"
  using assms by (auto simp: lark_client_ok_def)

lemma lark_client_ok_tick: "lark_client_ok c s \<Longrightarrow> lark_client_ok c (s\<lparr>lk_clock := Suc (lk_clock s)\<rparr>)"
  unfolding lark_client_ok_def by (fastforce simp: less_Suc_eq)

text \<open>A cached token that passes the check was granted long enough ago and lasts long enough.\<close>

lemma cached_in_time:
  assumes ok: "lark_client_ok c s" and mono: "mono (lc_time c)" and t: "lk_cached s = Some t"
    and check: "60 * 1000000 < ct_expires_at t - lc_time c (lk_clock s)"
  shows "used_in_time (lk_grants s) (ct_value t) (lc_time c (lk_clock s))"
proof -
  obtain granted seconds where g: "(ct_value t, granted, seconds) \<in> set (lk_grants s)"
    "ct_expires_at t = granted_until granted seconds"
    using ok t unfolding lark_client_ok_def by blast
  then obtain k where "k < lk_clock s" "granted = lc_time c k"
    using ok unfolding lark_client_ok_def by fast
  then have "granted \<le> lc_time c (lk_clock s)"
    using mono by (simp add: monoD)
  moreover have "lc_time c (lk_clock s) + 1000000 * 120 < granted + 1000000 * seconds"
    using check g(2) \<open>granted \<le> lc_time c (lk_clock s)\<close> by (auto simp: granted_until_def max_def split: if_splits)
  ultimately show ?thesis
    using g(1) unfolding used_in_time_def by blast
qed

lemma lark_client_ok_grant:
  assumes ok: "lark_client_ok c s" and "k < lk_clock s" "now = lc_time c k"
  shows "lark_client_ok c (s\<lparr>lk_cached := Some \<lparr>ct_value = token, ct_expires_at = granted_until now seconds\<rparr>,
    lk_grants := lk_grants s @ [(token, now, seconds)]\<rparr>)"
  using assms unfolding lark_client_ok_def by (auto intro: used_in_time_more)

lemma lark_client_ok_use:
  "lark_client_ok c s \<Longrightarrow> used_in_time (lk_grants s) token now \<Longrightarrow> lark_client_ok c (s\<lparr>lk_uses := lk_uses s @ [(token, now)]\<rparr>)"
  unfolding lark_client_ok_def by auto

lemma fetch_token_ok:
  assumes ok: "lark_client_ok c s" and now: "k < lk_clock s" "now = lc_time c k" and run: "fetch_token c now s = (r, s')"
  shows "lark_client_ok c s'" and "\<And>token. r = Inr token \<Longrightarrow> used_in_time (lk_grants s') token now"
proof -
  define q where "q = TokenRequest (api_base c @ ''/open-apis/auth/v3/tenant_access_token/internal'') (lc_app_id c) (lc_app_secret c)"
  define s1 where "s1 = s\<lparr>lk_requests := lk_requests s @ [q]\<rparr>"
  have s1: "lark_client_ok c s1" "lk_clock s1 = lk_clock s"
    using lark_client_ok_request [OF ok, of q] by (simp_all add: s1_def q_def carried_token_def)
  obtain p where p: "api_post c ''Failed to refresh Lark tenant access token'' q s = (p, s1)"
    using api_post_run s1_def by blast
  have "s' = s1 \<and> (\<exists>e. r = Inl e) \<or>
    (\<exists>token seconds. r = Inr token \<and> s' = s1\<lparr>lk_cached := Some \<lparr>ct_value = token, ct_expires_at = granted_until now seconds\<rparr>,
      lk_grants := lk_grants s1 @ [(token, now, seconds)]\<rparr>)"
    using run p unfolding fetch_token_def q_def [symmetric]
    by (auto simp: bnd_def sync_defs Let_def split: sum.splits if_splits)
  then show "lark_client_ok c s'" and "\<And>token. r = Inr token \<Longrightarrow> used_in_time (lk_grants s') token now"
    using lark_client_ok_grant [OF s1(1), of k now] s1 now by (auto intro: used_when_granted)
qed

lemma get_token_ok:
  assumes ok: "lark_client_ok c s" and mono: "mono (lc_time c)" and run: "get_tenant_access_token c s = (r, s')"
  shows "lark_client_ok c s'" and "\<And>token. r = Inr token \<Longrightarrow> token \<in> fst ` set (lk_uses s')"
proof -
  let ?now = "lc_time c (lk_clock s)" and ?s = "s\<lparr>lk_clock := Suc (lk_clock s)\<rparr>"
  define inner where "inner = (case lk_cached s of None \<Rightarrow> fetch_token c ?now
    | Some t \<Rightarrow> if 60 * 1000000 < ct_expires_at t - ?now then return (ct_value t) else fetch_token c ?now)"
  obtain p t where pt: "inner ?s = (p, t)"
    by (cases "inner ?s")
  have tick: "lark_client_ok c ?s"
    using ok by (rule lark_client_ok_tick)
  have fetched: "lark_client_ok c t \<and> (\<forall>token. p = Inr token \<longrightarrow> used_in_time (lk_grants t) token ?now)"
  proof (cases "\<exists>v. lk_cached s = Some v \<and> 60 * 1000000 < ct_expires_at v - ?now")
    case True
    then show ?thesis
      using pt tick cached_in_time [OF ok mono] by (auto simp: inner_def return_def)
  next
    case False
    then have "inner = fetch_token c ?now"
      by (auto simp: inner_def split: option.split)
    then show ?thesis
      using pt fetch_token_ok [OF tick, of "lk_clock s" ?now] by auto
  qed
  have "get_tenant_access_token c s = (case p of Inl e \<Rightarrow> (Inl e, t)
      | Inr token \<Rightarrow> (Inr token, t\<lparr>lk_uses := lk_uses t @ [(token, ?now)]\<rparr>))"
    using pt by (simp add: get_tenant_access_token_def lark_now_def bnd_def sync_defs inner_def split: sum.split)
  then show "lark_client_ok c s'" and "\<And>token. r = Inr token \<Longrightarrow> token \<in> fst ` set (lk_uses s')"
    using run fetched by (auto split: sum.splits intro: lark_client_ok_use)
qed

lemma send_rendered_ok:
  assumes ok: "lark_client_ok c s" and mono: "mono (lc_time c)"
  shows "lark_client_ok c (snd (send_rendered c message s))"
proof -
  obtain r t where rt: "get_tenant_access_token c s = (r, t)"
    by (cases "get_tenant_access_token c s")
  show ?thesis
  proof (cases r)
    case (Inl e)
    then show ?thesis
      using get_token_ok(1) [OF ok mono rt] rt by (simp add: send_rendered_def bnd_def)
  next
    case (Inr token)
    define q where "q = MessageRequest (api_base c @ ''/open-apis/im/v1/messages'') (lc_receive_id_type c) token
      (build_api_payload (lc_receive_id c) message)"
    have "lark_client_ok c (t\<lparr>lk_requests := lk_requests t @ [q]\<rparr>)"
      using get_token_ok [OF ok mono rt] Inr
      by (intro lark_client_ok_request) (auto simp: q_def carried_token_def)
    moreover obtain p where "api_post c ''Failed to send Lark message'' q t = (p, t\<lparr>lk_requests := lk_requests t @ [q]\<rparr>)"
      using api_post_run by blast
    then have "snd (send_rendered c message s) = t\<lparr>lk_requests := lk_requests t @ [q]\<rparr>"
      using rt Inr by (simp add: send_rendered_def q_def [symmetric] bnd_def sync_defs split: sum.split)
    ultimately show ?thesis
      by simp
  qed
qed

lemma new_lark_client_ok: "lark_client_ok c new_lark_client"
  by (simp add: lark_client_ok_def new_lark_client_def)

lemma client_life_ok: "client_life c s \<Longrightarrow> mono (lc_time c) \<Longrightarrow> lark_client_ok c s"
  by (induction rule: client_life.induct) (auto intro: send_rendered_ok new_lark_client_ok)


definition ex_lark :: lark_client_config where
  "ex_lark = \<lparr>lc_app_id = ''app'', lc_app_secret = ''s'', lc_receive_id = ''oc_1'', lc_receive_id_type = ''chat_id'',
     lc_base_url = ''https://open.feishu.cn/'', lc_format = FText, lc_tail_lines = 40,
     lc_post = (\<lambda>n q. Inr \<lparr>ar_status = 200, ar_json = Inr (JObj (if carried_token q = None
       then [(''tenant_access_token'', JStr ''t-1''), (''expire'', JInt 300)]
       else [(''data'', JObj [(''message_id'', JStr ''om_1'')])]))\<rparr>),
     lc_http_error = (\<lambda>e. False), lc_int_of = (\<lambda>_. value_error []), lc_time = (\<lambda>n. int n * 100000000)\<rparr>"

definition ex_lark_life :: lark_client where
  "ex_lark_life = snd (send_text ex_lark [] (snd (send_text ex_lark [] new_lark_client)))"


text \<open>
  What a caller has to expect: a send that returns has posted the message and was given an identifier; a
  failure of the HTTP library or an answer that is not understood is the client's own error.
\<close>

lemma send_rendered_returns:
  assumes "send_rendered c message s = (Inr message_id, s')"
  shows "message_id \<noteq> [] \<and> carried_token (last (lk_requests s')) \<noteq> None"
proof -
  obtain r t where rt: "get_tenant_access_token c s = (r, t)"
    by (cases "get_tenant_access_token c s")
  with assms obtain token where token: "r = Inr token"
    by (cases r) (auto simp: send_rendered_def bnd_def)
  define q where "q = MessageRequest (api_base c @ ''/open-apis/im/v1/messages'') (lc_receive_id_type c) token
    (build_api_payload (lc_receive_id c) message)"
  obtain p where p: "api_post c ''Failed to send Lark message'' q t = (p, t\<lparr>lk_requests := lk_requests t @ [q]\<rparr>)"
    using api_post_run by blast
  then have "s' = t\<lparr>lk_requests := lk_requests t @ [q]\<rparr>" "\<exists>d. message_id_of d = Inr message_id"
    using assms rt token
    by (auto simp: send_rendered_def q_def [symmetric] bnd_def sync_defs split: sum.splits if_splits)
  then show ?thesis
    by (auto simp: q_def carried_token_def message_id_of_def nonempty_str_Some split: option.splits json.splits)
qed

text \<open>A lifetime that is no number is not the client's own error: the outbox worker reports its class.\<close>

lemma odd_lifetime_raises:
  assumes "lc_post c (length (lk_requests s)) (TokenRequest (api_base c @ ''/open-apis/auth/v3/tenant_access_token/internal'')
      (lc_app_id c) (lc_app_secret c)) =
    Inr \<lparr>ar_status = 200, ar_json = Inr (JObj [(''tenant_access_token'', JStr (t # ts)), (''expire'', JNull)])\<rparr>"
  shows "\<exists>m. fst (fetch_token c now s) = Inl (Exn ''TypeError'' m)"
  using assms by (simp add: fetch_token_def api_post_def bnd_def sync_defs safe_json_def jget_def api_failed_def has_key_def Let_def)

end
