(* ===== verification/Commands.thy ===== *)
theory Commands
  imports Launcher Lark_Client
begin

text \<open>
  The command line program, \<^verbatim>\<open>commands/app.py\<close>: the client of the local daemon, the interactive launch with its
  cleanup, the commands that send a notification, and the hook command. \<^verbatim>\<open>typer.BadParameter\<close> and
  \<^verbatim>\<open>typer.Exit\<close> are exceptions; the settings are read before, and HTTP, the native program and the parsing
  of events are parameters.
\<close>

subsection \<open>Requests to the daemon\<close>

datatype daemon_request_line = DaemonRequest string string "json option"

record command_world =
  cw_tokens :: token_world
  cw_http :: "nat \<Rightarrow> daemon_request_line \<Rightarrow> string \<Rightarrow> api_response outcome"
  cw_http_error :: "exn \<Rightarrow> bool"
  cw_tui :: tui_world
  cw_cwd :: string
  cw_codex_path :: string
  cw_python :: string

record command_state =
  cs_token_file :: "token_file option"
  cs_requests :: "(daemon_request_line \<times> string) list"

type_synonym 'a cmd = "(command_state, 'a) sync"

definition bad_parameter :: "string \<Rightarrow> exn" where
  "bad_parameter m = Exn ''BadParameter'' m"

definition is_bad_parameter :: "exn \<Rightarrow> bool" where
  "is_bad_parameter e \<longleftrightarrow> exn_type e = ''BadParameter''"

definition typer_exit :: "int \<Rightarrow> exn" where
  "typer_exit code = Exn ''Exit'' (show_int code)"

definition daemon_token :: "command_world \<Rightarrow> string cmd" where
  "daemon_token w = (\<lambda>s. case ensure_daemon_token (cw_tokens w) (cs_token_file s) of
     (r, f) \<Rightarrow> (r, s\<lparr>cs_token_file := f\<rparr>))"

definition http_send :: "command_world \<Rightarrow> daemon_request_line \<Rightarrow> api_response cmd" where
  "http_send w q = bnd (daemon_token w) (\<lambda>token s.
     (cw_http w (length (cs_requests s)) q (''Bearer '' @ token), s\<lparr>cs_requests := cs_requests s @ [(q, ''Bearer '' @ token)]\<rparr>))"

text \<open>\<^verbatim>\<open>raise_for_status\<close>: everything but a success is an exception of the HTTP library.\<close>

definition raise_for_status :: "api_response \<Rightarrow> api_response outcome" where
  "raise_for_status r = (if 200 \<le> ar_status r \<and> ar_status r < 300 then Inr r else Inl (Exn ''HTTPStatusError'' []))"

definition request_failed :: "command_world \<Rightarrow> exn \<Rightarrow> exn" where
  "request_failed w e =
     (if is_os_error e \<or> is_runtime_error e \<or> exn_type e = ''HTTPStatusError'' \<or> cw_http_error w e
      then bad_parameter (''Local Codex daemon request failed ('' @ exn_type e @ '').'')
      else e)"

definition daemon_request :: "command_world \<Rightarrow> string \<Rightarrow> string \<Rightarrow> json option \<Rightarrow> json cmd" where
  "daemon_request w request_method path json_body =
     catch (bnd (http_send w (DaemonRequest request_method path json_body)) (\<lambda>response.
            bnd (from_outcome (raise_for_status response)) (\<lambda>r. from_outcome (ar_json r))))
       (\<lambda>e. raise (request_failed w e))"

definition daemon_hook_request :: "command_world \<Rightarrow> hook_fields \<Rightarrow> unit cmd" where
  "daemon_hook_request w payload =
     bnd (http_send w (DaemonRequest ''POST'' ''/hooks'' (Some (JObj (fields_json payload))))) (\<lambda>response.
     bnd (from_outcome (raise_for_status response)) (\<lambda>_. return ()))"

subsection \<open>The interactive launch\<close>

definition PICKER_MESSAGE :: string where
  "PICKER_MESSAGE = ''Use resume --last or an explicit session ID; the remote session picker is unsupported; use --no-lark.''"

definition interactive_body :: "command_world \<Rightarrow> json" where
  "interactive_body w = JObj [(''name'', JStr ''interactive''), (''cwd'', JStr (cw_cwd w)), (''sandbox'', JStr ''workspace-write'')]"

definition create_descriptor :: "command_world \<Rightarrow> json_object cmd" where
  "create_descriptor w =
     bnd (catch (daemon_request w ''POST'' ''/interactive-sessions'' (Some (interactive_body w)))
            (\<lambda>e. raise (if is_bad_parameter e
               then bad_parameter ''Local Codex daemon is unavailable. Start it with `lark-bot daemon`, or use `lark-bot codex --no-lark`.''
               else e))) (\<lambda>v. case v of
        JObj d \<Rightarrow> return d
      | _ \<Rightarrow> raise (bad_parameter ''Local Codex daemon returned an invalid interactive session.''))"

definition descriptor_text :: "json_object \<Rightarrow> string \<Rightarrow> string outcome" where
  "descriptor_text d key = (if has_key d key then Inr (py_str_json (jget d key)) else Inl (Exn ''KeyError'' key))"

definition tui_exit_code :: "command_world \<Rightarrow> string list \<Rightarrow> json_object option \<Rightarrow> int outcome" where
  "tui_exit_code w args descriptor =
     (case (case descriptor of
          None \<Rightarrow> run_tui (cw_tui w) \<lparr>tu_args = args, tu_codex_path = cw_codex_path w,
            tu_callback_command = [], tu_remote_endpoint = None, tu_remote_auth_token = None\<rparr>
        | Some d \<Rightarrow> (case descriptor_text d ''endpoint'' of
              Inl e \<Rightarrow> Inl e
            | Inr endpoint \<Rightarrow> (case descriptor_text d ''remote_auth_token'' of
                  Inl e \<Rightarrow> Inl e
                | Inr token \<Rightarrow> run_tui (cw_tui w) \<lparr>tu_args = args, tu_codex_path = cw_codex_path w,
                    tu_callback_command = [cw_python w, ''-m'', ''lark_bot'', ''codex-hook''],
                    tu_remote_endpoint = Some endpoint, tu_remote_auth_token = Some token\<rparr>))) of
        Inr code \<Rightarrow> Inr code
      | Inl e \<Rightarrow> Inl (if exn_type e = ''FileNotFoundError'' then bad_parameter (exn_str e) else e))"

text \<open>The \<^verbatim>\<open>finally\<close> clause: a failure of the request is dropped.\<close>

definition delete_session :: "command_world \<Rightarrow> json_object option \<Rightarrow> unit cmd" where
  "delete_session w descriptor =
     (case descriptor of
        None \<Rightarrow> return ()
      | Some d \<Rightarrow>
          if \<not> has_key d ''session_id'' then return ()
          else catch (bnd (daemon_request w ''DELETE'' (''/interactive-sessions/'' @ py_str_json (jget d ''session_id'')) None) (\<lambda>_. return ()))
            (\<lambda>e. if is_plain_exception e then return () else raise e))"

definition run_codex_tui :: "command_world \<Rightarrow> string list \<Rightarrow> bool \<Rightarrow> unit cmd" where
  "run_codex_tui w args no_lark =
     (if \<not> no_lark \<and> uses_remote_resume_picker args then raise (bad_parameter PICKER_MESSAGE)
      else bnd (if no_lark then return None else bnd (create_descriptor w) (\<lambda>d. return (Some d))) (\<lambda>descriptor.
        let result = tui_exit_code w args descriptor in
        bnd (delete_session w descriptor) (\<lambda>_.
        bnd (from_outcome result) (\<lambda>exit_code. raise (typer_exit exit_code)))))"

subsection \<open>The session of an interactive launch is deleted\<close>

lemma daemon_token_run: "daemon_token w s =
    (fst (ensure_daemon_token (cw_tokens w) (cs_token_file s)),
     s\<lparr>cs_token_file := snd (ensure_daemon_token (cw_tokens w) (cs_token_file s))\<rparr>)"
  by (simp add: daemon_token_def split: prod.split)

text \<open>A request that is made is recorded with its token; without a token none is made.\<close>

lemma daemon_request_calls:
  assumes "daemon_request w m path body s = (r, s')"
  shows "case fst (ensure_daemon_token (cw_tokens w) (cs_token_file s)) of
      Inl e \<Rightarrow> cs_requests s' = cs_requests s \<and> (\<exists>e'. r = Inl e')
    | Inr token \<Rightarrow> cs_requests s' = cs_requests s @ [(DaemonRequest m path body, ''Bearer '' @ token)]"
    and "cs_token_file s' = snd (ensure_daemon_token (cw_tokens w) (cs_token_file s))"
  using assms
  by (auto simp: daemon_request_def catch_def bnd_def http_send_def daemon_token_run sync_defs split: sum.splits prod.splits)

text \<open>Once a request went through, the token file serves the next one.\<close>

lemma token_available:
  assumes "daemon_request w m path body s = (Inr v, s')"
  shows "\<exists>token. fst (ensure_daemon_token (cw_tokens w) (cs_token_file s')) = Inr token"
proof -
  let ?e = "ensure_daemon_token (cw_tokens w) (cs_token_file s)"
  obtain token where token: "fst ?e = Inr token"
    using daemon_request_calls(1) [OF assms] by (cases "fst ?e") auto
  then have "ensure_daemon_token (cw_tokens w) (cs_token_file s) = (Inr token, cs_token_file s')"
    using daemon_request_calls(2) [OF assms] by (simp add: prod_eq_iff)
  moreover have "\<not> tk_link (cw_tokens w)" "tk_chmod (cw_tokens w) = Inr ()"
    using token by (auto simp: ensure_daemon_token_def read_token_def map_prod_def Let_def
        split: if_splits option.splits sum.splits prod.splits)
  ultimately show ?thesis
    using token_is_stable by blast
qed

definition delete_line :: "json_object \<Rightarrow> daemon_request_line" where
  "delete_line d = DaemonRequest ''DELETE'' (''/interactive-sessions/'' @ py_str_json (jget d ''session_id'')) None"

lemma delete_session_run:
  assumes "has_key d ''session_id''" and "fst (ensure_daemon_token (cw_tokens w) (cs_token_file s)) = Inr token"
    and "delete_session w (Some d) s = (r, s')"
  shows "cs_requests s' = cs_requests s @ [(delete_line d, ''Bearer '' @ token)]"
    and "r = Inr () \<or> (\<exists>e. r = Inl e \<and> \<not> is_plain_exception e)"
proof -
  obtain q t where qt: "daemon_request w ''DELETE'' (''/interactive-sessions/'' @ py_str_json (jget d ''session_id'')) None s = (q, t)"
    by (cases "daemon_request w ''DELETE'' (''/interactive-sessions/'' @ py_str_json (jget d ''session_id'')) None s")
  have "cs_requests t = cs_requests s @ [(delete_line d, ''Bearer '' @ token)]"
    using daemon_request_calls(1) [OF qt] assms(2) by (simp add: delete_line_def)
  then show "cs_requests s' = cs_requests s @ [(delete_line d, ''Bearer '' @ token)]"
    and "r = Inr () \<or> (\<exists>e. r = Inl e \<and> \<not> is_plain_exception e)"
    using assms(1,3) qt by (auto simp: delete_session_def catch_def bnd_def sync_defs split: sum.splits if_splits)
qed


definition ex_commands :: command_world where
  "ex_commands = \<lparr>cw_tokens = \<lparr>tk_windows = False, tk_link = False, tk_create = Inr (),
       tk_random = replicate 43 (CHR ''x''), tk_chmod = Inr (), tk_chmod_works = True\<rparr>,
     cw_http = (\<lambda>n q h. if n = 0
       then Inr \<lparr>ar_status = 201, ar_json = Inr (JObj [(''session_id'', JStr ''s1''), (''endpoint'', JStr ''ws://127.0.0.1:1''),
         (''remote_auth_token'', JStr ''t'')])\<rparr>
       else Inl (Exn ''ConnectError'' [])),
     cw_http_error = (\<lambda>e. exn_type e = ''ConnectError''),
     cw_tui = \<lparr>tw_which = (\<lambda>_. Some ''/bin/codex''), tw_environ = [], tw_config = Inr [],
       tw_run = (\<lambda>_ _. Inl (Exn ''PermissionError'' []))\<rparr>,
     cw_cwd = ''/tmp'', cw_codex_path = ''codex'', cw_python = ''python''\<rparr>"


subsection \<open>Commands that send a notification\<close>

text \<open>
  What the program under \<^verbatim>\<open>lark-bot run\<close> did: its status, its two outputs and the time it took, or the
  exception of starting it.
\<close>

record finished_process =
  fp_returncode :: int
  fp_stdout :: string
  fp_stderr :: string
  fp_duration :: string

definition wrapped_command :: "string list \<Rightarrow> string list" where
  "wrapped_command args = (case args of [] \<Rightarrow> [] | a # rest \<Rightarrow> if a = ''--'' then rest else args)"

definition run_task ::
  "lark_settings \<Rightarrow> nat \<Rightarrow> (string list \<Rightarrow> finished_process outcome) \<Rightarrow> instant \<Rightarrow> instant \<Rightarrow> (notification_request \<Rightarrow> unit outcome) \<Rightarrow>
   string list \<Rightarrow> string \<Rightarrow> (notification_store, unit) sync" where
  "run_task c n execute now later sender args name =
     (let command = wrapped_command args in
      if command = [] then raise (bad_parameter ''Provide a command after --.'')
      else bnd (from_outcome (execute command)) (\<lambda>p.
        let task = run_command command name n (fp_returncode p) (fp_stdout p) (fp_stderr p) (fp_duration p);
            request = \<lparr>nr_task = task, nr_detection = detect_output (combined_tail_text task) (t_exit_code task), nr_context = None\<rparr>
        in bnd (send_with_dedupe c now later (sender request) request) (\<lambda>_. raise (typer_exit (t_exit_code task)))))"

text \<open>The text of the exception the command ends with, as the shell sees it.\<close>

lemma run_task_exit_code:
  assumes "wrapped_command args \<noteq> []" "execute (wrapped_command args) = Inr p" "missing_settings c = []"
    and "\<And>request. sender request = Inr ()"
  shows "fst (run_task c n execute now later sender args name st) = Inl (typer_exit (fp_returncode p))"
proof -
  have "validate_lark_settings c = Inr ()"
    using assms(3) by (simp add: validate_lark_settings_def)
  then show ?thesis
    using assms(1,2,4) by (simp add: run_task_def Let_def bnd_def sync_defs send_with_dedupe_def run_command_def)
qed

text \<open>A notification that fails takes the place of the exit status of the program that ran.\<close>

lemma failed_notification_hides_status:
  assumes "wrapped_command args \<noteq> []" "execute (wrapped_command args) = Inr p" "validate_lark_settings c = Inl e"
  shows "fst (run_task c n execute now later sender args name st) = Inl e"
  using assms by (simp add: run_task_def Let_def bnd_def sync_defs send_with_dedupe_def)

definition test_format :: "string option \<Rightarrow> string \<Rightarrow> string outcome" where
  "test_format requested configured =
     (case requested of
        None \<Rightarrow> Inr configured
      | Some f \<Rightarrow> (let normalized = py_casefold (py_strip f) in
          if normalized \<notin> {''card'', ''text''} then Inl (bad_parameter ''--format must be card or text'') else Inr normalized))"

definition test_request :: "string \<Rightarrow> notification_request" where
  "test_request message =
     \<lparr>nr_task = \<lparr>t_name = ''send-test'', t_command = [''lark-bot'', ''send-test''], t_exit_code = 0, t_duration = ''0'',
        t_stdout_tail = [message], t_stderr_tail = [], t_source = ''wrapper''\<rparr>,
      nr_detection = \<lparr>det_status = T_SUCCEEDED, det_tags = [''manual_test''], det_phrases = []\<rparr>, nr_context = None\<rparr>"

text \<open>\<^verbatim>\<open>codex-event\<close> and \<^verbatim>\<open>claude-event\<close>: a payload that is refused is a wrong argument.\<close>

definition event_command ::
  "lark_settings \<Rightarrow> notification_request outcome \<Rightarrow> instant \<Rightarrow> instant \<Rightarrow> (notification_request \<Rightarrow> unit outcome) \<Rightarrow>
   (notification_store, delivery) sync" where
  "event_command c built now later sender =
     (case built of
        Inl e \<Rightarrow> raise (if is_value_error e \<or> exn_type e = ''ValidationError'' then bad_parameter (exn_str e) else e)
      | Inr request \<Rightarrow> send_with_dedupe c now later (sender request) request)"

subsection \<open>Unattended sessions\<close>

definition codex_start :: "command_world \<Rightarrow> string outcome \<Rightarrow> string \<Rightarrow> string \<Rightarrow> string \<Rightarrow> string option \<Rightarrow> string \<Rightarrow> json cmd" where
  "codex_start w stdin prompt name cwd model sandbox =
     (if sandbox \<notin> {''read-only'', ''workspace-write''} then raise (bad_parameter ''sandbox must be read-only or workspace-write'')
      else bnd (from_outcome (if prompt = ''-'' then stdin else Inr prompt)) (\<lambda>body_text.
        daemon_request w ''POST'' ''/sessions''
          (Some (JObj [(''name'', JStr name), (''cwd'', JStr cwd), (''prompt'', JStr body_text),
             (''model'', (case model of None \<Rightarrow> JNull | Some m \<Rightarrow> JStr m)), (''sandbox'', JStr sandbox)]))))"

definition codex_list :: "command_world \<Rightarrow> string option \<Rightarrow> json cmd" where
  "codex_list w status = daemon_request w ''GET''
     (''/sessions'' @ (case status of None \<Rightarrow> [] | Some t \<Rightarrow> if t = [] then [] else ''?status='' @ t)) None"

definition codex_show :: "command_world \<Rightarrow> string \<Rightarrow> json cmd" where
  "codex_show w session_id = daemon_request w ''GET'' (''/sessions/'' @ session_id) None"

definition codex_cancel :: "command_world \<Rightarrow> string \<Rightarrow> json cmd" where
  "codex_cancel w session_id = daemon_request w ''POST'' (''/sessions/'' @ session_id @ ''/cancel'') None"

text \<open>The lines \<^verbatim>\<open>_emit_result\<close> prints; \<open>pretty\<close> is \<^verbatim>\<open>json.dumps\<close> with an indentation.\<close>

definition get_or :: "json_object \<Rightarrow> string \<Rightarrow> string \<Rightarrow> string" where
  "get_or d key missing = py_str_json (if has_key d key then jget d key else JStr missing)"

fun list_lines :: "json list \<Rightarrow> string list outcome" where
  "list_lines [] = Inr []"
| "list_lines (JObj d # rest) = map_sum id
     (\<lambda>ls. (py_str_json (jget d ''id'') @ ''  '' @ py_str_json (jget d ''status'') @ ''  '' @ py_str_json (jget d ''name'')) # ls)
     (list_lines rest)"
| "list_lines (_ # rest) = Inl (Exn ''AttributeError'' ''get'')"

definition emit_result :: "(json \<Rightarrow> string) \<Rightarrow> json \<Rightarrow> bool \<Rightarrow> string list outcome" where
  "emit_result pretty v json_output =
     (if json_output then Inr [pretty v]
      else (case v of
          JArr items \<Rightarrow> list_lines items
        | JObj d \<Rightarrow> Inr [py_rstrip (get_or d ''id'' ''ok'' @ ''  '' @ get_or d ''status'' ''ok'' @ ''  '' @ get_or d ''name'' [])]
        | _ \<Rightarrow> Inr []))"

subsection \<open>The hook command\<close>

definition hooks_check_command :: "fragment_file \<Rightarrow> unit outcome" where
  "hooks_check_command f = (case check_hooks f of
     Inl e \<Rightarrow> Inl e | Inr c \<Rightarrow> if c = HookInstalled then Inr () else Inl (typer_exit 1))"

definition codex_hook_command ::
  "(string \<Rightarrow> json outcome) \<Rightarrow> spool_env \<Rightarrow> (hook_fields \<Rightarrow> unit outcome) \<Rightarrow> (child_process \<Rightarrow> unit outcome) \<Rightarrow> environ \<Rightarrow>
   (nat \<Rightarrow> string outcome) \<Rightarrow> string list \<Rightarrow> (spool_file list \<times> child_process list, unit) sync" where
  "codex_hook_command loads v sender popen source reader args =
     (let argv = ''codex-hook'' # args in
      bnd (from_outcome (read_callback_stdin loads MAX_HOOK_BYTES argv reader)) (\<lambda>raw.
      bnd (\<lambda>(spool, children). case handle_callback loads v sender argv raw spool of (r, spool') \<Rightarrow> (r, (spool', children))) (\<lambda>_.
      bnd (\<lambda>(spool, children). case forward_existing_notify loads popen source argv raw children of
             (r, children') \<Rightarrow> (r, (spool, children'))) (\<lambda>_.
      return ()))))"

text \<open>
  The hook never fails Codex: whatever the callback, the daemon, the file system and the user's command do
  within their own classes of errors, the command returns.
\<close>

definition only_decode_errors :: "(string \<Rightarrow> json outcome) \<Rightarrow> bool" where
  "only_decode_errors loads \<longleftrightarrow> (\<forall>t e. loads t = Inl e \<longrightarrow> exn_type e = ''JSONDecodeError'')"

lemma parse_bounded_returns: "only_decode_errors loads \<Longrightarrow> \<exists>r. parse_bounded_json_object loads n raw = Inr r"
  by (auto simp: only_decode_errors_def parse_bounded_json_object_def hook_json_error_def split: sum.split json.split)

lemma first_object_returns:
  assumes "only_decode_errors loads"
  shows "\<exists>r. first_object loads raws = Inr r"
proof (induction raws)
  case (Cons raw raws)
  obtain r where "parse_bounded_json_object loads MAX_HOOK_BYTES raw = Inr r"
    using parse_bounded_returns assms by blast
  then show ?case
    using Cons.IH by (cases r) auto
qed simp

lemma returns_from_outcome: "\<exists>x. r = Inr x \<Longrightarrow> returns (from_outcome r)"
  by (auto simp: returns_def from_outcome_def)

lemma hook_command_returns:
  assumes json: "only_decode_errors loads" and reader: "\<And>n. \<exists>t. reader n = Inr t"
    and sender: "\<And>p e. sender p = Inl e \<Longrightarrow> is_plain_exception e"
    and files: "\<And>e. se_mkdir v = Inl e \<Longrightarrow> is_os_error e" "\<And>n t f e. se_write v n t = (f, Inl e) \<Longrightarrow> is_os_error e"
    and children: "\<And>p e. popen p = Inl e \<Longrightarrow> is_os_error e"
  shows "fst (codex_hook_command loads v sender popen source reader args st) = Inr ()"
proof -
  obtain raw where raw: "read_callback_stdin loads MAX_HOOK_BYTES (''codex-hook'' # args) reader = Inr raw"
  proof -
    obtain r where "parse_bounded_json_object loads MAX_HOOK_BYTES (last (''codex-hook'' # args)) = Inr r"
      using parse_bounded_returns json by blast
    then show thesis
      using that reader by (cases r) (force simp: read_callback_stdin_def)+
  qed
  have handled: "\<exists>b spool'. handle_callback loads v sender argv t spool = (Inr b, spool')" for argv t spool
  proof -
    obtain a where "first_object loads ((if argv = [] then [] else [last argv]) @ (if t = [] then [] else [t])) = Inr a"
      using first_object_returns [OF json] by blast
    then obtain r where "normalize_callback loads argv t = Inr r"
      unfolding normalize_callback_def by (cases a) simp_all
    then show ?thesis
      using sender files
      by (cases r) (auto simp: handle_callback_def bnd_def sync_defs deliver_sanitized_hook_def os_error_false_def
          split: sum.split prod.split)
  qed
  have forwarded: "\<exists>b cs'. forward_existing_notify loads popen source argv t cs = (Inr b, cs')" for argv t cs
  proof -
    have chain: "\<exists>x. (case loads raw_chain of
        Inl e \<Rightarrow> if exn_type e = ''JSONDecodeError'' then Inr None else Inl e | Inr v \<Rightarrow> Inr (command_parts v)) = Inr x" for raw_chain
      using json by (auto simp: only_decode_errors_def split: sum.split)
    have start: "returns (\<lambda>started_children. case popen child of
        Inr _ \<Rightarrow> (Inr True, started_children @ [child]) | Inl e \<Rightarrow> (os_error_false e, started_children))" for child
      using children by (auto simp: returns_def os_error_false_def split: sum.split)
    have "returns (forward_existing_notify loads popen source argv t)"
      unfolding forward_existing_notify_def Let_def
      by (intro returns_rules returns_from_outcome start chain first_object_returns [OF json])
    then show ?thesis
      unfolding returns_def by blast
  qed
  obtain spool cs where st: "st = (spool, cs)"
    by (cases st)
  obtain b spool' where h: "handle_callback loads v sender (''codex-hook'' # args) raw spool = (Inr b, spool')"
    using handled by blast
  obtain b' cs' where f: "forward_existing_notify loads popen source (''codex-hook'' # args) raw cs = (Inr b', cs')"
    using forwarded by blast
  show ?thesis
    using raw st h f by (simp add: codex_hook_command_def Let_def bnd_def sync_defs)
qed

end
