(* ===== verification/Codex_Probe.thy ===== *)
theory Codex_Probe
  imports Daemon_Worker
begin

text \<open>
  \<^verbatim>\<open>modules/codex/codex_probe.py\<close>: the diagnostic that finds out whether the installed app-server takes two remote
  clients, with the acquisition of its resources under cancellation. A socket is what it will deliver before the timeout, what was sent on it, and how its closing
  ends; the process, the listener and the connector are parameters. When nothing more is delivered the
  request in progress times out. The log of the state records what was closed and stopped.
\<close>

subsection \<open>One socket\<close>

record probe_socket =
  ps_incoming :: "string outcome list"
  ps_send :: "nat \<Rightarrow> unit outcome"
  ps_sent :: "json list"
  ps_close :: "unit outcome"

type_synonym 'a psync = "(probe_socket, 'a) sync"

definition send_json :: "json \<Rightarrow> unit psync" where
  "send_json m = (\<lambda>s. (ps_send s (length (ps_sent s)), s\<lparr>ps_sent := ps_sent s @ [m]\<rparr>))"

definition timeout_error :: exn where
  "timeout_error = Exn ''TimeoutError'' []"

definition rpc_failed :: exn where
  "rpc_failed = Exn ''RuntimeError'' ''Codex app-server RPC failed''"

text \<open>What a message is to the request in progress.\<close>

datatype probe_message = Ignored | Refuse json | RpcFailed | RpcResult json_object

definition read_message :: "int \<Rightarrow> json \<Rightarrow> probe_message" where
  "read_message request_id m =
     (case m of
        JObj message \<Rightarrow>
          if has_key message ''method'' then
            (if valid_id (jget message ''id'') \<noteq> None \<and> as_str (jget message ''method'') \<noteq> None
             then Refuse (JObj [(''id'', jget message ''id''),
                    (''error'', JObj [(''code'', JInt (- 32601)), (''message'', JStr ''Method not supported'')])])
             else Ignored)
          else if jget message ''id'' \<noteq> JInt request_id then Ignored
          else if has_key message ''result'' = has_key message ''error'' then Ignored
          else if has_key message ''error'' then RpcFailed
          else RpcResult (case jget message ''result'' of JObj r \<Rightarrow> r | _ \<Rightarrow> [])
      | _ \<Rightarrow> Ignored)"

fun await_response :: "(string \<Rightarrow> json outcome) \<Rightarrow> int \<Rightarrow> string outcome list \<Rightarrow> json_object psync" where
  "await_response loads request_id [] = bnd (modify (\<lambda>s. s\<lparr>ps_incoming := []\<rparr>)) (\<lambda>_. raise timeout_error)"
| "await_response loads request_id (Inl e # rest) = bnd (modify (\<lambda>s. s\<lparr>ps_incoming := rest\<rparr>)) (\<lambda>_. raise e)"
| "await_response loads request_id (Inr raw # rest) =
     (case loads raw of
        Inl e \<Rightarrow> bnd (modify (\<lambda>s. s\<lparr>ps_incoming := rest\<rparr>)) (\<lambda>_. raise e)
      | Inr m \<Rightarrow> (case read_message request_id m of
            Ignored \<Rightarrow> await_response loads request_id rest
          | Refuse answer \<Rightarrow> bnd (modify (\<lambda>s. s\<lparr>ps_incoming := rest\<rparr>)) (\<lambda>_.
              bnd (send_json answer) (\<lambda>_. await_response loads request_id rest))
          | RpcFailed \<Rightarrow> bnd (modify (\<lambda>s. s\<lparr>ps_incoming := rest\<rparr>)) (\<lambda>_. raise rpc_failed)
          | RpcResult r \<Rightarrow> bnd (modify (\<lambda>s. s\<lparr>ps_incoming := rest\<rparr>)) (\<lambda>_. return r)))"

definition rpc :: "(string \<Rightarrow> json outcome) \<Rightarrow> int \<Rightarrow> string \<Rightarrow> json_object \<Rightarrow> json_object psync" where
  "rpc loads request_id method_name params =
     bnd (send_json (JObj [(''id'', JInt request_id), (''method'', JStr method_name), (''params'', JObj params)])) (\<lambda>_.
     bnd (gets ps_incoming) (await_response loads request_id))"

definition initialize_client :: "(string \<Rightarrow> json outcome) \<Rightarrow> string \<Rightarrow> unit psync" where
  "initialize_client loads name =
     bnd (rpc loads 1 ''initialize'' [(''clientInfo'', JObj [(''name'', JStr name), (''title'', JStr ''Lark Bot Probe''),
            (''version'', JStr ''0.1.0'')])]) (\<lambda>_.
     send_json (JObj [(''method'', JStr ''initialized''), (''params'', JObj [])]))"

fun first_id :: "json list \<Rightarrow> string option" where
  "first_id [] = None"
| "first_id (row # rows) =
     (case row of
        JObj r \<Rightarrow> (case nonempty_str (jget r ''id'') of Some i \<Rightarrow> Some i | None \<Rightarrow> first_id rows)
      | _ \<Rightarrow> first_id rows)"

definition first_thread_id :: "json_object \<Rightarrow> string option" where
  "first_thread_id r =
     (case first_id (opt_or (as_arr (jget r ''data'')) []) of
        Some i \<Rightarrow> Some i
      | None \<Rightarrow> first_id (opt_or (as_arr (jget r ''items'')) []))"

subsection \<open>Two clients\<close>

record probe_result =
  pr_multi_client :: bool
  pr_both_initialized :: bool
  pr_both_listed_threads :: bool
  pr_resume_attempted :: bool
  pr_resume_succeeded :: bool
  pr_primary_survived :: bool
  pr_error_type :: "string option"
  pr_codex_version :: "string option"

definition empty_result :: probe_result where
  "empty_result = \<lparr>pr_multi_client = False, pr_both_initialized = False, pr_both_listed_threads = False,
     pr_resume_attempted = False, pr_resume_succeeded = False, pr_primary_survived = False,
     pr_error_type = None, pr_codex_version = None\<rparr>"

definition failed_result :: "exn \<Rightarrow> probe_result" where
  "failed_result e = empty_result\<lparr>pr_error_type := Some (exn_type e)\<rparr>"

datatype probe_event = ClosedPrimary | ClosedSecondary | StoppedProcess

record probe_state =
  pb_primary :: probe_socket
  pb_secondary :: probe_socket
  pb_flags :: probe_result
  pb_log :: "probe_event list"

type_synonym 'a bsync = "(probe_state, 'a) sync"

definition on_primary :: "'a psync \<Rightarrow> 'a bsync" where
  "on_primary m = (\<lambda>b. case m (pb_primary b) of (r, s) \<Rightarrow> (r, b\<lparr>pb_primary := s\<rparr>))"

definition on_secondary :: "'a psync \<Rightarrow> 'a bsync" where
  "on_secondary m = (\<lambda>b. case m (pb_secondary b) of (r, s) \<Rightarrow> (r, b\<lparr>pb_secondary := s\<rparr>))"

definition set_flag :: "(probe_result \<Rightarrow> probe_result) \<Rightarrow> unit bsync" where
  "set_flag f = modify (\<lambda>b. b\<lparr>pb_flags := f (pb_flags b)\<rparr>)"

definition close_secondary :: "unit bsync" where
  "close_secondary = (\<lambda>b. (ps_close (pb_secondary b), b\<lparr>pb_log := pb_log b @ [ClosedSecondary]\<rparr>))"

definition close_primary :: "unit bsync" where
  "close_primary = (\<lambda>b. (ps_close (pb_primary b), b\<lparr>pb_log := pb_log b @ [ClosedPrimary]\<rparr>))"

text \<open>\<^verbatim>\<open>try\<close>/\<^verbatim>\<open>finally\<close>: the last clause runs in any case, and its exception wins.\<close>

definition finally_do :: "('s, 'a) sync \<Rightarrow> ('s, unit) sync \<Rightarrow> ('s, 'a) sync" where
  "finally_do m f = (\<lambda>s. case m s of (r, s') \<Rightarrow> (case f s' of (Inl e, s'') \<Rightarrow> (Inl e, s'') | (Inr _, s'') \<Rightarrow> (r, s'')))"

definition list_and_resume :: "(string \<Rightarrow> json outcome) \<Rightarrow> unit bsync" where
  "list_and_resume loads =
     bnd (on_primary (rpc loads 2 ''thread/list'' [])) (\<lambda>primary_list.
     bnd (on_secondary (rpc loads 2 ''thread/list'' [])) (\<lambda>secondary_list.
     bnd (set_flag (\<lambda>r. r\<lparr>pr_both_listed_threads := True\<rparr>)) (\<lambda>_.
     case (case first_thread_id secondary_list of Some i \<Rightarrow> Some i | None \<Rightarrow> first_thread_id primary_list) of
       None \<Rightarrow> return ()
     | Some thread_id \<Rightarrow>
         bnd (set_flag (\<lambda>r. r\<lparr>pr_resume_attempted := True\<rparr>)) (\<lambda>_.
         bnd (on_secondary (rpc loads 3 ''thread/resume'' [(''threadId'', JStr thread_id)])) (\<lambda>_.
         set_flag (\<lambda>r. r\<lparr>pr_resume_succeeded := True\<rparr>))))))"

definition probe_body :: "(string \<Rightarrow> json outcome) \<Rightarrow> unit bsync" where
  "probe_body loads =
     bnd (on_primary (initialize_client loads ''lark_bot_probe_primary'')) (\<lambda>_.
     bnd (on_secondary (initialize_client loads ''lark_bot_probe_secondary'')) (\<lambda>_.
     bnd (set_flag (\<lambda>r. r\<lparr>pr_multi_client := True, pr_both_initialized := True\<rparr>)) (\<lambda>_.
     bnd (finally_do (list_and_resume loads) close_secondary) (\<lambda>_.
     bnd (on_primary (rpc loads 3 ''thread/list'' [])) (\<lambda>_.
     set_flag (\<lambda>r. r\<lparr>pr_primary_survived := True\<rparr>))))))"

definition probe_remote_clients :: "(string \<Rightarrow> json outcome) \<Rightarrow> probe_result bsync" where
  "probe_remote_clients loads =
     bnd (modify (\<lambda>b. b\<lparr>pb_flags := empty_result\<rparr>)) (\<lambda>_.
     catch (bnd (probe_body loads) (\<lambda>_. gets pb_flags))
       (\<lambda>e. if is_plain_exception e then gets (\<lambda>b. (pb_flags b)\<lparr>pr_error_type := Some (exn_type e)\<rparr>) else raise e))"

subsection \<open>The local probe\<close>

record probe_world =
  pw_which :: "string option outcome"
  pw_version :: "string outcome"
  pw_endpoint :: "string outcome"
  pw_process :: "unit outcome"
  pw_listener :: "unit outcome"
  pw_primary :: "unit outcome"
  pw_secondary :: "unit outcome"
  pw_stop :: "unit outcome"

definition stop_probe_process :: "probe_world \<Rightarrow> unit bsync" where
  "stop_probe_process w = (\<lambda>b. (pw_stop w, b\<lparr>pb_log := pb_log b @ [StoppedProcess]\<rparr>))"

definition ignore_exception :: "unit bsync \<Rightarrow> unit bsync" where
  "ignore_exception m = catch m (\<lambda>e. if is_plain_exception e then return () else raise e)"

text \<open>
  The three resources in order; each is released by the \<^verbatim>\<open>finally\<close> clause once it was acquired: the sockets
  first, in reverse order, whatever ordinary exception their closing raises, then the process.
\<close>

definition with_secondary :: "probe_world \<Rightarrow> (string \<Rightarrow> json outcome) \<Rightarrow> string \<Rightarrow> probe_result bsync" where
  "with_secondary w loads version =
     bnd (probe_remote_clients loads) (\<lambda>r. return (r\<lparr>pr_codex_version := Some version\<rparr>))"

definition probe_failed :: "string \<Rightarrow> exn \<Rightarrow> probe_result bsync" where
  "probe_failed version e =
     (if is_plain_exception e then return ((failed_result e)\<lparr>pr_codex_version := Some version\<rparr>) else raise e)"

definition release_resources :: "probe_world \<Rightarrow> bool \<Rightarrow> bool \<Rightarrow> bool \<Rightarrow> unit bsync" where
  "release_resources w process primary secondary =
     bnd (if secondary then ignore_exception close_secondary else return ()) (\<lambda>_.
     bnd (if primary then ignore_exception close_primary else return ()) (\<lambda>_.
     if process then stop_probe_process w else return ()))"

definition acquired_resources :: "probe_world \<Rightarrow> bool \<times> bool \<times> bool" where
  "acquired_resources w =
     (case pw_endpoint w of Inl _ \<Rightarrow> (False, False, False) | Inr _ \<Rightarrow>
     (case pw_process w of Inl _ \<Rightarrow> (False, False, False) | Inr _ \<Rightarrow>
     (case pw_listener w of Inl _ \<Rightarrow> (True, False, False) | Inr _ \<Rightarrow>
     (case pw_primary w of Inl _ \<Rightarrow> (True, False, False) | Inr _ \<Rightarrow>
     (case pw_secondary w of Inl _ \<Rightarrow> (True, True, False) | Inr _ \<Rightarrow> (True, True, True))))))"

definition probe_steps :: "probe_world \<Rightarrow> (string \<Rightarrow> json outcome) \<Rightarrow> string \<Rightarrow> probe_result bsync" where
  "probe_steps w loads version =
     bnd (from_outcome (pw_endpoint w)) (\<lambda>_.
     bnd (from_outcome (pw_process w)) (\<lambda>_.
     bnd (from_outcome (pw_listener w)) (\<lambda>_.
     bnd (from_outcome (pw_primary w)) (\<lambda>_.
     bnd (from_outcome (pw_secondary w)) (\<lambda>_. with_secondary w loads version)))))"

definition run_local_probe :: "probe_world \<Rightarrow> (string \<Rightarrow> json outcome) \<Rightarrow> probe_result bsync" where
  "run_local_probe w loads =
     (case pw_which w of
        Inl e \<Rightarrow> if is_plain_exception e then return (failed_result e) else raise e
      | Inr None \<Rightarrow> return (failed_result (Exn ''FileNotFoundError'' []))
      | Inr (Some executable) \<Rightarrow>
          bnd (from_outcome (case pw_version w of
            Inr v \<Rightarrow> Inr v | Inl e \<Rightarrow> if is_plain_exception e then Inr ''unknown'' else Inl e)) (\<lambda>version.
          case acquired_resources w of (process, primary, secondary) \<Rightarrow>
            finally_do (catch (probe_steps w loads version) (probe_failed version)) (release_resources w process primary secondary)))"

subsection \<open>What the probe reports\<close>

text \<open>
  The result only ever claims more as the exchange goes on, and an error is reported exactly when the primary
  client was not seen alive at the end.
\<close>

definition report_consistent :: "probe_result \<Rightarrow> bool" where
  "report_consistent r \<longleftrightarrow>
     pr_multi_client r = pr_both_initialized r \<and>
     (pr_both_listed_threads r \<longrightarrow> pr_both_initialized r) \<and>
     (pr_resume_attempted r \<longrightarrow> pr_both_listed_threads r) \<and>
     (pr_resume_succeeded r \<longrightarrow> pr_resume_attempted r) \<and>
     (pr_primary_survived r \<longrightarrow> pr_both_listed_threads r \<and> pr_resume_attempted r = pr_resume_succeeded r)"

definition same_report :: "probe_state \<Rightarrow> probe_state \<Rightarrow> bool" where
  "same_report b b' \<longleftrightarrow> pb_flags b' = pb_flags b \<and> pb_log b' = pb_log b"

lemma same_report_sockets: "same_report b (snd (on_primary m b))" "same_report b (snd (on_secondary n b))"
  by (simp_all add: same_report_def on_primary_def on_secondary_def split: prod.split)

lemma on_primary_cases:
  assumes "on_primary m b = (r, b')"
  shows "pb_flags b' = pb_flags b \<and> pb_log b' = pb_log b"
  using same_report_sockets(1) [of b m] assms by (simp add: same_report_def)

lemma on_secondary_cases:
  assumes "on_secondary m b = (r, b')"
  shows "pb_flags b' = pb_flags b \<and> pb_log b' = pb_log b"
  using same_report_sockets(2) [of b m] assms by (simp add: same_report_def)

lemma list_and_resume_report:
  assumes "list_and_resume loads b = (r, b')" and "report_consistent (pb_flags b)"
    and "pr_both_initialized (pb_flags b)" "\<not> pr_primary_survived (pb_flags b)" "\<not> pr_resume_attempted (pb_flags b)"
  shows "report_consistent (pb_flags b') \<and> pb_log b' = pb_log b \<and> \<not> pr_primary_survived (pb_flags b') \<and>
    pr_both_initialized (pb_flags b') \<and> pr_error_type (pb_flags b') = pr_error_type (pb_flags b) \<and>
    (r = Inr () \<longrightarrow> pr_both_listed_threads (pb_flags b') \<and> pr_resume_attempted (pb_flags b') = pr_resume_succeeded (pb_flags b'))"
proof -
  obtain r1 b1 where 1: "on_primary (rpc loads 2 ''thread/list'' []) b = (r1, b1)"
    by (cases "on_primary (rpc loads 2 ''thread/list'' []) b")
  obtain r2 b2 where 2: "on_secondary (rpc loads 2 ''thread/list'' []) b1 = (r2, b2)"
    by (cases "on_secondary (rpc loads 2 ''thread/list'' []) b1")
  have same: "pb_flags b2 = pb_flags b" "pb_log b2 = pb_log b" "pb_flags b1 = pb_flags b" "pb_log b1 = pb_log b"
    using on_primary_cases [OF 1] on_secondary_cases [OF 2] by simp_all
  show ?thesis
  proof (cases r1)
    case (Inl e)
    then show ?thesis using assms 1 same by (auto simp: list_and_resume_def bnd_def)
  next
    case p: (Inr pl)
    show ?thesis
    proof (cases r2)
      case (Inl e)
      then show ?thesis using assms 1 2 p same by (auto simp: list_and_resume_def bnd_def)
    next
      case s: (Inr sl)
      define b3 where "b3 = b2\<lparr>pb_flags := (pb_flags b2)\<lparr>pr_both_listed_threads := True\<rparr>\<rparr>"
      define t where "t = (case first_thread_id sl of Some i \<Rightarrow> Some i | None \<Rightarrow> first_thread_id pl)"
      have run: "list_and_resume loads b = (case t of None \<Rightarrow> return () | Some thread_id \<Rightarrow>
          bnd (set_flag (\<lambda>r. r\<lparr>pr_resume_attempted := True\<rparr>)) (\<lambda>_.
          bnd (on_secondary (rpc loads 3 ''thread/resume'' [(''threadId'', JStr thread_id)])) (\<lambda>_.
          set_flag (\<lambda>r. r\<lparr>pr_resume_succeeded := True\<rparr>)))) b3"
        using 1 2 p s by (simp add: list_and_resume_def bnd_def set_flag_def modify_def b3_def t_def)
      show ?thesis
      proof (cases t)
        case None
        then show ?thesis
          using assms run same by (auto simp: return_def b3_def report_consistent_def)
      next
        case (Some i)
        define b4 where "b4 = b3\<lparr>pb_flags := (pb_flags b3)\<lparr>pr_resume_attempted := True\<rparr>\<rparr>"
        obtain r5 b5 where 5: "on_secondary (rpc loads 3 ''thread/resume'' [(''threadId'', JStr i)]) b4 = (r5, b5)"
          by (cases "on_secondary (rpc loads 3 ''thread/resume'' [(''threadId'', JStr i)]) b4")
        have "(r, b') = (case r5 of Inl e \<Rightarrow> (Inl e, b5) | Inr _ \<Rightarrow>
            (Inr (), b5\<lparr>pb_flags := (pb_flags b5)\<lparr>pr_resume_succeeded := True\<rparr>\<rparr>))"
          using assms(1) run Some 5 by (simp add: bnd_def set_flag_def modify_def b4_def split: sum.split)
        then show ?thesis
          using assms(2-) same on_secondary_cases [OF 5]
          by (auto simp: b3_def b4_def report_consistent_def split: sum.splits)
      qed
    qed
  qed
qed

lemma probe_body_report:
  assumes "probe_body loads b = (q, b')" and "pb_flags b = empty_result"
  shows "report_consistent (pb_flags b') \<and> pr_primary_survived (pb_flags b') = (q = Inr ()) \<and> pr_error_type (pb_flags b') = None \<and>
    pb_log b' = pb_log b @ (if pr_both_initialized (pb_flags b') then [ClosedSecondary] else [])"
proof -
  obtain r1 b1 where 1: "on_primary (initialize_client loads ''lark_bot_probe_primary'') b = (r1, b1)"
    by (cases "on_primary (initialize_client loads ''lark_bot_probe_primary'') b")
  obtain r2 b2 where 2: "on_secondary (initialize_client loads ''lark_bot_probe_secondary'') b1 = (r2, b2)"
    by (cases "on_secondary (initialize_client loads ''lark_bot_probe_secondary'') b1")
  have same: "pb_flags b1 = empty_result" "pb_log b1 = pb_log b" "pb_flags b2 = empty_result" "pb_log b2 = pb_log b"
    using on_primary_cases [OF 1] on_secondary_cases [OF 2] assms(2) by simp_all
  define b3 where "b3 = b2\<lparr>pb_flags := empty_result\<lparr>pr_multi_client := True, pr_both_initialized := True\<rparr>\<rparr>"
  obtain r4 b4 where 4: "list_and_resume loads b3 = (r4, b4)"
    by (cases "list_and_resume loads b3")
  have b3: "report_consistent (pb_flags b3)" "pr_both_initialized (pb_flags b3)" "\<not> pr_primary_survived (pb_flags b3)"
    "\<not> pr_resume_attempted (pb_flags b3)" "pr_error_type (pb_flags b3) = None" "pb_log b3 = pb_log b"
    using same by (simp_all add: b3_def report_consistent_def empty_result_def)
  note report = list_and_resume_report [OF 4 b3(1-4)]
  define b5 where "b5 = b4\<lparr>pb_log := pb_log b4 @ [ClosedSecondary]\<rparr>"
  obtain q4 where fin: "finally_do (list_and_resume loads) close_secondary b3 = (q4, b5)" "q4 = Inr () \<Longrightarrow> r4 = Inr ()"
    using 4 by (cases "ps_close (pb_secondary b4)") (simp_all add: finally_do_def close_secondary_def b5_def)
  have flagged: "set_flag (\<lambda>r. r\<lparr>pr_multi_client := True, pr_both_initialized := True\<rparr>) b2 = (Inr (), b3)"
    using same by (simp add: set_flag_def modify_def b3_def)
  obtain r6 b6 where 6: "on_primary (rpc loads 3 ''thread/list'' []) b5 = (r6, b6)"
    by (cases "on_primary (rpc loads 3 ''thread/list'' []) b5")
  define b7 where "b7 = b6\<lparr>pb_flags := (pb_flags b6)\<lparr>pr_primary_survived := True\<rparr>\<rparr>"
  have survived: "set_flag (\<lambda>r. r\<lparr>pr_primary_survived := True\<rparr>) b6 = (Inr (), b7)"
    by (simp add: set_flag_def modify_def b7_def)
  have f5: "pb_flags b5 = pb_flags b4" "pb_log b5 = pb_log b @ [ClosedSecondary]"
    using report b3(6) by (simp_all add: b5_def)
  have f6: "pb_flags b6 = pb_flags b4" "pb_log b6 = pb_log b @ [ClosedSecondary]"
    using on_primary_cases [OF 6] f5 by simp_all
  have empty: "report_consistent empty_result" "\<not> pr_primary_survived empty_result" "pr_error_type empty_result = None"
    "\<not> pr_both_initialized empty_result"
    by (simp_all add: report_consistent_def empty_result_def)
  have run: "(q, b') = (case r1 of Inl e \<Rightarrow> (Inl e, b1) | Inr _ \<Rightarrow> (case r2 of Inl e \<Rightarrow> (Inl e, b2) | Inr _ \<Rightarrow>
      (case q4 of Inl e \<Rightarrow> (Inl e, b5) | Inr _ \<Rightarrow> (case r6 of Inl e \<Rightarrow> (Inl e, b6) | Inr _ \<Rightarrow>
        (Inr (), b7)))))"
    unfolding assms(1) [symmetric] probe_body_def
    by (cases r1; cases r2; cases q4; cases r6) (simp_all add: bnd_def 1 2 fin(1) 6 flagged survived)
  consider (first) "\<exists>e. q = Inl e" "b' = b1" | (second) "\<exists>e. q = Inl e" "b' = b2" | (third) "\<exists>e. q = Inl e" "b' = b5"
    | (fourth) "r4 = Inr ()" "\<exists>e. q = Inl e" "b' = b6"
    | (returned) "r4 = Inr ()" "q = Inr ()" "b' = b7"
    using run fin(2) by (cases r1; cases r2; cases q4; cases r6) auto
  then show ?thesis
  proof cases
    case first
    then show ?thesis using same(1,2) empty by auto
  next
    case second
    then show ?thesis using same(3,4) empty by auto
  next
    case third
    then show ?thesis using report f5 b3(5) by auto
  next
    case fourth
    then show ?thesis using report f6 b3(5) by auto
  next
    case returned
    then have "report_consistent (pb_flags b')"
      using report f6 by (simp add: b7_def report_consistent_def)
    then show ?thesis
      using returned report f6 b3(5) by (simp add: b7_def)
  qed
qed

text \<open>A response is taken only from a message with exactly that identifier; everything else is passed over.\<close>

lemma await_response_correlated:
  "await_response loads i frames s = (Inr r, s') \<Longrightarrow>
   \<exists>raw m. Inr raw \<in> set frames \<and> loads raw = Inr (JObj m) \<and> jget m ''id'' = JInt i \<and> \<not> has_key m ''method'' \<and>
     has_key m ''result'' \<and> \<not> has_key m ''error'' \<and> r = (case jget m ''result'' of JObj v \<Rightarrow> v | _ \<Rightarrow> [])"
proof (induction loads i frames arbitrary: s rule: await_response.induct)
  case (3 loads i raw rest)
  then obtain m where m: "loads raw = Inr m"
    by (cases "loads raw") (auto simp: bnd_def sync_defs)
  show ?case
  proof (cases "read_message i m")
    case Ignored
    then show ?thesis using 3 m by fastforce
  next
    case (Refuse answer)
    then obtain s1 where "await_response loads i rest s1 = (Inr r, s')"
      using "3.prems" m by (auto simp: bnd_def sync_defs split: sum.splits prod.splits)
    then show ?thesis using "3.IH"(2) [OF m Refuse] by fastforce
  next
    case RpcFailed
    then show ?thesis using "3.prems" m by (auto simp: bnd_def sync_defs)
  next
    case (RpcResult v)
    then have "r = v"
      using "3.prems" m by (auto simp: bnd_def sync_defs)
    moreover obtain d where "m = JObj d" "jget d ''id'' = JInt i" "\<not> has_key d ''method''" "has_key d ''result''"
      "\<not> has_key d ''error''" "v = (case jget d ''result'' of JObj r \<Rightarrow> r | _ \<Rightarrow> [])"
      using RpcResult by (cases m) (simp_all add: read_message_def split: if_splits)
    ultimately show ?thesis
      using m by (intro exI [of _ raw] exI [of _ d]) simp
  qed
qed (auto simp: bnd_def sync_defs)

text \<open>
  The report is consistent; both clients count as accepted exactly when both handshakes went through, in which
  case the second one was closed, once; and there is no error exactly when the first one still answered at
  the end.
\<close>

theorem probe_report_consistent:
  assumes "probe_remote_clients loads b = (Inr r, b')"
  shows "report_consistent r \<and> (pr_error_type r = None \<longleftrightarrow> pr_primary_survived r) \<and>
    pb_log b' = pb_log b @ (if pr_both_initialized r then [ClosedSecondary] else [])"
proof -
  define b0 where "b0 = b\<lparr>pb_flags := empty_result\<rparr>"
  obtain q b9 where body: "probe_body loads b0 = (q, b9)"
    by (cases "probe_body loads b0")
  have rb: "b' = b9" "(q = Inr () \<and> r = pb_flags b9) \<or> (\<exists>e. q = Inl e \<and> r = (pb_flags b9)\<lparr>pr_error_type := Some (exn_type e)\<rparr>)"
    using assms body
    by (auto simp: probe_remote_clients_def bnd_def catch_def sync_defs b0_def split: sum.splits if_splits)
  have "report_consistent (pb_flags b9) \<and> pr_primary_survived (pb_flags b9) = (q = Inr ()) \<and> pr_error_type (pb_flags b9) = None \<and>
    pb_log b9 = pb_log b @ (if pr_both_initialized (pb_flags b9) then [ClosedSecondary] else [])"
    using probe_body_report [OF body] by (simp add: b0_def)
  then show ?thesis
    using rb by (auto simp: report_consistent_def)
qed

text \<open>
  What was acquired is released, in reverse order, whatever the probe did: the sockets and then the process.
  (Closing a socket raises nothing but ordinary exceptions.)
\<close>

lemma release_log:
  assumes "\<And>e. ps_close (pb_primary b) = Inl e \<Longrightarrow> is_plain_exception e"
    and "\<And>e. ps_close (pb_secondary b) = Inl e \<Longrightarrow> is_plain_exception e"
  shows "pb_log (snd (release_resources w p c1 c2 b)) = pb_log b @ (if c2 then [ClosedSecondary] else []) @
    (if c1 then [ClosedPrimary] else []) @ (if p then [StoppedProcess] else [])"
proof -
  have second: "ignore_exception close_secondary b = (Inr (), b\<lparr>pb_log := pb_log b @ [ClosedSecondary]\<rparr>)"
    using assms(2) by (auto simp: ignore_exception_def close_secondary_def catch_def sync_defs split: sum.split)
  have first: "ignore_exception close_primary (b\<lparr>pb_log := l\<rparr>) = (Inr (), b\<lparr>pb_log := l @ [ClosedPrimary]\<rparr>)" for l
    using assms(1) by (auto simp: ignore_exception_def close_primary_def catch_def sync_defs split: sum.split)
  show ?thesis
    using second first [of "pb_log b"] first [of "pb_log b @ [ClosedSecondary]"]
    by (cases c1; cases c2; cases p) (simp_all add: release_resources_def bnd_def sync_defs stop_probe_process_def)
qed

text \<open>The exchange never changes how a socket closes.\<close>

lemma socket_keeps_close: "keeps (\<lambda>s. ps_close s = c) (send_json m)"
    "keeps (\<lambda>s. ps_close s = c) (await_response loads i frames)"
    "keeps (\<lambda>s. ps_close s = c) (rpc loads i k params)"
    "keeps (\<lambda>s. ps_close s = c) (initialize_client loads name)"
proof -
  show send: "keeps (\<lambda>s. ps_close s = c) (send_json m)" for m
    by (simp add: keeps_def send_json_def)
  have drop: "keeps (\<lambda>s. ps_close s = c) (modify (\<lambda>s. s\<lparr>ps_incoming := l\<rparr>))" for l
    by (simp add: keeps_def modify_def)
  show wait: "keeps (\<lambda>s. ps_close s = c) (await_response loads i frames)" for i frames
  proof (induction loads i frames rule: await_response.induct)
    case (3 loads i raw rest)
    then show ?case
      by (cases "loads raw"; cases "read_message i (projr (loads raw))")
        (auto intro!: keeps_bnd drop send)
  qed (auto intro!: keeps_bnd drop)
  show rpc: "keeps (\<lambda>s. ps_close s = c) (rpc loads i k params)" for i k params
    unfolding rpc_def by (intro keeps_rules send wait)
  show "keeps (\<lambda>s. ps_close s = c) (initialize_client loads name)"
    unfolding initialize_client_def by (intro keeps_rules send rpc)
qed

definition closes_with :: "unit outcome \<Rightarrow> unit outcome \<Rightarrow> probe_state \<Rightarrow> bool" where
  "closes_with c1 c2 b \<longleftrightarrow> ps_close (pb_primary b) = c1 \<and> ps_close (pb_secondary b) = c2"

lemma probe_keeps_primary: "(\<And>c. keeps (\<lambda>s. ps_close s = c) m) \<Longrightarrow> keeps (closes_with c1 c2) (on_primary m)"
  by (simp add: keeps_def closes_with_def on_primary_def split: prod.split) (metis snd_conv)

lemma probe_keeps_secondary: "(\<And>c. keeps (\<lambda>s. ps_close s = c) m) \<Longrightarrow> keeps (closes_with c1 c2) (on_secondary m)"
  by (simp add: keeps_def closes_with_def on_secondary_def split: prod.split) (metis snd_conv)

lemma probe_keeps_finally: "keeps P m \<Longrightarrow> keeps P f \<Longrightarrow> keeps P (finally_do m f)"
  unfolding keeps_def finally_do_def by (fastforce split: prod.split sum.split)

lemma probe_keeps_basic: "keeps (closes_with c1 c2) (set_flag f)" "keeps (closes_with c1 c2) close_secondary"
    "keeps (closes_with c1 c2) (modify (\<lambda>b. b\<lparr>pb_flags := r\<rparr>))"
  by (simp_all add: keeps_def closes_with_def set_flag_def modify_def close_secondary_def)

lemma probe_keeps_closes: "keeps (closes_with c1 c2) (catch (probe_steps w loads version) (probe_failed version))"
  unfolding probe_steps_def with_secondary_def probe_remote_clients_def probe_body_def list_and_resume_def probe_failed_def
  by (intro keeps_rules probe_keeps_finally probe_keeps_primary probe_keeps_secondary probe_keeps_basic socket_keeps_close)

lemma probe_releases_everything:
  assumes "pw_which w = Inr (Some executable)" and "\<And>e. pw_version w = Inl e \<Longrightarrow> is_plain_exception e"
    and "acquired_resources w = (p, c1, c2)"
    and "\<And>e. ps_close (pb_primary b) = Inl e \<Longrightarrow> is_plain_exception e"
    and "\<And>e. ps_close (pb_secondary b) = Inl e \<Longrightarrow> is_plain_exception e"
  shows "\<exists>l. pb_log (snd (run_local_probe w loads b)) = l @ (if c2 then [ClosedSecondary] else []) @
    (if c1 then [ClosedPrimary] else []) @ (if p then [StoppedProcess] else [])"
proof -
  obtain version where version: "(case pw_version w of Inr v \<Rightarrow> Inr v
      | Inl e \<Rightarrow> if is_plain_exception e then Inr ''unknown'' else Inl e) = Inr version"
    using assms(2) by (cases "pw_version w") auto
  obtain q t where body: "catch (probe_steps w loads version) (probe_failed version) b = (q, t)"
    by (cases "catch (probe_steps w loads version) (probe_failed version) b")
  have "closes_with (ps_close (pb_primary b)) (ps_close (pb_secondary b)) t"
    using keepsD [OF probe_keeps_closes, of _ _ b w loads version] body by (simp add: closes_with_def)
  then have "pb_log (snd (release_resources w p c1 c2 t)) = pb_log t @ (if c2 then [ClosedSecondary] else []) @
      (if c1 then [ClosedPrimary] else []) @ (if p then [StoppedProcess] else [])"
    using assms(4,5) by (intro release_log) (simp_all add: closes_with_def)
  moreover have "snd (run_local_probe w loads b) = snd (release_resources w p c1 c2 t)"
    using assms(1,3) version body
    by (simp add: run_local_probe_def bnd_def from_outcome_def finally_do_def split: prod.split sum.split)
  ultimately show ?thesis
    by simp
qed

subsection \<open>The version line\<close>

definition version_line :: "string \<Rightarrow> string" where
  "version_line stdout = (case py_splitlines (py_strip stdout) of [] \<Rightarrow> ''unknown'' | l # _ \<Rightarrow> take 200 l)"

lemma version_line_short: "length (version_line stdout) \<le> 200"
  by (simp add: version_line_def split: list.split)

subsection \<open>Acquiring a resource under cancellation\<close>

text \<open>
  \<^verbatim>\<open>_acquire_resource\<close> awaits the acquisition in a task of its own. What each of its three waits sees: the end of
  the task, the cancellation of the caller, or the end of the time limit. \<open>Kept\<close> returns the resource and
  \<open>Failed\<close> raises; all other fates raise the cancellation: the resource was given back, will be given back by
  the callback of the task, never came to be, or the task was left to itself.
\<close>

datatype 'r seen = TaskEnds "'r outcome" | CallerCancelled | TimeLimit

datatype 'r fate = Kept 'r | Failed exn | CleanedUp 'r | CleanupLater | NoResource | Abandoned

definition after_cancel_request :: "'r seen \<Rightarrow> 'r fate" where
  "after_cancel_request third =
     (case third of
        TimeLimit \<Rightarrow> CleanupLater
      | CallerCancelled \<Rightarrow> Abandoned
      | TaskEnds (Inr r) \<Rightarrow> CleanedUp r
      | TaskEnds (Inl _) \<Rightarrow> NoResource)"

definition after_cancellation :: "'r seen \<Rightarrow> 'r seen \<Rightarrow> 'r fate" where
  "after_cancellation second third =
     (case second of
        TaskEnds (Inr r) \<Rightarrow> CleanedUp r
      | TaskEnds (Inl _) \<Rightarrow> NoResource
      | CallerCancelled \<Rightarrow> Abandoned
      | TimeLimit \<Rightarrow> after_cancel_request third)"

definition acquire_resource :: "'r seen \<Rightarrow> 'r seen \<Rightarrow> 'r seen \<Rightarrow> 'r fate" where
  "acquire_resource first second third =
     (case first of
        TaskEnds (Inr r) \<Rightarrow> Kept r
      | TaskEnds (Inl e) \<Rightarrow> if exn_type e = ''CancelledError'' then after_cancellation second third else Failed e
      | _ \<Rightarrow> after_cancellation second third)"

text \<open>
  \<^verbatim>\<open>_schedule_late_cleanup\<close>: when the task ends after all, its resource is given back, unless the event loop is closed.
\<close>

definition late_cleanup :: "bool \<Rightarrow> 'r outcome \<Rightarrow> 'r fate" where
  "late_cleanup loop_closed final =
     (case final of Inl _ \<Rightarrow> NoResource | Inr r \<Rightarrow> if loop_closed then Abandoned else CleanedUp r)"

text \<open>
  A task that ends with \<open>final\<close> during the wait number \<open>k\<close>: the earlier waits end otherwise, and that wait and
  the later ones see the end of the task.
\<close>

definition sees :: "nat \<Rightarrow> 'r outcome \<Rightarrow> nat \<Rightarrow> 'r seen \<Rightarrow> bool" where
  "sees k final i s \<longleftrightarrow> (if k \<le> i then s = TaskEnds final else s \<in> {CallerCancelled, TimeLimit})"

definition fate_of :: "bool \<Rightarrow> 'r outcome \<Rightarrow> 'r seen \<Rightarrow> 'r seen \<Rightarrow> 'r seen \<Rightarrow> 'r fate" where
  "fate_of loop_closed final first second third =
     (case acquire_resource first second third of CleanupLater \<Rightarrow> late_cleanup loop_closed final | f \<Rightarrow> f)"

text \<open>
  With one cancellation no resource is lost: whenever the task ends with a resource, before, during or after
  the two further waits, the resource is returned or given back. A second cancellation during those waits loses it.
\<close>

lemma acquired_resource_not_lost:
  assumes "sees k (Inr r) 0 first" and "sees k (Inr r) 1 second" and "sees k (Inr r) 2 third"
    and "first \<noteq> TimeLimit" and "second \<noteq> CallerCancelled" and "third \<noteq> CallerCancelled"
  shows "fate_of False (Inr r) first second third \<in> {Kept r, CleanedUp r}"
  using assms
  by (auto simp: sees_def fate_of_def acquire_resource_def after_cancellation_def after_cancel_request_def late_cleanup_def
      split: if_splits)

lemma second_cancellation_loses_resource:
  "fate_of False (Inr r) CallerCancelled CallerCancelled third = Abandoned"
  by (simp add: fate_of_def acquire_resource_def after_cancellation_def)

end
