(* ===== verification/Schema.thy ===== *)
theory Schema
  imports Orchestrator
begin

text \<open>
  \<^verbatim>\<open>modules/codex/codex_schema.py\<close>: the migrations of the database file and the code that applies them. A database
  is its version, its tables with their columns and rows, and its indexes; a statement is what the SQL text
  does to these. The migrations run in one transaction, so a statement that fails leaves the file as it was.
\<close>

subsection \<open>Databases and statements\<close>

type_synonym db_row = "(string \<times> string option) list"

record db_table =
  tb_columns :: "string list"
  tb_rows :: "db_row list"

record db_index =
  ix_table :: string
  ix_columns :: "string list"
  ix_unique_pending :: bool

record database =
  db_version :: nat
  db_tables :: "(string \<times> db_table) list"
  db_indexes :: "(string \<times> db_index) list"

datatype statement =
    CreateTable bool string "string list"
  | CreateIndex bool string db_index
  | CopyQuoted string string string
  | DropTable string
  | RenameTable string string
  | AddColumn string string

definition operational_error :: "string \<Rightarrow> 'a outcome" where
  "operational_error m = Inl (Exn ''OperationalError'' m)"

text \<open>\<open>quote_column c\<close> is \<^verbatim>\<open>json_quote\<close> on one column; on a text it prints a JSON string.\<close>

definition quote_column :: "string \<Rightarrow> db_row \<Rightarrow> db_row" where
  "quote_column c row = map (\<lambda>(k, v). (k, if k = c then Some (case v of None \<Rightarrow> ''null'' | Some t \<Rightarrow> dumps_str t) else v)) row"

definition rename_key :: "string \<Rightarrow> string \<Rightarrow> (string \<times> 'a) list \<Rightarrow> (string \<times> 'a) list" where
  "rename_key a b = map (\<lambda>(k, v). (if k = a then b else k, v))"

text \<open>
  The values a row has in the columns of an index. A row outside the condition of a partial index does not
  count, and a row with a missing value equals no other row.
\<close>

definition index_keys :: "db_index \<Rightarrow> db_row list \<Rightarrow> string option option list list" where
  "index_keys i rows = filter (\<lambda>vs. Some None \<notin> set vs)
     (map (\<lambda>r. map (map_of r) (ix_columns i)) (filter (\<lambda>r. map_of r ''status'' = Some (Some ''pending'')) rows))"

definition index_violated :: "db_index \<Rightarrow> db_row list \<Rightarrow> bool" where
  "index_violated i rows \<longleftrightarrow> ix_unique_pending i \<and> \<not> distinct (index_keys i rows)"

fun execute :: "statement \<Rightarrow> database \<Rightarrow> database outcome" where
  "execute (CreateTable if_missing name columns) d =
     (if map_of (db_tables d) name \<noteq> None then (if if_missing then Inr d else operational_error ''table already exists'')
      else Inr (d\<lparr>db_tables := db_tables d @ [(name, \<lparr>tb_columns = columns, tb_rows = []\<rparr>)]\<rparr>))"
| "execute (CreateIndex if_missing name index) d =
     (if map_of (db_indexes d) name \<noteq> None then (if if_missing then Inr d else operational_error ''index already exists'')
      else case map_of (db_tables d) (ix_table index) of
          None \<Rightarrow> operational_error ''no such table''
        | Some t \<Rightarrow> if index_violated index (tb_rows t) then Inl (Exn ''IntegrityError'' ''UNIQUE constraint failed'')
            else Inr (d\<lparr>db_indexes := db_indexes d @ [(name, index)]\<rparr>))"
| "execute (CopyQuoted source target column) d =
     (case (map_of (db_tables d) source, map_of (db_tables d) target) of
        (Some s, Some t) \<Rightarrow> Inr (d\<lparr>db_tables := dict_set target (t\<lparr>tb_rows := tb_rows t @ map (quote_column column) (tb_rows s)\<rparr>) (db_tables d)\<rparr>)
      | _ \<Rightarrow> operational_error ''no such table'')"
| "execute (DropTable name) d =
     (if map_of (db_tables d) name = None then operational_error ''no such table''
      else Inr (d\<lparr>db_tables := dict_pop name (db_tables d),
        db_indexes := filter (\<lambda>(k, i). ix_table i \<noteq> name) (db_indexes d)\<rparr>))"
| "execute (RenameTable a b) d =
     (if map_of (db_tables d) a = None \<or> map_of (db_tables d) b \<noteq> None then operational_error ''cannot rename''
      else Inr (d\<lparr>db_tables := rename_key a b (db_tables d),
        db_indexes := map (\<lambda>(k, i). (k, if ix_table i = a then i\<lparr>ix_table := b\<rparr> else i)) (db_indexes d)\<rparr>))"
| "execute (AddColumn name column) d =
     (case map_of (db_tables d) name of
        None \<Rightarrow> operational_error ''no such table''
      | Some t \<Rightarrow> if column \<in> set (tb_columns t) then operational_error ''duplicate column name''
          else Inr (d\<lparr>db_tables := dict_set name
            (t\<lparr>tb_columns := tb_columns t @ [column], tb_rows := map (\<lambda>r. r @ [(column, None)]) (tb_rows t)\<rparr>) (db_tables d)\<rparr>))"

subsection \<open>The migrations\<close>

definition SCHEMA_VERSION :: nat where
  "SCHEMA_VERSION = 3"

definition INTERACTION_COLUMNS :: "string list" where
  "INTERACTION_COLUMNS = [''id'', ''session_id'', ''request_id'', ''kind'', ''status'', ''lark_message_id'', ''payload_summary'',
     ''requested_at'', ''resolved_at'', ''expires_at'', ''actor_id'', ''decision'']"

definition plain_index :: "string \<Rightarrow> string list \<Rightarrow> db_index" where
  "plain_index t columns = \<lparr>ix_table = t, ix_columns = columns, ix_unique_pending = False\<rparr>"

definition MIGRATION_1 :: "statement list" where
  "MIGRATION_1 =
     [CreateTable True ''codex_sessions'' [''id'', ''thread_id'', ''turn_id'', ''name'', ''cwd'', ''model'', ''sandbox'', ''status'',
        ''summary'', ''created_at'', ''updated_at''],
      CreateTable True ''codex_interactions'' INTERACTION_COLUMNS,
      CreateTable True ''codex_event_dedupe'' [''event_id'', ''received_at''],
      CreateTable True ''notification_outbox'' [''id'', ''session_id'', ''interaction_id'', ''notification_type'', ''payload_summary'',
        ''attempt_count'', ''next_attempt_at'', ''sent_at'', ''last_error'', ''created_at''],
      CreateTable True ''codex_audit'' [''id'', ''session_id'', ''interaction_id'', ''event_type'', ''actor_id'', ''detail_summary'', ''created_at''],
      CreateIndex True ''idx_codex_sessions_status'' (plain_index ''codex_sessions'' [''status'']),
      CreateIndex True ''idx_codex_interactions_status'' (plain_index ''codex_interactions'' [''status'']),
      CreateIndex True ''idx_notification_outbox_due'' (plain_index ''notification_outbox'' [''sent_at'', ''next_attempt_at'']),
      CreateIndex True ''idx_codex_audit_session_created'' (plain_index ''codex_audit'' [''session_id'', ''created_at'', ''id''])]"

definition MIGRATION_2 :: "statement list" where
  "MIGRATION_2 =
     [CreateTable False ''codex_interactions_v2'' INTERACTION_COLUMNS,
      CopyQuoted ''codex_interactions'' ''codex_interactions_v2'' ''request_id'',
      DropTable ''codex_interactions'',
      RenameTable ''codex_interactions_v2'' ''codex_interactions'',
      CreateIndex False ''idx_codex_interactions_status'' (plain_index ''codex_interactions'' [''status'']),
      CreateIndex False ''idx_codex_interactions_pending_request''
        \<lparr>ix_table = ''codex_interactions'', ix_columns = [''request_id''], ix_unique_pending = True\<rparr>]"

definition MIGRATION_3 :: "statement list" where
  "MIGRATION_3 = [AddColumn ''notification_outbox'' ''agent'', AddColumn ''notification_outbox'' ''session_name'']"

definition MIGRATIONS :: "nat \<Rightarrow> statement list" where
  "MIGRATIONS n = (if n = 1 then MIGRATION_1 else if n = 2 then MIGRATION_2 else if n = 3 then MIGRATION_3 else [])"

fun execute_all :: "statement list \<Rightarrow> database \<Rightarrow> database outcome" where
  "execute_all [] d = Inr d"
| "execute_all (q # qs) d = (case execute q d of Inl e \<Rightarrow> Inl e | Inr d' \<Rightarrow> execute_all qs d')"

fun migrate :: "nat list \<Rightarrow> database \<Rightarrow> database outcome" where
  "migrate [] d = Inr d"
| "migrate (target # targets) d =
     (case execute_all (MIGRATIONS target) d of Inl e \<Rightarrow> Inl e | Inr d' \<Rightarrow> migrate targets (d'\<lparr>db_version := target\<rparr>))"

definition initialize_schema :: "database \<Rightarrow> database outcome" where
  "initialize_schema d =
     (if SCHEMA_VERSION < db_version d then runtime_error ''unsupported Codex schema version''
      else if db_version d = SCHEMA_VERSION then Inr d
      else migrate [Suc (db_version d) ..< Suc SCHEMA_VERSION] d)"

subsection \<open>Every old database becomes the new one\<close>

definition empty_database :: database where
  "empty_database = \<lparr>db_version = 0, db_tables = [], db_indexes = []\<rparr>"

text \<open>
  The database as a program of version \<open>v\<close> left it, with rows in the tables of interactions and of outgoing
  notifications.
\<close>

definition fill_table :: "string \<Rightarrow> db_row list \<Rightarrow> database \<Rightarrow> database" where
  "fill_table name rows d = d\<lparr>db_tables := map (\<lambda>(k, t). (k, if k = name then t\<lparr>tb_rows := rows\<rparr> else t)) (db_tables d)\<rparr>"

definition database_of_version :: "nat \<Rightarrow> db_row list \<Rightarrow> db_row list \<Rightarrow> database outcome" where
  "database_of_version v irows orows =
     (case migrate [1 ..< Suc v] empty_database of
        Inl e \<Rightarrow> Inl e
      | Inr d \<Rightarrow> Inr (fill_table ''notification_outbox'' orows (fill_table ''codex_interactions'' irows d)))"

definition schema_of :: "database \<Rightarrow> nat \<times> (string \<times> string list) set \<times> (string \<times> db_index) set" where
  "schema_of d = (db_version d, set (map (\<lambda>(k, t). (k, tb_columns t)) (db_tables d)), set (db_indexes d))"

definition rows_of :: "string \<Rightarrow> database \<Rightarrow> db_row list" where
  "rows_of name d = (case map_of (db_tables d) name of None \<Rightarrow> [] | Some t \<Rightarrow> tb_rows t)"

text \<open>The rows of the first version: the request identifier is present and unique.\<close>

definition unique_requests :: "db_row list \<Rightarrow> bool" where
  "unique_requests rows \<longleftrightarrow> distinct (map (\<lambda>r. map_of r ''request_id'') rows) \<and>
     (\<forall>r \<in> set rows. case map_of r ''request_id'' of Some (Some t) \<Rightarrow> True | _ \<Rightarrow> False)"

lemma map_of_quote_column:
  "map_of (quote_column c row) k =
     (if k = c then map_option (\<lambda>v. Some (case v of None \<Rightarrow> ''null'' | Some t \<Rightarrow> dumps_str t)) (map_of row k) else map_of row k)"
  by (induction row) (auto simp: quote_column_def)

lemma quoted_requests_unique:
  assumes "unique_requests rows" and "ix_columns i = [''request_id'']"
  shows "\<not> index_violated i (map (quote_column ''request_id'') rows)"
proof -
  let ?id = "\<lambda>r. map_of r ''request_id''"
  define quoted where "quoted v = map_option (\<lambda>v. Some (case v of None \<Rightarrow> ''null'' | Some t \<Rightarrow> dumps_str t)) v" for v :: "string option option"
  have shape: "\<exists>t. v = Some (Some t)" if v: "v \<in> ?id ` set rows" for v
  proof -
    obtain r where r: "r \<in> set rows" "v = ?id r"
      using v by blast
    then show ?thesis
      using assms(1) unfolding unique_requests_def by (cases "?id r"; cases "the (?id r)") fastforce+
  qed
  have "inj_on quoted (?id ` set rows)"
    using shape by (intro inj_onI) (fastforce dest!: shape simp: quoted_def dumps_str_inj)
  then have "distinct (map (\<lambda>r. [quoted (?id r)]) rows)"
    using assms(1) by (auto simp: unique_requests_def distinct_map inj_on_def)
  then have "distinct (map (\<lambda>r. [quoted (?id r)]) (filter (\<lambda>r. map_of r ''status'' = Some (Some ''pending'')) rows))"
    by (rule distinct_map_filter)
  then have "distinct (map (\<lambda>r. [?id r]) (filter (\<lambda>r. map_of r ''status'' = Some (Some ''pending'')) (map (quote_column ''request_id'') rows)))"
    by (simp add: filter_map o_def map_of_quote_column quoted_def)
  then show ?thesis
    using assms(2) by (simp add: index_violated_def index_keys_def)
qed

lemma upto_schema_version [simp]: "[Suc 0 ..< 4] = [1, 2, 3]" "[2 ..< 4] = [2, 3]" "[3 ..< 4] = [3]" "[Suc 0 ..< 3] = [1, 2]"
    "[Suc 0 ..< 2] = [1]" "[Suc (Suc 0) ..< 4] = [2, 3]"
  by (simp_all add: upt_rec numeral_eq_Suc)

text \<open>The file each migration leaves, written out.\<close>

definition pending_index :: db_index where
  "pending_index = \<lparr>ix_table = ''codex_interactions'', ix_columns = [''request_id''], ix_unique_pending = True\<rparr>"

definition outbox_columns :: "string list" where
  "outbox_columns = [''id'', ''session_id'', ''interaction_id'', ''notification_type'', ''payload_summary'', ''attempt_count'',
     ''next_attempt_at'', ''sent_at'', ''last_error'', ''created_at'']"

definition version_1 :: "db_row list \<Rightarrow> db_row list \<Rightarrow> database" where
  "version_1 irows orows = \<lparr>db_version = 1,
     db_tables = [(''codex_sessions'', \<lparr>tb_columns = [''id'', ''thread_id'', ''turn_id'', ''name'', ''cwd'', ''model'', ''sandbox'', ''status'',
         ''summary'', ''created_at'', ''updated_at''], tb_rows = []\<rparr>),
       (''codex_interactions'', \<lparr>tb_columns = INTERACTION_COLUMNS, tb_rows = irows\<rparr>),
       (''codex_event_dedupe'', \<lparr>tb_columns = [''event_id'', ''received_at''], tb_rows = []\<rparr>),
       (''notification_outbox'', \<lparr>tb_columns = outbox_columns, tb_rows = orows\<rparr>),
       (''codex_audit'', \<lparr>tb_columns = [''id'', ''session_id'', ''interaction_id'', ''event_type'', ''actor_id'', ''detail_summary'',
         ''created_at''], tb_rows = []\<rparr>)],
     db_indexes = [(''idx_codex_sessions_status'', plain_index ''codex_sessions'' [''status'']),
       (''idx_codex_interactions_status'', plain_index ''codex_interactions'' [''status'']),
       (''idx_notification_outbox_due'', plain_index ''notification_outbox'' [''sent_at'', ''next_attempt_at'']),
       (''idx_codex_audit_session_created'', plain_index ''codex_audit'' [''session_id'', ''created_at'', ''id''])]\<rparr>"

definition later_version :: "nat \<Rightarrow> string list \<Rightarrow> db_row list \<Rightarrow> db_row list \<Rightarrow> database" where
  "later_version v columns irows orows = \<lparr>db_version = v,
     db_tables = [(''codex_sessions'', \<lparr>tb_columns = [''id'', ''thread_id'', ''turn_id'', ''name'', ''cwd'', ''model'', ''sandbox'', ''status'',
         ''summary'', ''created_at'', ''updated_at''], tb_rows = []\<rparr>),
       (''codex_event_dedupe'', \<lparr>tb_columns = [''event_id'', ''received_at''], tb_rows = []\<rparr>),
       (''notification_outbox'', \<lparr>tb_columns = columns, tb_rows = orows\<rparr>),
       (''codex_audit'', \<lparr>tb_columns = [''id'', ''session_id'', ''interaction_id'', ''event_type'', ''actor_id'', ''detail_summary'',
         ''created_at''], tb_rows = []\<rparr>),
       (''codex_interactions'', \<lparr>tb_columns = INTERACTION_COLUMNS, tb_rows = irows\<rparr>)],
     db_indexes = [(''idx_codex_sessions_status'', plain_index ''codex_sessions'' [''status'']),
       (''idx_notification_outbox_due'', plain_index ''notification_outbox'' [''sent_at'', ''next_attempt_at'']),
       (''idx_codex_audit_session_created'', plain_index ''codex_audit'' [''session_id'', ''created_at'', ''id'']),
       (''idx_codex_interactions_status'', plain_index ''codex_interactions'' [''status'']),
       (''idx_codex_interactions_pending_request'', pending_index)]\<rparr>"

definition with_new_columns :: "db_row list \<Rightarrow> db_row list" where
  "with_new_columns = map (\<lambda>r. r @ [(''agent'', None), (''session_name'', None)])"

abbreviation version_2 :: "db_row list \<Rightarrow> db_row list \<Rightarrow> database" where
  "version_2 \<equiv> later_version 2 outbox_columns"

abbreviation version_3 :: "db_row list \<Rightarrow> db_row list \<Rightarrow> database" where
  "version_3 \<equiv> later_version 3 (outbox_columns @ [''agent'', ''session_name''])"

lemma first_migration: "execute_all (MIGRATIONS 1) empty_database = Inr (version_1 [] []\<lparr>db_version := 0\<rparr>)"
  by (simp add: MIGRATIONS_def MIGRATION_1_def empty_database_def version_1_def outbox_columns_def index_violated_def plain_index_def)

lemma second_migration:
  assumes "unique_requests irows"
  shows "execute_all (MIGRATIONS 2) (version_1 irows orows) =
    Inr (version_2 (map (quote_column ''request_id'') irows) orows\<lparr>db_version := 1\<rparr>)"
  using quoted_requests_unique [OF assms, of pending_index]
  by (simp add: MIGRATIONS_def MIGRATION_2_def version_1_def later_version_def pending_index_def rename_key_def plain_index_def)
    (simp add: index_violated_def)

lemma third_migration: "execute_all (MIGRATIONS 3) (version_2 irows orows) = Inr (version_3 irows (with_new_columns orows)\<lparr>db_version := 2\<rparr>)"
  by (simp add: MIGRATIONS_def MIGRATION_3_def later_version_def outbox_columns_def with_new_columns_def o_def)

lemma version_set [simp]: "version_1 i o'\<lparr>db_version := Suc 0\<rparr> = version_1 i o'"
    "version_2 i o'\<lparr>db_version := 2\<rparr> = version_2 i o'" "version_3 i o'\<lparr>db_version := 3\<rparr> = version_3 i o'"
  by (simp_all add: version_1_def later_version_def)

lemma fill_version [simp]: "fill_table ''notification_outbox'' o' (fill_table ''codex_interactions'' i (version_1 [] [])) = version_1 i o'"
    "fill_table ''notification_outbox'' o' (fill_table ''codex_interactions'' i (later_version v c [] [])) = later_version v c i o'"
  by (simp_all add: fill_table_def version_1_def later_version_def)

lemma new_columns_Nil [simp]: "with_new_columns [] = []"
  by (simp add: with_new_columns_def)

lemma migrate_reaches:
  "migrate ns d = Inr d' \<Longrightarrow> db_version d' = (if ns = [] then db_version d else last ns)"
proof (induction ns arbitrary: d)
  case (Cons n ns)
  then obtain d1 where "migrate ns (d1\<lparr>db_version := n\<rparr>) = Inr d'"
    by (auto split: sum.splits)
  then show ?case
    using Cons.IH by fastforce
qed simp

lemma initialized_is_current: "initialize_schema d = Inr d' \<Longrightarrow> db_version d' = SCHEMA_VERSION \<and> initialize_schema d' = Inr d'"
  by (auto simp: initialize_schema_def dest!: migrate_reaches split: if_splits)

lemma newer_database_refused: "SCHEMA_VERSION < db_version d \<Longrightarrow> initialize_schema d = runtime_error ''unsupported Codex schema version''"
  by (simp add: initialize_schema_def)



lemma quoted_identifier_is_canonical:
  "map_of row ''request_id'' = Some (Some t) \<Longrightarrow>
   map_of (quote_column ''request_id'' row) ''request_id'' = Some (Some (canonical_request_id (IdStr t)))"
  by (simp add: map_of_quote_column canonical_request_id_def)

end
