(* ===== verification/Config.thy ===== *)
theory Config
  imports Complex_Main Prelude
begin

text \<open>
  \<^verbatim>\<open>core/config.py\<close> and the command that prints the settings: the fields with the limits pydantic checks, the
  checks of the required ones, the summary, and what \<^verbatim>\<open>lark-bot config\<close> prints. How a number is printed and the
  JSON printer with indentation are parameters. The secret never reaches the output.
\<close>

subsection \<open>Settings\<close>

text \<open>
  The settings as pydantic has read them. A path is the text \<^verbatim>\<open>str\<close> makes of it; \<^verbatim>\<open>bool\<close> of a path is true.
  Durations with a fraction are rational numbers.
\<close>

record settings =
  lark_app_id :: string
  lark_app_secret :: string
  lark_receive_id_type :: string
  lark_receive_id :: string
  sqlite_path :: string
  cooldown_seconds :: int
  output_tail_lines :: int
  http_timeout_seconds :: rat
  log_level :: string
  lark_base_url :: string
  daemon_host :: string
  daemon_port :: int
  daemon_token_path :: string
  codex_path :: string
  interaction_timeout_seconds :: int
  interaction_expiry_poll_seconds :: rat
  outbox_poll_seconds :: rat
  notification_delay_seconds :: rat
  lark_event_queue_capacity :: int
  message_format_name :: string

definition settings_valid :: "settings \<Rightarrow> bool" where
  "settings_valid s \<longleftrightarrow> lark_receive_id_type s \<in> {''chat_id'', ''user_id'', ''open_id''} \<and> message_format_name s \<in> {''card'', ''text''} \<and>
     0 \<le> cooldown_seconds s \<and> 1 \<le> output_tail_lines s \<and> 0 < http_timeout_seconds s \<and> 1 \<le> daemon_port s \<and> daemon_port s \<le> 65535 \<and>
     1 \<le> interaction_timeout_seconds s \<and> interaction_timeout_seconds s \<le> 86400 \<and>
     0 < interaction_expiry_poll_seconds s \<and> interaction_expiry_poll_seconds s \<le> 60 \<and>
     0 < outbox_poll_seconds s \<and> outbox_poll_seconds s \<le> 60 \<and>
     0 \<le> notification_delay_seconds s \<and> notification_delay_seconds s \<le> 300 \<and>
     1 \<le> lark_event_queue_capacity s \<and> lark_event_queue_capacity s \<le> 10000"

record config_check =
  cc_name :: string
  cc_ok :: bool
  cc_message :: string

definition required_check :: "string \<Rightarrow> string \<Rightarrow> string \<Rightarrow> config_check" where
  "required_check n v message = \<lparr>cc_name = n, cc_ok = (v \<noteq> []), cc_message = (if v \<noteq> [] then n @ '' is set.'' else message)\<rparr>"

definition build_config_checks :: "settings \<Rightarrow> config_check list" where
  "build_config_checks s =
     [required_check ''lark_app_id'' (lark_app_id s) ''LARK_BOT_LARK_APP_ID is required.'',
      required_check ''lark_app_secret'' (lark_app_secret s) ''LARK_BOT_LARK_APP_SECRET is required.'',
      required_check ''lark_receive_id'' (lark_receive_id s) ''LARK_BOT_LARK_RECEIVE_ID is required.'',
      \<lparr>cc_name = ''lark_receive_id_type'', cc_ok = lark_receive_id_type s \<in> {''chat_id'', ''user_id'', ''open_id''},
        cc_message = ''receive_id_type='' @ lark_receive_id_type s\<rparr>,
      \<lparr>cc_name = ''sqlite_path'', cc_ok = True, cc_message = ''sqlite_path='' @ sqlite_path s\<rparr>,
      \<lparr>cc_name = ''message_format'', cc_ok = message_format_name s \<in> {''card'', ''text''},
        cc_message = ''message_format='' @ message_format_name s\<rparr>]"

datatype setting_value = TextValue string | IntValue int | FloatValue rat

definition or_missing :: "string \<Rightarrow> string" where
  "or_missing v = (if v = [] then ''[missing]'' else v)"

definition public_settings_summary :: "settings \<Rightarrow> (string \<times> setting_value) list" where
  "public_settings_summary s =
     [(''lark_app_id'', TextValue (or_missing (lark_app_id s))),
      (''lark_app_secret'', TextValue (if lark_app_secret s \<noteq> [] then ''[set]'' else ''[missing]'')),
      (''lark_receive_id_type'', TextValue (lark_receive_id_type s)),
      (''lark_receive_id'', TextValue (or_missing (lark_receive_id s))),
      (''sqlite_path'', TextValue (sqlite_path s)),
      (''cooldown_seconds'', IntValue (cooldown_seconds s)),
      (''output_tail_lines'', IntValue (output_tail_lines s)),
      (''http_timeout_seconds'', FloatValue (http_timeout_seconds s)),
      (''log_level'', TextValue (log_level s)),
      (''lark_base_url'', TextValue (lark_base_url s)),
      (''daemon_host'', TextValue (daemon_host s)),
      (''daemon_port'', IntValue (daemon_port s)),
      (''daemon_token_path'', TextValue (daemon_token_path s)),
      (''codex_path'', TextValue (codex_path s)),
      (''interaction_timeout_seconds'', IntValue (interaction_timeout_seconds s)),
      (''interaction_expiry_poll_seconds'', FloatValue (interaction_expiry_poll_seconds s)),
      (''outbox_poll_seconds'', FloatValue (outbox_poll_seconds s)),
      (''notification_delay_seconds'', FloatValue (notification_delay_seconds s)),
      (''lark_event_queue_capacity'', IntValue (lark_event_queue_capacity s)),
      (''message_format'', TextValue (message_format_name s))]"

text \<open>The command \<^verbatim>\<open>lark-bot config\<close>: the lines it prints.\<close>

record config_output =
  co_settings :: "(string \<times> setting_value) list"
  co_checks :: "config_check list"
  co_ok :: bool

definition check_line :: "config_check \<Rightarrow> string" where
  "check_line c = ''- '' @ (if cc_ok c then ''ok'' else ''missing'') @ '': '' @ cc_name c @ '' - '' @ cc_message c"

definition config_command :: "(config_output \<Rightarrow> string) \<Rightarrow> (setting_value \<Rightarrow> string) \<Rightarrow> bool \<Rightarrow> settings \<Rightarrow> string list" where
  "config_command dumps str json_output s =
     (let checks = build_config_checks s; summary = public_settings_summary s in
      if json_output then [dumps \<lparr>co_settings = summary, co_checks = checks, co_ok = (\<forall>c \<in> set checks. cc_ok c)\<rparr>]
      else [''Lark Bot configuration''] @ map (\<lambda>(k, v). k @ '': '' @ str v) summary @ [[], ''Checks''] @ map check_line checks)"

text \<open>What is shown of the settings does not depend on the secret, beyond its being set.\<close>

lemma secret_never_shown:
  assumes "lark_app_secret s \<noteq> []" and "secret \<noteq> []"
  shows "public_settings_summary (s\<lparr>lark_app_secret := secret\<rparr>) = public_settings_summary s"
    and "build_config_checks (s\<lparr>lark_app_secret := secret\<rparr>) = build_config_checks s"
  using assms by (simp_all add: public_settings_summary_def build_config_checks_def required_check_def)

text \<open>
  The output of \<^verbatim>\<open>lark-bot config\<close>, as text and as JSON, tells of the secret only whether it is set: two settings
  that differ in nothing else are printed the same.
\<close>

theorem config_output_hides_secret:
  assumes "lark_app_secret s \<noteq> []" and "secret \<noteq> []"
  shows "config_command dumps str json_output (s\<lparr>lark_app_secret := secret\<rparr>) = config_command dumps str json_output s"
  using secret_never_shown [OF assms] by (simp add: config_command_def)

text \<open>
  Of settings that were read, only the three required texts can be missing: the other three checks always
  pass, the one of the path even for settings without a path.
\<close>

lemma checks_pass_iff:
  assumes "settings_valid s"
  shows "(\<forall>c \<in> set (build_config_checks s). cc_ok c) \<longleftrightarrow>
    lark_app_id s \<noteq> [] \<and> lark_app_secret s \<noteq> [] \<and> lark_receive_id s \<noteq> []"
  using assms by (auto simp: build_config_checks_def required_check_def settings_valid_def)

lemma empty_path_passes: "\<exists>c \<in> set (build_config_checks (s\<lparr>sqlite_path := ''.''\<rparr>)). cc_name c = ''sqlite_path'' \<and> cc_ok c"
  by (simp add: build_config_checks_def)

end
