(* ===== verification/Endpoint.thy ===== *)
theory Endpoint
  imports Py_Json
begin

text \<open>
  The endpoint of an interactive session in \<^verbatim>\<open>modules/codex/codex_interactive.py\<close>: the address that is chosen, its
  check, and the loop that waits for the app-server to listen there. \<^verbatim>\<open>urlsplit\<close> and the operating system are
  parameters; the loop reads one observation per round: the exit code of the process, the attempt to connect,
  the clock, and how closing or sleeping ended. Times are in microseconds.
\<close>

record url_parts =
  u_scheme :: string
  u_hostname :: "string option"
  u_port :: "int option outcome"

definition loopback_endpoint :: "int outcome \<Rightarrow> string outcome" where
  "loopback_endpoint bound =
     (case bound of Inl e \<Rightarrow> Inl e | Inr port \<Rightarrow> Inr (''ws://127.0.0.1:'' @ show_int port))"

definition validate_loopback :: "(string \<Rightarrow> url_parts outcome) \<Rightarrow> string \<Rightarrow> unit outcome" where
  "validate_loopback urlsplit endpoint =
     (case urlsplit endpoint of
        Inl e \<Rightarrow> Inl e
      | Inr parsed \<Rightarrow>
          if u_scheme parsed \<noteq> ''ws'' \<or> u_hostname parsed \<notin> {Some ''127.0.0.1'', Some ''localhost'', Some ''::1''}
          then runtime_error ''Codex app-server endpoint must use loopback WebSocket''
          else case u_port parsed of
              Inl e \<Rightarrow> Inl e
            | Inr None \<Rightarrow> runtime_error ''Codex app-server endpoint must include a port''
            | Inr (Some _) \<Rightarrow> Inr ())"

record observation =
  ob_returncode :: "int option"
  ob_connect :: "unit outcome"
  ob_time :: int
  ob_rest :: "unit outcome"

text \<open>\<open>None\<close> means that the loop still waits after these observations.\<close>

fun wait_loop :: "int \<Rightarrow> observation list \<Rightarrow> unit outcome option" where
  "wait_loop deadline [] = None"
| "wait_loop deadline (ob # obs) =
     (if ob_returncode ob \<noteq> None then Some (runtime_error ''Codex app-server exited during startup'')
      else case ob_connect ob of
          Inl e \<Rightarrow>
            if \<not> is_os_error e then Some (Inl e)
            else if deadline \<le> ob_time ob then Some (runtime_error ''Codex app-server listener did not become ready'')
            else (case ob_rest ob of Inl e' \<Rightarrow> Some (Inl e') | Inr _ \<Rightarrow> wait_loop deadline obs)
        | Inr _ \<Rightarrow> Some (ob_rest ob))"

definition wait_for_listener ::
  "(string \<Rightarrow> url_parts outcome) \<Rightarrow> string \<Rightarrow> int \<Rightarrow> int \<Rightarrow> observation list \<Rightarrow> unit outcome option" where
  "wait_for_listener urlsplit endpoint time timeout obs =
     (case urlsplit endpoint of
        Inl e \<Rightarrow> Some (Inl e)
      | Inr parsed \<Rightarrow>
          (case u_port parsed of
             Inl e \<Rightarrow> Some (Inl e)
           | Inr port \<Rightarrow>
               if u_hostname parsed = None \<or> port = None then Some (runtime_error ''invalid Codex app-server endpoint'')
               else wait_loop (time + timeout) obs))"

text \<open>
  The address of a gateway, \<^verbatim>\<open>modules/codex/codex_gateway.py\<close>, which a terminal is given: there is one once the
  server listens on its port.
\<close>

definition gateway_endpoint :: "int option \<Rightarrow> string outcome" where
  "gateway_endpoint port =
     (case port of None \<Rightarrow> runtime_error ''gateway is not started'' | Some p \<Rightarrow> Inr (''ws://127.0.0.1:'' @ show_int p))"

lemma gateway_endpoint_is_loopback: "gateway_endpoint (Some p) = loopback_endpoint (Inr p)"
  by (simp add: gateway_endpoint_def loopback_endpoint_def)

text \<open>The address that is chosen passes the check, when \<^verbatim>\<open>urlsplit\<close> takes it apart as documented.\<close>

lemma chosen_endpoint_is_loopback:
  assumes "urlsplit (''ws://127.0.0.1:'' @ show_int port) =
      Inr \<lparr>u_scheme = ''ws'', u_hostname = Some ''127.0.0.1'', u_port = Inr (Some port)\<rparr>"
  shows "\<exists>e. loopback_endpoint (Inr port) = Inr e \<and> validate_loopback urlsplit e = Inr ()"
  using assms by (simp add: loopback_endpoint_def validate_loopback_def)

lemma validated_endpoint_is_waited_for:
  "validate_loopback urlsplit e = Inr () \<Longrightarrow> wait_for_listener urlsplit e time timeout obs = wait_loop (time + timeout) obs"
  by (auto simp: validate_loopback_def wait_for_listener_def split: sum.splits option.splits if_splits)

text \<open>
  The wait ends in time: each round sleeps at least 50 milliseconds, so after as many rounds as fit between the
  start and the deadline, and two more, there is a result. It is success only if a connection was accepted
  while the process had not ended.
\<close>

fun paced :: "int \<Rightarrow> observation list \<Rightarrow> bool" where
  "paced time [] = True"
| "paced time (ob # obs) = (time \<le> ob_time ob \<and> paced (ob_time ob + 50000) obs)"

lemma wait_loop_ends:
  "paced time obs \<Longrightarrow> deadline - time < 50000 * int n \<Longrightarrow> n < length obs \<Longrightarrow> wait_loop deadline obs \<noteq> None"
proof (induction obs arbitrary: time n)
  case (Cons ob obs)
  show ?case
  proof (cases "deadline \<le> ob_time ob")
    case True
    then show ?thesis
      by (cases "ob_connect ob") simp_all
  next
    case False
    then obtain k where n: "n = Suc k"
      using Cons.prems by (cases n) auto
    have "wait_loop deadline obs \<noteq> None"
      using Cons.prems n by (intro Cons.IH [of "ob_time ob + 50000" k]) auto
    then show ?thesis
      by (cases "ob_connect ob"; cases "ob_rest ob") simp_all
  qed
qed simp

lemma wait_succeeds_only_connected:
  "wait_loop deadline obs = Some (Inr ()) \<Longrightarrow> \<exists>ob \<in> set obs. ob_returncode ob = None \<and> ob_connect ob = Inr ()"
  by (induction deadline obs rule: wait_loop.induct) (auto split: sum.splits if_splits unit.splits)

text \<open>With the five seconds of the code: a hundred and two rounds are enough.\<close>

lemma wait_for_listener_ends:
  assumes "validate_loopback urlsplit e = Inr ()" and "paced time obs" and "102 \<le> length obs"
  shows "\<exists>r. wait_for_listener urlsplit e time 5000000 obs = Some r \<and>
    (r = Inr () \<longrightarrow> (\<exists>ob \<in> set obs. ob_returncode ob = None \<and> ob_connect ob = Inr ()))"
proof -
  have "wait_loop (time + 5000000) obs \<noteq> None"
    using assms(2,3) by (intro wait_loop_ends [of time _ _ 101]) auto
  then show ?thesis
    using assms(1) wait_succeeds_only_connected [of "time + 5000000" obs] by (auto simp: validated_endpoint_is_waited_for)
qed

end
