(* ===== verification/Timestamp.thy ===== *)
theory Timestamp
  imports Prelude
begin

text \<open>
  The times of \<^verbatim>\<open>modules/codex/codex_mapper.py\<close>: \<^verbatim>\<open>serialize_datetime\<close> puts a time into UTC and prints it, and the
  store compares the printed texts (\<^verbatim>\<open>expires_at <= ?\<close>, \<^verbatim>\<open>next_attempt_at <= ?\<close>, \<^verbatim>\<open>ORDER BY created_at\<close>). The other
  theories keep a time as the instant it denotes and compare instants; here the two are shown to agree.
  A time is its wall clock, in microseconds since the start of the year 1, and its offset from UTC, if it has one.
\<close>

subsection \<open>The calendar\<close>

definition leap_year :: "nat \<Rightarrow> bool" where
  "leap_year y \<longleftrightarrow> y mod 4 = 0 \<and> (y mod 100 \<noteq> 0 \<or> y mod 400 = 0)"

definition days_in_month :: "nat \<Rightarrow> nat \<Rightarrow> nat" where
  "days_in_month y m = (if m = 2 then (if leap_year y then 29 else 28) else if m \<in> {4, 6, 9, 11} then 30 else 31)"

fun next_day :: "nat \<times> nat \<times> nat \<Rightarrow> nat \<times> nat \<times> nat" where
  "next_day (y, m, d) =
     (if d < days_in_month y m then (y, m, d + 1) else if m < 12 then (y, m + 1, 1) else (y + 1, 1, 1))"

text \<open>The date a number of days after the first of January of the year 1.\<close>

primrec civil :: "nat \<Rightarrow> nat \<times> nat \<times> nat" where
  "civil 0 = (1, 1, 1)"
| "civil (Suc n) = next_day (civil n)"

subsection \<open>Printing\<close>

definition digit :: "nat \<Rightarrow> char" where
  "digit n = char_of (48 + n)"

primrec pad :: "nat \<Rightarrow> nat \<Rightarrow> string" where
  "pad 0 n = []"
| "pad (Suc w) n = pad w (n div 10) @ [digit (n mod 10)]"

definition date_text :: "nat \<times> nat \<times> nat \<Rightarrow> string" where
  "date_text = (\<lambda>(y, m, d). pad 4 y @ ''-'' @ pad 2 m @ ''-'' @ pad 2 d)"

definition fraction_text :: "int \<Rightarrow> string" where
  "fraction_text us = (if us = 0 then [] else ''.'' @ pad 6 (nat us)) @ ''+00:00''"

definition DAY :: int where
  "DAY = 86400000000"

definition clock_text :: "int \<Rightarrow> string" where
  "clock_text r = pad 2 (nat (r div 3600000000)) @ '':'' @ pad 2 (nat (r mod 3600000000 div 60000000)) @ '':'' @
     pad 2 (nat (r mod 60000000 div 1000000)) @ fraction_text (r mod 1000000)"

definition isoformat_utc :: "int \<Rightarrow> string" where
  "isoformat_utc t = date_text (civil (nat (t div DAY))) @ ''T'' @ clock_text (t mod DAY)"

record datetime =
  dt_wall :: int
  dt_offset :: "int option"

definition instant_of :: "datetime \<Rightarrow> instant" where
  "instant_of d = dt_wall d - opt_or (dt_offset d) 0"

definition in_range :: "instant \<Rightarrow> bool" where
  "in_range t \<longleftrightarrow> 0 \<le> t \<and> fst (civil (nat (t div DAY))) \<le> 9999"

definition serialize_datetime :: "datetime \<Rightarrow> string outcome" where
  "serialize_datetime d =
     (if in_range (instant_of d) then Inr (isoformat_utc (instant_of d)) else Inl (Exn ''OverflowError'' ''date value out of range''))"

definition serialize_optional_datetime :: "datetime option \<Rightarrow> string option outcome" where
  "serialize_optional_datetime v =
     (case v of None \<Rightarrow> Inr None
      | Some d \<Rightarrow> (case serialize_datetime d of Inl e \<Rightarrow> Inl e | Inr s \<Rightarrow> Inr (Some s)))"

text \<open>How SQLite compares two texts: character by character, by their codes.\<close>

fun text_less :: "string \<Rightarrow> string \<Rightarrow> bool" where
  "text_less s [] = False"
| "text_less [] (y # ys) = True"
| "text_less (x # xs) (y # ys) = ((of_char x :: nat) < of_char y \<or> x = y \<and> text_less xs ys)"

subsection \<open>Printed numbers and texts\<close>

lemma length_pad [simp]: "length (pad w n) = w"
  by (induction w arbitrary: n) simp_all

lemma pad_numeral: "pad (numeral k) n = pad (pred_numeral k) (n div 10) @ [digit (n mod 10)]"
  by (simp only: numeral_eq_Suc pad.simps)

lemma text_less_append:
  "length u = length v \<Longrightarrow> text_less (u @ x) (v @ y) = (text_less u v \<or> u = v \<and> text_less x y)"
  by (induction u v rule: list_induct2) auto

lemma text_less_irrefl [simp]: "\<not> text_less s s"
  by (induction s) auto

lemma text_less_cons_same [simp]: "text_less (c # x) (c # y) = text_less x y"
  by simp

lemma of_char_digit: "n < 10 \<Longrightarrow> (of_char (digit n) :: nat) = 48 + n"
  by (simp add: digit_def)

lemma digit_less: "a < 10 \<Longrightarrow> b < 10 \<Longrightarrow> text_less [digit a] [digit b] = (a < b)"
  by (simp add: of_char_digit)

lemma digit_eq: "a < 10 \<Longrightarrow> b < 10 \<Longrightarrow> (digit a = digit b) = (a = b)"
proof -
  assume ab: "a < 10" "b < 10"
  have "a = b" if "digit a = digit b"
  proof -
    have "48 + a = (of_char (digit b) :: nat)"
      using of_char_digit [OF ab(1)] that by simp
    then show ?thesis
      using of_char_digit [OF ab(2)] by simp
  qed
  then show "(digit a = digit b) = (a = b)"
    by blast
qed

lemma less_by_division: "0 < k \<Longrightarrow> (a :: nat) < b \<longleftrightarrow> a div k < b div k \<or> a div k = b div k \<and> a mod k < b mod k"
  by (metis add_less_cancel_left div_le_mono div_mult_mod_eq leD le_neq_implies_less less_imp_le not_le)

lemma equal_by_division: "(a :: nat) = b \<longleftrightarrow> a div k = b div k \<and> a mod k = b mod k"
  by (metis div_mult_mod_eq)

lemma pad_eq: "a < 10 ^ w \<Longrightarrow> b < 10 ^ w \<Longrightarrow> (pad w a = pad w b) = (a = b)"
proof (induction w arbitrary: a b)
  case (Suc w)
  then have "a div 10 < 10 ^ w" "b div 10 < 10 ^ w"
    by (simp_all add: less_mult_imp_div_less mult.commute)
  then show ?case
    using Suc.IH equal_by_division [of a b 10] by (simp add: digit_eq)
qed simp

lemma pad_less: "a < 10 ^ w \<Longrightarrow> b < 10 ^ w \<Longrightarrow> text_less (pad w a) (pad w b) = (a < b)"
proof (induction w arbitrary: a b)
  case (Suc w)
  then have "a div 10 < 10 ^ w" "b div 10 < 10 ^ w"
    by (simp_all add: less_mult_imp_div_less mult.commute)
  then show ?case
    using Suc.IH less_by_division [of 10 a b] by (simp add: text_less_append pad_eq digit_less [simplified])
qed simp

lemma int_less_by_division: "0 < k \<Longrightarrow> (a :: int) < b \<longleftrightarrow> a div k < b div k \<or> a div k = b div k \<and> a mod k < b mod k"
  by (metis add_less_cancel_left div_mult_mod_eq less_le_not_le zdiv_mono1 linorder_less_linear)

lemma int_equal_by_division: "(a :: int) = b \<longleftrightarrow> a div k = b div k \<and> a mod k = b mod k"
  by (metis div_mult_mod_eq)

lemma pad_less_int: "0 \<le> a \<Longrightarrow> a < 10 ^ w \<Longrightarrow> 0 \<le> b \<Longrightarrow> b < 10 ^ w \<Longrightarrow> text_less (pad w (nat a)) (pad w (nat b)) = (a < b)"
  using pad_less [of "nat a" w "nat b"] by (simp add: nat_less_iff) linarith

lemma pad_eq_int: "0 \<le> a \<Longrightarrow> a < 10 ^ w \<Longrightarrow> 0 \<le> b \<Longrightarrow> b < 10 ^ w \<Longrightarrow> (pad w (nat a) = pad w (nat b)) = (a = b)"
  using pad_eq [of "nat a" w "nat b"] by (simp add: nat_less_iff eq_nat_nat_iff)

subsection \<open>The clock\<close>

lemma fraction_less:
  assumes "0 \<le> a" "a < 1000000" "0 \<le> b" "b < 1000000"
  shows "text_less (fraction_text a) (fraction_text b) = (a < b)"
  using assms pad_less_int [of a 6 b] pad_eq_int [of a 6 b]
  by (cases "a = 0"; cases "b = 0") (auto simp: fraction_text_def text_less_append)

definition before :: "'a :: linorder \<Rightarrow> 'a \<Rightarrow> bool \<Rightarrow> bool" where
  "before a b rest \<longleftrightarrow> a < b \<or> a = b \<and> rest"

lemma pad_before:
  assumes "0 \<le> a" "a < 10 ^ w" "0 \<le> b" "b < 10 ^ w"
  shows "text_less (pad w (nat a) @ x) (pad w (nat b) @ y) = before a b (text_less x y)"
  using assms by (simp add: text_less_append pad_less_int pad_eq_int before_def)

lemma clock_less: "0 \<le> a \<Longrightarrow> a < DAY \<Longrightarrow> 0 \<le> b \<Longrightarrow> b < DAY \<Longrightarrow> text_less (clock_text a) (clock_text b) = (a < b)"
proof -
  assume bounds: "0 \<le> a" "a < DAY" "0 \<le> b" "b < DAY"
  have clock: "0 \<le> r div 3600000000 \<and> r div 3600000000 < 10 ^ 2" if "0 \<le> r" "r < DAY" for r :: int
    using that unfolding DAY_def by (simp add: pos_imp_zdiv_nonneg_iff)
  have minutes: "0 \<le> r mod 3600000000 div 60000000 \<and> r mod 3600000000 div 60000000 < 10 ^ 2" for r :: int
    using pos_mod_bound [of 3600000000 r] pos_mod_sign [of 3600000000 r] by (auto simp: pos_imp_zdiv_nonneg_iff)
  have seconds: "0 \<le> r mod 60000000 div 1000000 \<and> r mod 60000000 div 1000000 < 10 ^ 2" for r :: int
    using pos_mod_bound [of 60000000 r] pos_mod_sign [of 60000000 r] by (auto simp: pos_imp_zdiv_nonneg_iff)
  have parts: "(a < b) = before (a div 3600000000) (b div 3600000000)
      (before (a mod 3600000000 div 60000000) (b mod 3600000000 div 60000000)
        (before (a mod 60000000 div 1000000) (b mod 60000000 div 1000000) (a mod 1000000 < b mod 1000000)))"
    using int_less_by_division [of 3600000000 a b] int_less_by_division [of 60000000 "a mod 3600000000" "b mod 3600000000"]
      int_less_by_division [of 1000000 "a mod 60000000" "b mod 60000000"]
    by (simp add: before_def mod_mod_cancel)
  show ?thesis
    using clock [OF bounds(1,2)] clock [OF bounds(3,4)] minutes [of a] minutes [of b] seconds [of a] seconds [of b]
    by (simp add: clock_text_def parts pad_before fraction_less)
qed

subsection \<open>The date\<close>

lemma civil_valid: "case civil n of (y, m, d) \<Rightarrow> 1 \<le> y \<and> 1 \<le> m \<and> m \<le> 12 \<and> 1 \<le> d \<and> d \<le> 31"
  by (induction n) (auto simp: days_in_month_def split: prod.splits if_splits)

definition date_key :: "nat \<times> nat \<times> nat \<Rightarrow> nat" where
  "date_key = (\<lambda>(y, m, d). (y * 13 + m) * 32 + d)"

lemma civil_increases: "date_key (civil n) < date_key (civil (Suc n))"
  using civil_valid [of n] by (auto simp: date_key_def split: prod.splits)

lemma civil_less: "a < b \<longleftrightarrow> date_key (civil a) < date_key (civil b)"
  using lift_Suc_mono_less_iff [of "\<lambda>n. date_key (civil n)"] civil_increases by blast

lemma civil_key: "date_key (civil a) = date_key (civil b) \<longleftrightarrow> a = b"
  using civil_less [of a b] civil_less [of b a] by (metis less_irrefl linorder_neqE_nat)

lemma date_before:
  assumes "fst (civil a) \<le> 9999" and "fst (civil b) \<le> 9999"
  shows "text_less (date_text (civil a) @ x) (date_text (civil b) @ y) = before a b (text_less x y)"
proof -
  obtain ya ma da yb mb db where civil: "civil a = (ya, ma, da)" "civil b = (yb, mb, db)"
    by (cases "civil a"; cases "civil b") auto
  have bounds: "ya < 10 ^ 4" "ma < 10 ^ 2" "da < 10 ^ 2" "yb < 10 ^ 4" "mb < 10 ^ 2" "db < 10 ^ 2"
      "ma < 13" "da < 32" "mb < 13" "db < 32"
    using civil_valid [of a] civil_valid [of b] assms civil by simp_all
  have "text_less (date_text (civil a) @ x) (date_text (civil b) @ y) =
      before ya yb (before ma mb (before da db (text_less x y)))"
    using bounds by (simp add: civil date_text_def text_less_append pad_less pad_eq before_def)
  also have "\<dots> = before (date_key (civil a)) (date_key (civil b)) (text_less x y)"
    using bounds(7-10) by (auto simp: before_def civil date_key_def)
  finally show ?thesis
    using civil_less [of a b] civil_key [of a b] by (simp add: before_def)
qed

lemma isoformat_less:
  assumes "in_range a" and "in_range b"
  shows "text_less (isoformat_utc a) (isoformat_utc b) = (a < b)"
proof -
  have clock: "0 \<le> t mod DAY" "t mod DAY < DAY" for t
    by (simp_all add: DAY_def)
  have "text_less (isoformat_utc a) (isoformat_utc b) = before (nat (a div DAY)) (nat (b div DAY)) (a mod DAY < b mod DAY)"
    using assms clock by (simp add: isoformat_utc_def in_range_def date_before clock_less)
  also have "\<dots> = (a < b)"
    using assms int_less_by_division [of DAY a b]
    by (auto simp: before_def in_range_def DAY_def nat_less_eq_zless pos_imp_zdiv_nonneg_iff eq_nat_nat_iff)
  finally show ?thesis .
qed

text \<open>
  C35. The texts the store compares sort as the times they were made of, whatever their offsets, and are equal
  exactly for equal instants: a fraction of a second, which is only printed when it is not zero, sorts after
  the offset that follows the full second.
\<close>

theorem stored_times_sort_as_text:
  assumes "serialize_datetime a = Inr s" and "serialize_datetime b = Inr t"
  shows "(text_less s t \<longleftrightarrow> instant_of a < instant_of b) \<and> (s = t \<longleftrightarrow> instant_of a = instant_of b)"
proof -
  have "in_range (instant_of a)" "in_range (instant_of b)" "s = isoformat_utc (instant_of a)" "t = isoformat_utc (instant_of b)"
    using assms by (simp_all add: serialize_datetime_def split: if_splits)
  then show ?thesis
    using isoformat_less [of "instant_of a" "instant_of b"] isoformat_less [of "instant_of b" "instant_of a"]
    by (metis linorder_neqE text_less_irrefl)
qed

text \<open>One second after midnight in the zone two hours east is before half a second after midnight in UTC.\<close>

lemma stored_times_sort_as_text_ex:
  "text_less ''0001-01-01T00:00:01+00:00'' ''0001-01-01T00:00:01.500000+00:00'' \<and>
   ''0001-01-01T00:00:01+00:00'' \<noteq> ''0001-01-01T00:00:01.500000+00:00''"
proof -
  have "serialize_datetime \<lparr>dt_wall = 7201000000, dt_offset = Some 7200000000\<rparr> = Inr ''0001-01-01T00:00:01+00:00''"
    "serialize_datetime \<lparr>dt_wall = 1500000, dt_offset = None\<rparr> = Inr ''0001-01-01T00:00:01.500000+00:00''"
    by (simp_all add: serialize_datetime_def instant_of_def in_range_def isoformat_utc_def date_text_def clock_text_def
        fraction_text_def DAY_def digit_def pad_numeral char_of_def bit_0)
  then show ?thesis
    using stored_times_sort_as_text by (fastforce simp: instant_of_def)
qed

end
