(* ===== verification/Guarantee.thy ===== *)
theory Guarantee
  imports Async
begin

text \<open>
  Rely and guarantee for the coroutines of one event loop. A relation \<open>G\<close> is guaranteed by a coroutine when each of
  its uninterrupted pieces moves the state by \<open>G\<close>, whatever the others did in between; and each call it is suspended
  on may be asked to be covered, \<open>A\<close>, by the state it is suspended in. Then the coroutines that rely on what only grows
  while they are suspended.
\<close>

subsection \<open>Guarantees\<close>

locale guarantee =
  fixes G :: "'s \<Rightarrow> 's \<Rightarrow> bool"
    and A :: "'s \<Rightarrow> 'q \<Rightarrow> bool"
  assumes G_refl: "G s s"
    and G_trans: "G s t \<Longrightarrow> G t u \<Longrightarrow> G s u"
begin

definition moves_by :: "('s, 'a) sync \<Rightarrow> bool" where
  "moves_by m \<longleftrightarrow> (\<forall>s. G s (snd (m s)))"

inductive stays :: "'s \<Rightarrow> ('s, 'q, 'r, 'a) task \<Rightarrow> bool" where
  stays_done: "stays s (Done r)"
| stays_await: "A s q \<Longrightarrow> (\<And>r s1. G s1 (fst (k r s1)) \<and> stays (fst (k r s1)) (snd (k r s1))) \<Longrightarrow> stays s (Await q k)"

definition segment_stays :: "('s \<Rightarrow> 's \<times> ('s, 'q, 'r, 'a) task) \<Rightarrow> bool" where
  "segment_stays f \<longleftrightarrow> (\<forall>s. G s (fst (f s)) \<and> stays (fst (f s)) (snd (f s)))"

lemma moves_byD: "moves_by m \<Longrightarrow> G s (snd (m s))"
  by (simp add: moves_by_def)

lemma segment_staysD: "segment_stays f \<Longrightarrow> G s (fst (f s)) \<and> stays (fst (f s)) (snd (f s))"
  by (simp add: segment_stays_def)

lemma moves_simple: "moves_by (return x)" "moves_by (raise e)" "moves_by (from_outcome r)" "moves_by (gets f)"
  by (simp_all add: moves_by_def sync_defs G_refl)

lemma moves_bnd: "moves_by m \<Longrightarrow> (\<And>x. moves_by (f x)) \<Longrightarrow> moves_by (bnd m f)"
  unfolding moves_by_def bnd_def by (auto split: prod.splits sum.splits) (metis G_trans snd_conv)+

lemma moves_catch: "moves_by m \<Longrightarrow> (\<And>e. moves_by (h e)) \<Longrightarrow> moves_by (catch m h)"
  unfolding moves_by_def catch_def by (auto split: prod.splits sum.splits) (metis G_trans snd_conv)+

lemma moves_for_each: "(\<And>x. moves_by (f x)) \<Longrightarrow> moves_by (for_each xs f)"
  by (induction xs) (simp_all add: moves_simple moves_bnd)

lemma moves_modify: "(\<And>s. G s (f s)) \<Longrightarrow> moves_by (modify f)"
  by (simp add: moves_by_def modify_def)

lemma moves_cases:
  "moves_by a \<Longrightarrow> moves_by b \<Longrightarrow> moves_by (if c then a else b)"
  "moves_by a \<Longrightarrow> (\<And>x. moves_by (f x)) \<Longrightarrow> moves_by (case v of None \<Rightarrow> a | Some x \<Rightarrow> f x)"
  "(\<And>e. moves_by (g e)) \<Longrightarrow> (\<And>x. moves_by (g' x)) \<Longrightarrow> moves_by (case u of Inl e \<Rightarrow> g e | Inr x \<Rightarrow> g' x)"
  "(\<And>x y. moves_by (h x y)) \<Longrightarrow> moves_by (case w of (x, y) \<Rightarrow> h x y)"
  by (cases v; cases u; cases w; simp)+

lemma segment_stays_finish: "moves_by m \<Longrightarrow> segment_stays (finish m)"
  by (auto simp: segment_stays_def finish_def moves_by_def intro: stays_done split: prod.split) (metis snd_conv)

lemma segment_stays_run_try:
  assumes "moves_by m" and "\<And>e. segment_stays (h e)" and "\<And>x. segment_stays (k x)"
  shows "segment_stays (run_try m h k)"
  unfolding segment_stays_def
proof
  fix s
  obtain v s1 where m: "m s = (v, s1)"
    by (cases "m s")
  then have "G s s1"
    using moves_byD [OF assms(1), of s] by simp
  then show "G s (fst (run_try m h k s)) \<and> stays (fst (run_try m h k s)) (snd (run_try m h k s))"
    using m segment_staysD [OF assms(2), of s1] segment_staysD [OF assms(3), of s1]
    by (cases v) (auto simp: run_try_def intro: G_trans)
qed

lemma segment_stays_run_then:
  assumes "moves_by m" and "\<And>x. segment_stays (k x)"
  shows "segment_stays (run_then m k)"
proof -
  have "run_then m k = run_try m (\<lambda>e. finish (raise e)) k"
    by (rule ext) (simp add: run_then_def run_try_def finish_def raise_def split: prod.split sum.split)
  then show ?thesis
    using assms by (simp add: segment_stays_run_try segment_stays_finish moves_simple)
qed

lemma segment_stays_await:
  assumes "\<And>s. G s (f s)" and "\<And>s. A (f s) q" and "\<And>r. segment_stays (k r)"
  shows "segment_stays (\<lambda>s. (f s, Await q k))"
  unfolding segment_stays_def using assms segment_staysD [OF assms(3)] by (auto intro: stays_await)

lemma stays_caught:
  assumes "\<And>e. segment_stays (h e)"
  shows "stays s t \<Longrightarrow> G s1 s \<Longrightarrow> G s1 (fst (catch_task h t s)) \<and> stays (fst (catch_task h t s)) (snd (catch_task h t s))"
proof (induction arbitrary: s1 rule: stays.induct)
  case (stays_done s r)
  then show ?case
    using segment_staysD [OF assms] by (cases r) (auto intro: stays.stays_done G_trans)
next
  case (stays_await s q k)
  then show ?case
    by (auto simp: case_prod_unfold intro!: stays.stays_await)
qed

lemma segment_stays_caught:
  assumes "segment_stays f" and "\<And>e. segment_stays (h e)"
  shows "segment_stays (\<lambda>s. case f s of (s1, t) \<Rightarrow> catch_task h t s1)"
  unfolding segment_stays_def
proof
  fix s
  show "G s (fst (case f s of (s1, t) \<Rightarrow> catch_task h t s1)) \<and>
      stays (fst (case f s of (s1, t) \<Rightarrow> catch_task h t s1)) (snd (case f s of (s1, t) \<Rightarrow> catch_task h t s1))"
    using stays_caught [of h "fst (f s)" "snd (f s)" s] assms(2) segment_staysD [OF assms(1), of s]
    by (simp add: case_prod_unfold)
qed

lemma segment_stays_cases:
  "segment_stays a \<Longrightarrow> segment_stays b \<Longrightarrow> segment_stays (if c then a else b)"
  "segment_stays a \<Longrightarrow> (\<And>x. segment_stays (f x)) \<Longrightarrow> segment_stays (case v of None \<Rightarrow> a | Some x \<Rightarrow> f x)"
  "(\<And>e. segment_stays (g e)) \<Longrightarrow> (\<And>x. segment_stays (g' x)) \<Longrightarrow> segment_stays (case u of Inl e \<Rightarrow> g e | Inr x \<Rightarrow> g' x)"
  "(\<And>x y. segment_stays (h x y)) \<Longrightarrow> segment_stays (case w of (x, y) \<Rightarrow> h x y)"
  "segment_stays a \<Longrightarrow> (\<And>y ys. segment_stays (p y ys)) \<Longrightarrow> segment_stays (case l of [] \<Rightarrow> a | y # ys \<Rightarrow> p y ys)"
  by (cases v; cases u; cases w; cases l; simp)+

lemmas rules = moves_simple moves_bnd moves_catch moves_for_each moves_cases segment_stays_finish
  segment_stays_run_try segment_stays_run_then segment_stays_cases

end

text \<open>On the event loop: when every handler gives the guarantee, it holds from any state of a run to every later one.\<close>

locale guaranteed_loop = guarantee G A
  for G :: "'s \<Rightarrow> 's \<Rightarrow> bool" and A :: "'s \<Rightarrow> 'q \<Rightarrow> bool" +
  fixes start :: "'h \<Rightarrow> 's \<Rightarrow> 's \<times> ('s, 'q, 'r, 'a) task"
    and env :: "'s \<Rightarrow> 's \<Rightarrow> bool"
  assumes start_stays: "segment_stays (start h)"
    and env_moves: "env s s' \<Longrightarrow> G s s'"
begin

definition config_stays :: "'s \<times> ('s, 'q, 'r, 'a) task list \<Rightarrow> bool" where
  "config_stays c \<longleftrightarrow> (\<forall>t\<in>set (snd c). \<exists>s. stays s t)"

lemma loop_moves: "loop start env c c' \<Longrightarrow> config_stays c \<Longrightarrow> G (fst c) (fst c') \<and> config_stays c'"
proof (induction rule: loop.induct)
  case (spawn h s s' t ts)
  then show ?case
    using segment_staysD [OF start_stays, of s h] by (auto simp: config_stays_def)
next
  case (resume k r s s' t us q vs)
  then obtain s0 where "stays s0 (Await q k)"
    by (auto simp: config_stays_def)
  then have "G s s' \<and> stays s' t"
    using resume.hyps by (cases rule: stays.cases) (metis fst_conv snd_conv)
  then show ?case
    using resume.prems by (auto simp: config_stays_def)
next
  case (environment s s' ts)
  then show ?case
    using env_moves by (simp add: config_stays_def)
qed

lemma loops_move: "(loop start env)\<^sup>*\<^sup>* c c' \<Longrightarrow> config_stays c \<Longrightarrow> G (fst c) (fst c') \<and> config_stays c'"
proof (induction rule: rtranclp_induct)
  case (step c1 c2)
  then show ?case
    using loop_moves G_trans by blast
qed (simp add: G_refl)

lemma run_moves:
  "(loop start env)\<^sup>*\<^sup>* (s0, []) c \<Longrightarrow> (loop start env)\<^sup>*\<^sup>* c c' \<Longrightarrow> G (fst c) (fst c')"
  using loops_move by (metis config_stays_def empty_iff empty_set snd_conv)

end

subsection \<open>Relying on what grows\<close>

text \<open>
  \<open>P\<close> is an invariant, \<open>seen\<close> what a state has recorded and never forgets. A coroutine that was suspended when \<open>C\<close>
  was recorded may rely on it for the rest of its life.
\<close>

locale relying =
  fixes P :: "'s \<Rightarrow> bool"
    and seen :: "'s \<Rightarrow> 'o set"
begin

inductive steady :: "'o set \<Rightarrow> ('s, 'q, 'r, 'a) task \<Rightarrow> bool" where
  steady_done: "steady C (Done r)"
| steady_await: "(\<And>r s. P s \<Longrightarrow> C \<subseteq> seen s \<Longrightarrow>
      P (fst (k r s)) \<and> seen s \<subseteq> seen (fst (k r s)) \<and> steady (seen (fst (k r s))) (snd (k r s))) \<Longrightarrow> steady C (Await q k)"

inductive_simps steady_await_iff: "steady C (Await q k)"

definition segment_steady :: "'o set \<Rightarrow> ('s \<Rightarrow> 's \<times> ('s, 'q, 'r, 'a) task) \<Rightarrow> bool" where
  "segment_steady C f \<longleftrightarrow> (\<forall>s. P s \<longrightarrow> C \<subseteq> seen s \<longrightarrow>
     P (fst (f s)) \<and> seen s \<subseteq> seen (fst (f s)) \<and> steady (seen (fst (f s))) (snd (f s)))"

lemma segment_steadyI:
  "(\<And>s. P s \<Longrightarrow> C \<subseteq> seen s \<Longrightarrow> P (fst (f s)) \<and> seen s \<subseteq> seen (fst (f s)) \<and> steady (seen (fst (f s))) (snd (f s))) \<Longrightarrow>
   segment_steady C f"
  by (simp add: segment_steady_def)

lemma segment_steadyD:
  "segment_steady C f \<Longrightarrow> P s \<Longrightarrow> C \<subseteq> seen s \<Longrightarrow>
   P (fst (f s)) \<and> seen s \<subseteq> seen (fst (f s)) \<and> steady (seen (fst (f s))) (snd (f s))"
  by (simp add: segment_steady_def)

lemma steady_mono: "steady C t \<Longrightarrow> C \<subseteq> D \<Longrightarrow> steady D t"
proof (induction rule: steady.induct)
  case (steady_await C k q)
  then show ?case
    by (intro steady.steady_await) (blast intro: order_trans)
qed (rule steady_done)

lemma segment_steady_mono: "segment_steady C f \<Longrightarrow> C \<subseteq> D \<Longrightarrow> segment_steady D f"
  unfolding segment_steady_def by blast

lemma steady_continued: "(\<And>r. segment_steady C (k r)) \<Longrightarrow> steady C (Await q k)"
  by (rule steady_await) (rule segment_steadyD)

lemma segment_steady_await: "(\<And>r. segment_steady C (k r)) \<Longrightarrow> segment_steady C (\<lambda>s. (s, Await q k))"
  by (rule segment_steadyI) (auto intro: steady_mono [OF steady_continued])

lemma segment_steady_pure: "(\<And>s. \<exists>r. f s = (s, Done r)) \<Longrightarrow> segment_steady C f"
  by (rule segment_steadyI) (metis fst_conv snd_conv steady_done subset_refl)

lemma steady_bind:
  assumes "\<And>r. segment_steady C (h r)"
  shows "steady D t \<Longrightarrow> C \<subseteq> D \<Longrightarrow> segment_steady D (bind_task h t)"
proof (induction rule: steady.induct)
  case (steady_done D r)
  then show ?case
    by simp (rule segment_steady_mono [OF assms])
next
  case (steady_await D k q)
  show ?case
  proof (rule segment_steadyI)
    fix s assume "P s" "D \<subseteq> seen s"
    have "steady D (Await q (\<lambda>r s1. case map_prod id (bind_task h) (k r s1) of (s2, g) \<Rightarrow> g s2))"
    proof (rule steady.steady_await)
      fix r s1 assume s1: "P s1" "D \<subseteq> seen s1"
      let ?s2 = "fst (k r s1)"
      have k: "P ?s2" "seen s1 \<subseteq> seen ?s2" "segment_steady (seen ?s2) (bind_task h (snd (k r s1)))"
        using steady_await.IH [OF s1, of r] steady_await.prems s1 by auto
      show "P (fst (case map_prod id (bind_task h) (k r s1) of (s2, g) \<Rightarrow> g s2)) \<and>
          seen s1 \<subseteq> seen (fst (case map_prod id (bind_task h) (k r s1) of (s2, g) \<Rightarrow> g s2)) \<and>
          steady (seen (fst (case map_prod id (bind_task h) (k r s1) of (s2, g) \<Rightarrow> g s2)))
            (snd (case map_prod id (bind_task h) (k r s1) of (s2, g) \<Rightarrow> g s2))"
        using segment_steadyD [OF k(3) k(1)] k(2) by (auto simp: case_prod_unfold)
    qed
    then show "P (fst (bind_task h (Await q k) s)) \<and> seen s \<subseteq> seen (fst (bind_task h (Await q k) s)) \<and>
        steady (seen (fst (bind_task h (Await q k) s))) (snd (bind_task h (Await q k) s))"
      using \<open>P s\<close> \<open>D \<subseteq> seen s\<close> by (auto intro: steady_mono)
  qed
qed

lemma segment_steady_call_then:
  assumes "segment_steady C f" and "\<And>r. segment_steady C (h r)"
  shows "segment_steady C (call_then f h)"
proof (rule segment_steadyI)
  fix s assume s: "P s" "C \<subseteq> seen s"
  have f: "P (fst (f s))" "seen s \<subseteq> seen (fst (f s))" "steady (seen (fst (f s))) (snd (f s))"
    using segment_steadyD [OF assms(1) s] by auto
  have "segment_steady (seen (fst (f s))) (bind_task h (snd (f s)))"
    by (rule steady_bind [OF assms(2) f(3)]) (use s f in auto)
  from segment_steadyD [OF this f(1)]
  show "P (fst (call_then f h s)) \<and> seen s \<subseteq> seen (fst (call_then f h s)) \<and>
      steady (seen (fst (call_then f h s))) (snd (call_then f h s))"
    using f(2) by (auto simp: call_then_def case_prod_unfold)
qed

end

text \<open>The event loop: when every handler is such a coroutine, the invariant holds in every state of every run.\<close>

locale relying_loop = relying P seen
  for P :: "'s \<Rightarrow> bool" and seen :: "'s \<Rightarrow> 'o set" +
  fixes start :: "'h \<Rightarrow> 's \<Rightarrow> 's \<times> ('s, 'q, 'r, 'a) task"
    and env :: "'s \<Rightarrow> 's \<Rightarrow> bool"
  assumes start_steady: "segment_steady {} (start h)"
    and env_steady: "P s \<Longrightarrow> env s s' \<Longrightarrow> P s' \<and> seen s \<subseteq> seen s'"
begin

definition config_steady :: "'s \<times> ('s, 'q, 'r, 'a) task list \<Rightarrow> bool" where
  "config_steady c \<longleftrightarrow> P (fst c) \<and> (\<forall>t\<in>set (snd c). steady (seen (fst c)) t)"

lemma loop_steady: "loop start env c c' \<Longrightarrow> config_steady c \<Longrightarrow> config_steady c'"
proof (induction rule: loop.induct)
  case (spawn h s s' t ts)
  then show ?case
    using segment_steadyD [OF start_steady, of s h] by (auto simp: config_steady_def intro: steady_mono)
next
  case (resume k r s s' t us q vs)
  then have "P s" "steady (seen s) (Await q k)"
    by (simp_all add: config_steady_def)
  then have "P s' \<and> seen s \<subseteq> seen s' \<and> steady (seen s') t"
    using resume.hyps unfolding steady_await_iff by (metis fst_conv order_refl snd_conv)
  then show ?case
    using resume.prems by (auto simp: config_steady_def intro: steady_mono)
next
  case (environment s s' ts)
  then show ?case
    using env_steady [of s s'] by (auto simp: config_steady_def intro: steady_mono)
qed

lemma reachable_steady: "(loop start env)\<^sup>*\<^sup>* (s, []) (s', ts) \<Longrightarrow> P s \<Longrightarrow> P s'"
proof -
  have "(loop start env)\<^sup>*\<^sup>* c c' \<Longrightarrow> config_steady c \<Longrightarrow> config_steady c'" for c c'
    by (induction rule: rtranclp_induct) (auto intro: loop_steady)
  then show "(loop start env)\<^sup>*\<^sup>* (s, []) (s', ts) \<Longrightarrow> P s \<Longrightarrow> P s'"
    by (fastforce simp: config_steady_def)
qed

end

end
