(* ===== verification/Orchestrator_Calls.thy ===== *)
theory Orchestrator_Calls
  imports Guarantee Orchestrator_Invariant
begin

text \<open>
  What the coroutines of the orchestrator guarantee to the others on the loop: the list of the calls made only grows,
  the store changes by its own methods, and an answer is on that list when it is sent.
\<close>

definition advances :: "orchestrator \<Rightarrow> orchestrator \<Rightarrow> bool" where
  "advances s s' \<longleftrightarrow> set (calls s) \<subseteq> set (calls s') \<and> store_step\<^sup>*\<^sup>* (orc_store s) (orc_store s')"

interpretation asked: guarantee advances "\<lambda>s q. is_answer q \<longrightarrow> q \<in> set (calls s)"
  by unfold_locales (auto simp: advances_def)

abbreviation grows :: "'a osync \<Rightarrow> bool" where
  "grows m \<equiv> asked.moves_by m"

abbreviation records :: "segment \<Rightarrow> bool" where
  "records f \<equiv> asked.segment_stays f"

named_theorems call_rules

lemmas asked_rules [call_rules] = asked.rules

lemma grows_modify [call_rules]:
  "(\<And>s. calls (f s) = calls s) \<Longrightarrow> (\<And>s. orc_store (f s) = orc_store s) \<Longrightarrow> grows (modify f)"
  by (rule asked.moves_modify) (simp add: advances_def)

lemma grows_basic [call_rules]: "grows (utc_now c)" "grows (fresh_id c)" "grows (read_store r)"
  by (simp_all add: asked.moves_by_def advances_def utc_now_def fresh_id_def read_store_def)

lemma grows_write: "(\<And>st x st'. u st = Inr (x, st') \<Longrightarrow> store_step st st') \<Longrightarrow> grows (write_store u)"
  unfolding asked.moves_by_def advances_def write_store_def by (auto split: sum.split)

lemma grows_writes [call_rules]:
  "grows (write_store (store_enqueue_outbox ty p so ag sn i nx cr nw))"
  "grows (write_store (store_claim_session_terminal sid t su v ts))"
  "grows (write_store (store_update_session_if_status sid ex w th tu summary at nw))"
  "grows (write_store (store_create_interaction_and_mark_waiting interaction w ts))"
  "grows (write_store (store_resolve_interaction_and_refresh_session iid d a ts v'))"
  "grows (write_store (store_cancel_interaction_and_refresh_session iid ts))"
  "grows (write_store (store_finish_interactive_turn sid turn_id su ts))"
  "grows (write_store (store_reconcile_startup at ts))"
  by (rule grows_write, blast intro: store_step.intros guarded_step.intros)+

lemma grows_for_each [call_rules]: "(\<And>x. grows (f x)) \<Longrightarrow> grows (for_each xs f)"
  by (rule asked.moves_for_each)

lemma records_await [call_rules]: "(\<And>r. records (k r)) \<Longrightarrow> records (await_call q k)"
  using asked.segment_stays_await [of "\<lambda>s. s\<lparr>calls := calls s @ [q]\<rparr>" q k]
  by (simp add: await_call_def [abs_def] advances_def subset_insertI)

subsection \<open>Straight-line methods\<close>

lemma grows_steps [call_rules]:
  "grows (drop_live_for_session sid)" "grows (pop_live iid)" "grows (find_live_by_request_id i)"
  unfolding drop_live_for_session_def pop_live_def find_live_by_request_id_def by (intro call_rules; simp)+

lemma grows_add_session [call_rules]: "grows (add_session v)"
  unfolding add_session_def by (rule grows_write) (auto split: sum.splits intro: store_step.any_create_session)

lemma grows_emit [call_rules]: "grows (emit c ty sid iid st text)"
  unfolding emit_def by (intro call_rules) simp_all

lemma grows_interrupt [call_rules]: "grows (interrupt_session c sid summary)"
  unfolding interrupt_session_def by (intro call_rules)

lemma grows_interrupt_active [call_rules]: "grows (interrupt_active c summary)"
  unfolding interrupt_active_def by (intro call_rules)

lemma grows_check_startup [call_rules]: "grows (check_startup c sid expected th tu)"
  unfolding check_startup_def by (intro call_rules)

lemma grows_create_interactive [call_rules]: "grows (create_interactive_session c name cwd model sandbox)"
  unfolding create_interactive_session_def Let_def by (intro call_rules) simp_all

lemma grows_bind [call_rules]: "grows (bind_interactive_thread c sid th tu)"
  unfolding bind_interactive_thread_def by (intro call_rules)

lemma grows_session_of [call_rules]: "grows (session_of_request request sid)"
  unfolding session_of_request_def Let_def by (intro call_rules)

lemma grows_register [call_rules]: "grows (register_interaction c request kind v responder)"
  unfolding register_interaction_def Let_def by (intro call_rules) simp_all

lemma grows_decide [call_rules]: "grows (decide c iid d a)" "grows (decide_expired c t l iid)"
  unfolding decide_def decide_expired_def Let_def by (intro call_rules)+

lemma grows_end_session [call_rules]: "grows (end_session c sid st summary)"
  unfolding end_session_def by (intro call_rules)

lemma grows_finish_turn [call_rules]: "grows (finish_turn c v turn_id st summary)"
  unfolding finish_turn_def by (intro call_rules)

lemma grows_texts [call_rules]: "grows (take_final_text th turn_id summary)" "grows (remember_final_text params)"
  by (auto simp: take_final_text_def remember_final_text_def asked.moves_by_def advances_def sync_defs Let_def
      split: json.split option.split)

lemma grows_request_resolved [call_rules]: "grows (request_resolved c params)"
  unfolding request_resolved_def by (intro call_rules)

text \<open>The two notifications of a turn, for parameters of the right shape.\<close>

lemma grows_turn_case [call_rules]:
  "(\<And>x y. grows (f x y)) \<Longrightarrow> grows z \<Longrightarrow> grows (case (a, b) of (JStr x, JObj y) \<Rightarrow> f x y | _ \<Rightarrow> z)"
  by (cases a; cases b) simp_all

lemma grows_turns [call_rules]: "grows (turn_started c params)" "grows (turn_completed c params)"
  unfolding turn_started_def turn_completed_def by (intro call_rules)+

lemma grows_notification [call_rules]: "grows (process_notification c n)"
  unfolding process_notification_def by (intro call_rules)

lemma grows_close_interactive [call_rules]: "grows (close_interactive_session c sid)"
  unfolding close_interactive_session_def by (intro call_rules) simp_all

lemma grows_finish_start [call_rules]: "grows (finish_start c)"
  unfolding finish_start_def by (intro call_rules) simp_all

subsection \<open>Coroutines\<close>

lemma records_startup_failed [call_rules]: "records (startup_failed c sid e)"
  unfolding startup_failed_def Let_def by (intro call_rules)

lemma records_create [call_rules]:
  "records (create_after_turn c sid reply)" "records (create_after_thread c sid prompt reply)"
  "records (create_session c name cwd prompt model sandbox)"
  unfolding create_after_turn_def create_after_thread_def create_session_def by (intro call_rules)+

lemma records_request_error [call_rules]: "records (respond_request_error i responder code msg)"
  unfolding respond_request_error_def by (intro call_rules)

lemma records_request [call_rules]: "records (process_server_request c request sid responder)"
  unfolding process_server_request_def by (intro call_rules)

lemma records_after_answer [call_rules]: "records (after_answer c iid l d reply)"
  unfolding after_answer_def Let_def by (intro call_rules)

lemma records_answers [call_rules]:
  "records (resolve_interaction c iid a allow answers)" "records (resolve_terminal_request c i x)"
  unfolding resolve_interaction_def resolve_terminal_request_def by (intro call_rules)+

lemma records_after_expiry [call_rules]:
  "records rest \<Longrightarrow> records (after_denial c iid l rest reply)"
  "records rest \<Longrightarrow> records (after_input_expired c sid rest reply)"
  unfolding after_denial_def after_input_expired_def Let_def by (intro call_rules; assumption)+

lemma records_expire_each [call_rules]: "records (expire_each c t entries expired)"
proof (induction entries arbitrary: expired)
  case (Cons entry entries)
  show ?case
    unfolding expire_each.simps Let_def by (intro call_rules Cons.IH)
qed (simp add: asked.rules)

lemma records_expire [call_rules]: "records (expire_due_interactions c now)"
  unfolding expire_due_interactions_def by (intro call_rules)

lemma records_cancel [call_rules]: "records (cancel_session c sid)"
  unfolding cancel_session_def by (intro call_rules) simp_all

lemma records_start [call_rules]: "records (start c)"
  unfolding start_def by (intro call_rules)

lemma records_close [call_rules]: "records close_app_server" "records close"
  unfolding close_def close_app_server_def by (intro call_rules; simp)+

lemma records_failed [call_rules]: "records (consumer_failed c e)"
  unfolding consumer_failed_def by (intro call_rules) simp_all

lemma records_consume [call_rules]: "records (consume_request c request)" "records (consume_notification c n)"
  unfolding consume_request_def [abs_def] consume_notification_def
  by (rule asked.segment_stays_caught; intro call_rules) (intro call_rules)

lemma records_monitor [call_rules]: "records (monitor_app_server c)"
  unfolding monitor_app_server_def Let_def by (intro call_rules)

lemma records_handler: "records (start_handler c h)"
  by (cases h; simp only: start_handler.simps; intro call_rules)

subsection \<open>The event loop of the orchestrator\<close>

lemma others_step: "others st st' \<Longrightarrow> store_step st st'"
  by (cases rule: others.cases) (auto intro: store_step.intros guarded_step.intros)

lemma environment_advances: "environment s s' \<Longrightarrow> advances s s'"
  by (erule environment.cases) (auto simp: advances_def dest: others_step)

interpretation asked_loop: guaranteed_loop advances "\<lambda>s q. is_answer q \<longrightarrow> q \<in> set (calls s)" "start_handler c" environment for c
  by unfold_locales (rule records_handler, rule environment_advances)

end
