(* ===== verification/Gateway_Answers.thy ===== *)
theory Gateway_Answers
  imports Guarantee Gateway
begin

text \<open>
  What the coroutines of a gateway guarantee: they set out to send no answer to the app-server. The one exception is
  \<^verbatim>\<open>respond_upstream\<close>, which sends the one it was called with.
\<close>

interpretation answering: guarantee "\<lambda>g g'. set (g_answers g') \<subseteq> S \<union> set (g_answers g)" "\<lambda>_ _. True"
  for S :: "(rpc_id \<times> json_object) set"
  by unfold_locales auto

abbreviation answers_only :: "(rpc_id \<times> json_object) set \<Rightarrow> gsegment \<Rightarrow> bool" where
  "answers_only S f \<equiv> answering.segment_stays S f"

named_theorems answer_rules

lemmas answering_rules [answer_rules] = answering.rules

lemma answers_modify [answer_rules]: "(\<And>g. g_answers (f g) = g_answers g) \<Longrightarrow> answering.moves_by S (modify f)"
  by (rule answering.moves_modify) simp

lemma answers_await [answer_rules]: "(\<And>r. answers_only S (k r)) \<Longrightarrow> answers_only S (gawait q k)"
  unfolding gawait_def [abs_def] by (rule answering.segment_stays_await) auto

lemma answers_done [answer_rules]: "answers_only S gdone"
  unfolding gdone_def by (intro answer_rules)

lemma answers_log [answer_rules]:
  "answering.moves_by S (mark_responded i)" "answering.moves_by S (unmark_responded i)" "answering.moves_by S (log_it x)"
  by (auto simp: answering.moves_by_def mark_responded_def unmark_responded_def log_it_def bnd_def sync_defs)

lemma answers_send [answer_rules]: "(\<And>r. answers_only S (k r)) \<Longrightarrow> answers_only S (send_upstream m k)"
  unfolding send_upstream_def by (intro answer_rules) simp_all

subsection \<open>The answer that is sent\<close>

lemma answers_payload: "answers_only {(i, p)} (respond_with_payload i p)"
proof -
  have "answering.moves_by {(i, p)} (modify (\<lambda>g. g\<lparr>g_answers := g_answers g @ [(i, p)]\<rparr>))"
    by (rule answering.moves_modify) simp
  then show ?thesis
    unfolding respond_with_payload_def
    by (intro answers_await answers_send answering.segment_stays_run_then answers_log answering.rules)
qed

lemma answers_respond:
  "answers_only {(i, case err of Some e \<Rightarrow> [(''error'', e)] | None \<Rightarrow> [(''result'', result)])} (respond_upstream i result err)"
  unfolding respond_upstream_def by (rule answers_payload)

subsection \<open>Everything else\<close>

lemma answers_observe [answer_rules]: "answers_only S rest \<Longrightarrow> answers_only S (observe q rest)"
  unfolding observe_def by (intro answer_rules; assumption)

lemma answers_wait [answer_rules]: "answers_only S rest \<Longrightarrow> answers_only S (wait_call q rest)"
  unfolding wait_call_def by (intro answer_rules; assumption)

lemma answers_terminal [answer_rules]: "answers_only S (answer_terminal m raw)" "answers_only S (handle_terminal_message c m raw)"
  unfolding answer_terminal_def handle_terminal_message_def Let_def by (intro answer_rules; simp)+

lemma answers_notes [answer_rules]:
  "answering.moves_by S (note_intercepted m)" "answering.moves_by S (note_resolved m)" "answering.moves_by S (note_turn_started m)"
  "answering.moves_by S (note_turn_completed m)" "answering.moves_by S (create_callback m)"
  "answering.moves_by S (callback_finished i n)"
  by (auto simp: answering.moves_by_def note_intercepted_def note_resolved_def note_turn_started_def note_turn_completed_def
      create_callback_def callback_finished_def bnd_def sync_defs Let_def split: option.splits json.splits prod.splits)

lemma answers_put [answer_rules]: "answers_only S rest \<Longrightarrow> answers_only S (put_terminal c raw rest)"
  unfolding put_terminal_def by (intro answer_rules) simp_all

lemma answers_forward [answer_rules]: "answers_only S (forward_to_terminal c m raw b)"
  unfolding forward_to_terminal_def by (intro answer_rules)

lemma answers_observed [answer_rules]: "answers_only S rest \<Longrightarrow> answers_only S (observe_response c i m q rest)"
  unfolding observe_response_def by (intro answer_rules; assumption)

lemma answers_take [answer_rules]:
  "answering.moves_by S (\<lambda>g. (Inr (map_of (g_requests g) i), g\<lparr>g_requests := dict_pop i (g_requests g)\<rparr>))"
  "answering.moves_by S (\<lambda>g. (Inr (map_of (g_callbacks g) n, g_responded g), g\<lparr>g_callbacks := dict_pop n (g_callbacks g)\<rparr>))"
  by (simp_all add: answering.moves_by_def)

lemma answers_case_pair [answer_rules]:
  "(\<And>x. answers_only S (f x)) \<Longrightarrow> answers_only S g \<Longrightarrow> answers_only S (case (a, b) of (None, Some x) \<Rightarrow> f x | _ \<Rightarrow> g)"
  by (cases a; cases b) simp_all

lemma answers_upstream [answer_rules]: "answers_only S (handle_upstream_message c m raw)"
  unfolding handle_upstream_message_def Let_def by (intro answer_rules)

lemma answers_callback [answer_rules]: "answers_only S (run_server_request_callback n)"
  unfolding run_server_request_callback_def Let_def by (intro answer_rules)

lemma answers_connections [answer_rules]:
  "answers_only S rest \<Longrightarrow> answers_only S (leave_terminal ws rest)" "answers_only S (connect_terminal ws)"
  "answers_only S (close_terminal n reason)" "answers_only S (deliver_next ws)"
  unfolding leave_terminal_def connect_terminal_def close_terminal_def deliver_next_def by (intro answer_rules; simp)+

lemma answers_ends [answer_rules]: "answers_only S (stop_terminal ws e)" "answers_only S (upstream_closed e)"
  unfolding stop_terminal_def upstream_closed_def by (intro answer_rules)+

lemma answers_case_frame [answer_rules]:
  "answers_only S a \<Longrightarrow> (\<And>x. answers_only S (f x)) \<Longrightarrow> answers_only S (case v of BinaryFrame \<Rightarrow> a | TextFrame x \<Rightarrow> f x)"
  by (cases v) simp_all

lemma answers_frames [answer_rules]: "answers_only S (terminal_frame c ws f)" "answers_only S (upstream_frame c f)"
  unfolding terminal_frame_def [abs_def] upstream_frame_def [abs_def] terminal_frame_body_def upstream_frame_body_def
  by (rule answering.segment_stays_caught; intro answer_rules)+

lemma answers_finish_close [answer_rules]: "answers_only S rest \<Longrightarrow> answers_only S (finish_close rest)"
  unfolding finish_close_def by (intro answer_rules) simp_all

lemma answers_close [answer_rules]: "answers_only S rest \<Longrightarrow> answers_only S (close_gateway rest)"
  unfolding close_gateway_def by (intro answer_rules) simp_all

lemma answers_start [answer_rules]: "answers_only S (start_gateway c)"
  unfolding start_gateway_def Let_def by (intro answer_rules) simp_all

text \<open>Every entry but \<open>respond_upstream\<close>.\<close>

lemma answers_entry: "\<not> answers_itself h \<Longrightarrow> answers_only S (gateway_entry c h)"
  by (cases h; simp only: gateway_entry.simps answers_itself_def gateway_handler.case not_True_eq_False; intro answer_rules)

end
