(* ===== verification/Terminal_Sessions.thy ===== *)
theory Terminal_Sessions
  imports Interactive Daemon_Properties
begin

text \<open>
  The terminal sessions put together: one orchestrator and a gateway for each session, joined by the callbacks of
  \<^verbatim>\<open>InteractiveSessionManager.create_session\<close>. A callback of the gateway runs the orchestrator's method within
  the gateway's coroutine; the orchestrator sends an answer through the responder it was given, which is
  \<^verbatim>\<open>respond_upstream\<close> of the gateway. What the two do to other parties stays a call with any reply.
\<close>

subsection \<open>The state and the calls\<close>

record world =
  w_orc :: orchestrator
  w_gateways :: "string \<Rightarrow> gateway"

datatype world_call = GatewayCall string gateway_call | OrchestratorCall call

type_synonym 'a wtask = "(world, world_call, string, 'a) task"
type_synonym 'a wsegment = "world \<Rightarrow> world \<times> 'a wtask"

definition set_gateway :: "string \<Rightarrow> gateway \<Rightarrow> world \<Rightarrow> world" where
  "set_gateway sid g w = w\<lparr>w_gateways := (w_gateways w)(sid := g)\<rparr>"

abbreviation no_value :: "'a outcome \<Rightarrow> unit outcome" where
  "no_value \<equiv> map_sum id (\<lambda>_. ())"

abbreviation no_text :: "'a outcome \<Rightarrow> string outcome" where
  "no_text \<equiv> map_sum id (\<lambda>_. [])"

subsection \<open>The responder: the gateway without its callbacks\<close>

primrec plain_gateway :: "string \<Rightarrow> gtask \<Rightarrow> bool wsegment" where
  "plain_gateway sid (Done r) = (\<lambda>w. (w, Done r))"
| "plain_gateway sid (Await q k) = (\<lambda>w. (w, Await (GatewayCall sid q) (\<lambda>r w1.
     (case map_prod id (plain_gateway sid) (k (no_value r) (w_gateways w1 sid)) of (g, f) \<Rightarrow> f (set_gateway sid g w1)))))"

definition in_gateway :: "(gtask \<Rightarrow> 'a wsegment) \<Rightarrow> string \<Rightarrow> gsegment \<Rightarrow> 'a wsegment" where
  "in_gateway run sid f w = (case f (w_gateways w sid) of (g, t) \<Rightarrow> run t (set_gateway sid g w))"

abbreviation respond_through :: "string \<Rightarrow> rpc_id \<Rightarrow> json \<Rightarrow> json option \<Rightarrow> bool wsegment" where
  "respond_through sid i result err \<equiv> in_gateway (plain_gateway sid) sid (respond_upstream i result err)"

subsection \<open>The orchestrator with the gateways as responders\<close>

definition error_object :: "int \<Rightarrow> string \<Rightarrow> json" where
  "error_object code message = JObj [(''code'', JInt code), (''message'', JStr message)]"

fun orchestrator_call :: "call \<Rightarrow> (string outcome \<Rightarrow> 'a wsegment) \<Rightarrow> 'a wsegment" where
  "orchestrator_call (CallAnswer l response) h =
     (case l_responder l of
        Some sid \<Rightarrow> call_then (respond_through sid (q_id (l_request l)) response None) (\<lambda>r. h (no_text r))
      | None \<Rightarrow> (\<lambda>w. (w, Await (OrchestratorCall (CallAnswer l response)) h)))"
| "orchestrator_call (CallError (Some sid) i code message) h =
     call_then (respond_through sid i JNull (Some (error_object code message))) (\<lambda>r. h (no_text r))"
| "orchestrator_call q h = (\<lambda>w. (w, Await (OrchestratorCall q) h))"

primrec run_orchestrator :: "otask \<Rightarrow> reply_value wsegment" where
  "run_orchestrator (Done r) = (\<lambda>w. (w, Done r))"
| "run_orchestrator (Await q k) = orchestrator_call q (\<lambda>r w1.
     (case map_prod id run_orchestrator (k r (w_orc w1)) of (s, f) \<Rightarrow> f (w1\<lparr>w_orc := s\<rparr>)))"

definition in_orchestrator :: "segment \<Rightarrow> reply_value wsegment" where
  "in_orchestrator f w = (case f (w_orc w) of (s, t) \<Rightarrow> run_orchestrator t (w\<lparr>w_orc := s\<rparr>))"

subsection \<open>The gateway with its callbacks\<close>

fun gateway_callback ::
  "orchestrator_config \<Rightarrow> string \<Rightarrow> gateway_call \<Rightarrow> (unit outcome \<Rightarrow> bool wsegment) \<Rightarrow> bool wsegment" where
  "gateway_callback c sid (GOnServerRequest request) h =
     call_then (in_orchestrator (on_server_request c sid request)) (\<lambda>r. h (no_value r))"
| "gateway_callback c sid (GOnTerminalResponse i payload) h =
     (case on_terminal_response i payload of
        AnswerError j e \<Rightarrow> call_then (respond_through sid j JNull (Some e)) (\<lambda>r. h (no_value r))
      | ResolveTerminal j result \<Rightarrow>
          call_then (in_orchestrator (resolve_terminal_request c j result)) (\<lambda>r. h (no_value r)))"
| "gateway_callback c sid (GOnTerminalRequest i method params) h = h (Inr ())"
| "gateway_callback c sid (GOnUpstreamResponse i method params payload) h =
     call_then (in_orchestrator (finish (bnd (on_upstream_response c sid method params payload) (\<lambda>_. return RNone))))
       (\<lambda>r. h (no_value r))"
| "gateway_callback c sid (GOnNotification n) h =
     call_then (in_orchestrator (finish (bnd (on_notification c n) (\<lambda>_. return RNone)))) (\<lambda>r. h (no_value r))"
| "gateway_callback c sid q h = (\<lambda>w. (w, Await (GatewayCall sid q) (\<lambda>r. h (no_value r))))"

primrec run_gateway :: "orchestrator_config \<Rightarrow> string \<Rightarrow> gtask \<Rightarrow> bool wsegment" where
  "run_gateway c sid (Done r) = (\<lambda>w. (w, Done r))"
| "run_gateway c sid (Await q k) = gateway_callback c sid q (\<lambda>r w1.
     (case map_prod id (run_gateway c sid) (k r (w_gateways w1 sid)) of (g, f) \<Rightarrow> f (set_gateway sid g w1)))"

subsection \<open>The event loop\<close>

text \<open>A gateway answers through its callbacks only: nobody else has its \<^verbatim>\<open>respond_upstream\<close>.\<close>

datatype world_handler = WGateway string gateway_handler | WOrchestrator handler

primrec world_start :: "orchestrator_config \<Rightarrow> (string \<Rightarrow> gateway_config) \<Rightarrow> world_handler \<Rightarrow> bool wsegment" where
  "world_start c gc (WGateway sid h) =
     (if answers_itself h then finish (return False) else in_gateway (run_gateway c sid) sid (gateway_entry (gc sid) h))"
| "world_start c gc (WOrchestrator h) =
     call_then (in_orchestrator (start_handler c h)) (\<lambda>r. finish (from_outcome (map_sum id (\<lambda>_. True) r)))"

inductive world_environment :: "world \<Rightarrow> world \<Rightarrow> bool" where
  orchestrator: "environment (w_orc w) s \<Longrightarrow> world_environment w (w\<lparr>w_orc := s\<rparr>)"

definition new_world :: "codex_store \<Rightarrow> world" where
  "new_world st = \<lparr>w_orc = initial st, w_gateways = (\<lambda>_. new_gateway)\<rparr>"

definition world_run :: "orchestrator_config \<Rightarrow> (string \<Rightarrow> gateway_config) \<Rightarrow> codex_store \<Rightarrow> world \<Rightarrow> bool" where
  "world_run c gc st w \<longleftrightarrow> (\<exists>ts. (loop (world_start c gc) world_environment)\<^sup>*\<^sup>* (new_world st, []) (w, ts))"

subsection \<open>The orchestrator inside\<close>

lemma set_gateway_simps [simp]: "w_orc (set_gateway sid g w) = w_orc w"
    "w_gateways (set_gateway sid g w) = (w_gateways w)(sid := g)"
  by (simp_all add: set_gateway_def)

text \<open>While the task \<open>a\<close> of the orchestrator is where it is, the segment takes it along.\<close>

definition carries :: "orchestrator_config \<Rightarrow> otask option \<Rightarrow> 'a wsegment \<Rightarrow> bool" where
  "carries c a f \<longleftrightarrow> (\<forall>w. \<exists>b. moves c (w_orc w) a (w_orc (fst (f w))) b \<and> tracks c w_orc (snd (f w)) b)"

lemma follows_carries: "follows c w_orc f \<longleftrightarrow> (\<forall>a. carries c a f)"
  by (auto simp: follows_def carries_def)

lemma carriesD: "carries c a f \<Longrightarrow> \<exists>b. moves c (w_orc w) a (w_orc (fst (f w))) b \<and> tracks c w_orc (snd (f w)) b"
  by (simp add: carries_def)

lemma tracks_segment: "(\<And>r. carries c a (k r)) \<Longrightarrow> tracks c w_orc (Await q k) a"
  by (rule tracks_await) (rule carriesD)

lemma carries_await:
  fixes h :: "string outcome \<Rightarrow> 'a wsegment"
  shows "(\<And>r. carries c a (h r)) \<Longrightarrow> carries c a (\<lambda>w. (w, Await q h))"
  unfolding carries_def [of c a "\<lambda>w. (w, Await q h)"] by (auto intro: tracks_segment moves_refl)

text \<open>A gateway without callbacks leaves the orchestrator alone.\<close>

lemma snd_in_snds: "snd x \<in> Basic_BNFs.snds x"
  by (cases x) (auto simp: prod_set_simps)

lemma carries_plain:
  assumes "\<And>r. carries c a (h r)"
  shows "carries c a (\<lambda>w. case plain_gateway sid t w of (w', t') \<Rightarrow> bind_task h t' w')"
proof (induction t)
  case (Done r)
  then show ?case
    using assms by (simp add: carries_def)
next
  case (Await q k)
  let ?k = "\<lambda>r w. k (no_value r) (w_gateways w sid)"
  let ?next = "\<lambda>r w. set_gateway sid (fst (?k r w)) w"
  have "carries c a (\<lambda>w. case plain_gateway sid (snd (k r g)) w of (w', t') \<Rightarrow> bind_task h t' w')" for r g
    by (rule Await.IH [OF rangeI rangeI snd_in_snds])
  then have "carries c a (\<lambda>w. bind_task h (snd (plain_gateway sid (snd (?k r w)) (?next r w)))
      (fst (plain_gateway sid (snd (?k r w)) (?next r w))))" for r
    unfolding carries_def by (auto simp: case_prod_unfold) (metis set_gateway_simps(1))
  then show ?case
    by (auto simp: case_prod_unfold intro!: carries_await)
qed

lemma carries_in_gateway:
  assumes "\<And>t. carries c a (\<lambda>w. run t w)"
  shows "carries c a (in_gateway run sid f)"
  using assms unfolding carries_def in_gateway_def
  by (auto simp: case_prod_unfold) (metis set_gateway_simps(1))

lemma carries_respond:
  assumes "\<And>r. carries c a (h r)"
  shows "carries c a (call_then (respond_through sid i result err) h)"
proof -
  have "call_then (respond_through sid i result err) h =
      in_gateway (\<lambda>t w. case plain_gateway sid t w of (w', t') \<Rightarrow> bind_task h t' w') sid (respond_upstream i result err)"
    by (rule ext) (simp add: call_then_def in_gateway_def case_prod_unfold)
  then show ?thesis
    using carries_in_gateway [of c a "\<lambda>t w. case plain_gateway sid t w of (w', t') \<Rightarrow> bind_task h t' w'"] carries_plain [OF assms]
    by simp
qed

lemma carries_orchestrator_call:
  assumes "\<And>r. carries c a (h r)"
  shows "carries c a (orchestrator_call q h)"
proof (cases "(q, h)" rule: orchestrator_call.cases)
  case (1 l response h')
  then show ?thesis
    using assms by (auto split: option.split intro!: carries_respond carries_await)
qed (use assms in \<open>auto intro!: carries_respond carries_await\<close>)

lemma tracks_run: "tracks c id t a \<Longrightarrow> carries c a (run_orchestrator t)"
proof (induction rule: tracks.induct)
  case (tracks_done r a)
  then show ?case
    by (auto simp: carries_def intro: tracks.tracks_done moves_refl)
next
  case (tracks_await a k q)
  have "carries c a (\<lambda>w. run_orchestrator (snd (k r (w_orc w))) (w\<lparr>w_orc := fst (k r (w_orc w))\<rparr>))" for r
    unfolding carries_def
  proof
    fix w :: world
    obtain b where b: "moves c (w_orc w) a (fst (k r (w_orc w))) b" "carries c b (run_orchestrator (snd (k r (w_orc w))))"
      using tracks_await [of "w_orc w" r] by auto
    obtain d where "moves c (fst (k r (w_orc w))) b
        (w_orc (fst (run_orchestrator (snd (k r (w_orc w))) (w\<lparr>w_orc := fst (k r (w_orc w))\<rparr>)))) d"
      "tracks c w_orc (snd (run_orchestrator (snd (k r (w_orc w))) (w\<lparr>w_orc := fst (k r (w_orc w))\<rparr>))) d"
      using carriesD [OF b(2), of "w\<lparr>w_orc := fst (k r (w_orc w))\<rparr>"] by auto
    then show "\<exists>d. moves c (w_orc w) a
        (w_orc (fst (run_orchestrator (snd (k r (w_orc w))) (w\<lparr>w_orc := fst (k r (w_orc w))\<rparr>)))) d \<and>
        tracks c w_orc (snd (run_orchestrator (snd (k r (w_orc w))) (w\<lparr>w_orc := fst (k r (w_orc w))\<rparr>))) d"
      using moves_trans [OF b(1)] by blast
  qed
  then show ?case
    by (auto simp: case_prod_unfold intro!: carries_orchestrator_call)
qed

lemma follows_in_orchestrator [follow_rules]:
  assumes "follows c id f"
  shows "follows c w_orc (in_orchestrator f)"
  unfolding follows_def
proof (intro allI)
  fix a and w :: world
  obtain b where b: "moves c (w_orc w) a (fst (f (w_orc w))) b" "tracks c id (snd (f (w_orc w))) b"
    using followsD [OF assms, of "w_orc w" a] by auto
  obtain d where "moves c (fst (f (w_orc w))) b (w_orc (fst (in_orchestrator f w))) d" "tracks c w_orc (snd (in_orchestrator f w)) d"
    using carriesD [OF tracks_run [OF b(2)], of "w\<lparr>w_orc := fst (f (w_orc w))\<rparr>"]
    by (auto simp: in_orchestrator_def case_prod_unfold)
  then show "\<exists>d. moves c (w_orc w) a (w_orc (fst (in_orchestrator f w))) d \<and> tracks c w_orc (snd (in_orchestrator f w)) d"
    using moves_trans [OF b(1)] by blast
qed

lemma follows_wawait [follow_rules]:
  fixes h :: "string outcome \<Rightarrow> 'a wsegment"
  shows "(\<And>r. follows c w_orc (h r)) \<Longrightarrow> follows c w_orc (\<lambda>w. (w, Await q h))"
  by (simp add: follows_carries carries_await)

lemma follows_call_respond [follow_rules]:
  "(\<And>r. follows c w_orc (h r)) \<Longrightarrow> follows c w_orc (call_then (respond_through sid i result err) h)"
  by (simp add: follows_carries carries_respond)

lemma follows_callbacks [follow_rules]:
  "follows c id (on_server_request c sid request)" "follows c id (resolve_terminal_request c i result)"
  "follows c id (finish (bnd (on_notification c n) (\<lambda>_. return RNone)) :: segment)"
  using follows_handler [of c "HRequest request (Some sid) (Some sid)"] follows_handler [of c "HTerminal i result"]
    follows_handler [of c "HNotification n"]
  by (simp_all add: on_server_request_def on_notification_def)

lemma follows_binding [follow_rules]:
  "follows c id (finish (bnd (on_upstream_response c sid method params payload) (\<lambda>_. return RNone)) :: segment)"
proof (cases "bound_thread method params payload")
  case None
  then show ?thesis
    by (auto simp: on_upstream_response_def intro!: follow_rules quiet_bnd)
next
  case (Some thread)
  let ?f = "finish (bnd (on_upstream_response c sid method params payload) (\<lambda>_. return RNone)) :: segment"
  have same: "fst (start_handler c (HBind sid thread None) s) = fst (?f s) \<and> (\<exists>r. snd (?f s) = Done r)" for s
    using Some by (simp add: on_upstream_response_def finish_def bnd_def return_def split: prod.split sum.split)
  show ?thesis
    unfolding follows_def
  proof (intro allI)
    fix a and s :: orchestrator
    obtain s' t where "start_handler c (HBind sid thread None) s = (s', t)"
      by (cases "start_handler c (HBind sid thread None) s")
    then have "moves c s a (fst (?f s)) (Some t)"
      using moves_spawn same [of s] by (metis fst_conv)
    then show "\<exists>b. moves c (id s) a (id (fst (?f s))) b \<and> tracks c id (snd (?f s)) b"
      using same [of s] tracks_done by fastforce
  qed
qed

lemma follows_gateway_callback:
  assumes "\<And>r. follows c w_orc (h r)"
  shows "follows c w_orc (gateway_callback c sid q h)"
proof (cases q)
  case (GOnTerminalResponse i payload)
  then show ?thesis
    using assms by (cases "on_terminal_response i payload") (simp_all add: follow_rules)
qed (use assms in \<open>simp_all add: follow_rules\<close>)

lemma follows_run_gateway: "follows c w_orc (run_gateway c sid t)"
proof (induction t)
  case (Done r)
  then show ?case
    by (auto simp: follows_def intro: tracks_done moves_refl)
next
  case (Await q k)
  have step: "follows c w_orc (run_gateway c sid (snd (k r g)))" for r g
    by (rule Await.IH [OF rangeI rangeI snd_in_snds])
  have "follows c w_orc (\<lambda>w. run_gateway c sid (snd (k r (w_gateways w sid))) (set_gateway sid (fst (k r (w_gateways w sid))) w))" for r
    unfolding follows_def using followsD [OF step] by (metis set_gateway_simps(1))
  then show ?case
    by (auto simp: case_prod_unfold intro!: follows_gateway_callback)
qed

lemma follows_in_run_gateway [follow_rules]: "follows c w_orc (in_gateway (run_gateway c sid) sid f)"
  unfolding follows_carries
  by (intro allI carries_in_gateway follows_run_gateway [unfolded follows_carries, rule_format])

lemma follows_world: "follows c w_orc (world_start c gc h)"
  by (cases h; simp only: world_start.simps; intro follow_rules quiet_intros)

lemma world_environment_inside: "world_environment w w' \<Longrightarrow> environment (w_orc w) (w_orc w')"
  by (cases rule: world_environment.cases) auto

interpretation in_world: orchestrator_inside c w_orc "world_start c gc" world_environment for c gc
  by unfold_locales (rule follows_world, rule world_environment_inside)

subsection \<open>The gateways inside\<close>

definition gateways_ok :: "world \<Rightarrow> bool" where
  "gateways_ok w \<longleftrightarrow> (\<forall>sid. gateway_inv (w_gateways w sid))"

lemma gateways_ok_gateway: "gateways_ok w \<Longrightarrow> gateway_inv (w_gateways w sid)"
  by (simp add: gateways_ok_def)

lemma gateways_ok_set: "gateways_ok w \<Longrightarrow> gateway_inv g \<Longrightarrow> gateways_ok (set_gateway sid g w)"
  by (simp add: gateways_ok_def)

lemma gateways_ok_plain: "safe gateway_inv t \<Longrightarrow> segment_ok gateways_ok (plain_gateway sid t)"
proof (induction rule: safe.induct)
  case (finished r)
  then show ?case
    by (simp add: segment_ok_def)
next
  case (suspended k q)
  have "gateways_ok w \<Longrightarrow> gateways_ok (set_gateway sid (fst (k r (w_gateways w sid))) w) \<and>
      segment_ok gateways_ok (plain_gateway sid (snd (k r (w_gateways w sid))))" for r w
    using suspended [of "w_gateways w sid" r] gateways_ok_set by (simp add: gateways_ok_gateway)
  then show ?case
    by (simp add: segment_ok_def case_prod_unfold)
qed

lemma gateways_ok_in_gateway:
  assumes "gok f" and "\<And>t. safe gateway_inv t \<Longrightarrow> segment_ok gateways_ok (run t)"
  shows "segment_ok gateways_ok (in_gateway run sid f)"
  unfolding segment_ok_def
proof (intro allI impI)
  fix w
  assume w: "gateways_ok w"
  obtain g t where f: "f (w_gateways w sid) = (g, t)"
    by (cases "f (w_gateways w sid)")
  then have "gateway_inv g" "safe gateway_inv t"
    using assms(1) w by (auto simp: segment_ok_def gateways_ok_def) (metis fst_conv snd_conv)+
  then show "gateways_ok (fst (in_gateway run sid f w)) \<and> safe gateways_ok (snd (in_gateway run sid f w))"
    using assms(2) [of t] gateways_ok_set [OF w] f by (simp add: in_gateway_def segment_ok_def)
qed

lemma gateways_ok_respond: "segment_ok gateways_ok (respond_through sid i result err)"
  by (intro gateways_ok_in_gateway gateways_ok_plain keeps_rules)

lemma gateways_ok_orchestrator_call:
  assumes "\<And>r. segment_ok gateways_ok (h r)"
  shows "segment_ok gateways_ok (orchestrator_call q h)"
proof -
  have await: "segment_ok gateways_ok (\<lambda>w. (w, Await q' h))" for q'
    using assms by (simp add: segment_ok_def)
  show ?thesis
  proof (cases "(q, h)" rule: orchestrator_call.cases)
    case (1 l response h')
    then show ?thesis
      using assms await by (auto split: option.split intro!: segment_call_then gateways_ok_respond)
  qed (use assms await in \<open>auto intro!: segment_call_then gateways_ok_respond\<close>)
qed

lemma gateways_ok_run: "segment_ok gateways_ok (run_orchestrator t)"
proof (induction t)
  case (Done r)
  then show ?case
    by (simp add: segment_ok_def)
next
  case (Await q k)
  have step: "segment_ok gateways_ok (run_orchestrator (snd (k r s)))" for r s
    by (rule Await.IH [OF rangeI rangeI snd_in_snds])
  have "segment_ok gateways_ok (\<lambda>w. run_orchestrator (snd (k r (w_orc w))) (w\<lparr>w_orc := fst (k r (w_orc w))\<rparr>))" for r
    unfolding segment_ok_def
  proof (intro allI impI)
    fix w
    assume "gateways_ok w"
    then have "gateways_ok (w\<lparr>w_orc := fst (k r (w_orc w))\<rparr>)"
      by (simp add: gateways_ok_def)
    then show "gateways_ok (fst (run_orchestrator (snd (k r (w_orc w))) (w\<lparr>w_orc := fst (k r (w_orc w))\<rparr>))) \<and>
        safe gateways_ok (snd (run_orchestrator (snd (k r (w_orc w))) (w\<lparr>w_orc := fst (k r (w_orc w))\<rparr>)))"
      using step unfolding segment_ok_def by blast
  qed
  then show ?case
    by (auto simp: case_prod_unfold intro!: gateways_ok_orchestrator_call)
qed

lemma gateways_ok_in_orchestrator: "segment_ok gateways_ok (in_orchestrator f)"
  using gateways_ok_run by (auto simp: segment_ok_def in_orchestrator_def case_prod_unfold gateways_ok_def)

lemma gateways_ok_callback:
  assumes "\<And>r. segment_ok gateways_ok (h r)"
  shows "segment_ok gateways_ok (gateway_callback c sid q h)"
proof -
  have await: "segment_ok gateways_ok (\<lambda>w. (w, Await q' (\<lambda>r. h (no_value r))))" for q'
    using assms by (simp add: segment_ok_def)
  show ?thesis
  proof (cases q)
    case (GOnTerminalResponse i payload)
    then show ?thesis
      using assms by (cases "on_terminal_response i payload")
        (simp_all add: segment_call_then gateways_ok_respond gateways_ok_in_orchestrator)
  qed (use assms await in \<open>simp_all add: segment_call_then gateways_ok_in_orchestrator\<close>)
qed

lemma gateways_ok_run_gateway: "safe gateway_inv t \<Longrightarrow> segment_ok gateways_ok (run_gateway c sid t)"
proof (induction rule: safe.induct)
  case (finished r)
  then show ?case
    by (simp add: segment_ok_def)
next
  case (suspended k q)
  have "segment_ok gateways_ok (\<lambda>w. run_gateway c sid (snd (k r (w_gateways w sid))) (set_gateway sid (fst (k r (w_gateways w sid))) w))" for r
    unfolding segment_ok_def
  proof (intro allI impI)
    fix w
    assume w: "gateways_ok w"
    have k: "gateway_inv (fst (k r (w_gateways w sid)))" "segment_ok gateways_ok (run_gateway c sid (snd (k r (w_gateways w sid))))"
      using suspended [OF gateways_ok_gateway [OF w]] by simp_all
    show "gateways_ok (fst (run_gateway c sid (snd (k r (w_gateways w sid))) (set_gateway sid (fst (k r (w_gateways w sid))) w))) \<and>
        safe gateways_ok (snd (run_gateway c sid (snd (k r (w_gateways w sid))) (set_gateway sid (fst (k r (w_gateways w sid))) w)))"
      using k(2) gateways_ok_set [OF w k(1)] unfolding segment_ok_def by blast
  qed
  then show ?case
    by (auto simp: case_prod_unfold intro!: gateways_ok_callback)
qed

lemma gateways_ok_start: "segment_ok gateways_ok (world_start c gc h)"
proof (cases h)
  case (WGateway sid gh)
  then show ?thesis
    by (auto intro: gateways_ok_in_gateway gok_entry gateways_ok_run_gateway segment_finish)
next
  case (WOrchestrator oh)
  then show ?thesis
    by (auto intro!: segment_call_then gateways_ok_in_orchestrator segment_finish)
qed

interpretation gateways_in_world: handlers gateways_ok "world_start c gc" world_environment for c gc
  by unfold_locales (rule gateways_ok_start, auto simp: gateways_ok_def elim: world_environment.cases)

lemma new_world_ok: "gateways_ok (new_world st)"
  by (simp add: gateways_ok_def new_world_def new_gateway_inv)

subsection \<open>An example\<close>

definition ex_terminal_gateway :: gateway_config where
  "ex_terminal_gateway = \<lparr>g_token = ''t'', g_capacity = 2, g_loads = (\<lambda>raw.
       if raw = ''ask'' then Some (JObj [(''id'', JInt 7), (''method'', JStr ''item/commandExecution/requestApproval'')]) else None),
     g_observes_requests = True, g_observes_responses = True, g_observes_notifications = True\<rparr>"

definition ex_terminal_script :: "(world_handler \<times> string outcome list) list" where
  "ex_terminal_script =
     [(WOrchestrator HStart, [Inr [], Inr []]),
      (WOrchestrator (HCreateInteractive ''demo'' ''/tmp'' None ''workspace-write''), []),
      (WGateway ''s1'' GHStart, [Inr [], Inr []]),
      (WGateway ''s1'' (GHUpstream (TextFrame ''ask'')), []), (WGateway ''s1'' (GHCallback 0), [])]"

definition ex_world :: world where
  "ex_world = perform (world_start ex_config (\<lambda>_. ex_terminal_gateway)) ex_terminal_script (new_world empty_store)"

lemma ex_world_run: "world_run ex_config (\<lambda>_. ex_terminal_gateway) empty_store ex_world"
  unfolding world_run_def ex_world_def by (rule perform_loop)

lemma ex_world_facts: "(\<lambda>w. (started (w_orc w), store_closed (orc_store (w_orc w)),
    map (\<lambda>i. (i_id i, is_pending i, i_kind i)) (interactions (orc_store (w_orc w))),
    map (\<lambda>(k, l). (k, l_responder l, q_id (l_request l), q_params (l_request l))) (live (w_orc w)))) ex_world =
   (True, False, [(''i1'', True, EXEC_APPROVAL)], [(''i1'', Some ''s1'', IdInt 7, [])])"
  by code_simp

lemma ex_world_gateway: "(\<lambda>g. (g_upstream g, IdInt 7 \<in> g_intercepted g, IdInt 7 \<in> g_responded g)) (w_gateways ex_world ''s1'') =
   (True, True, False)"
  by code_simp

text \<open>
  C14. The orchestrator and the gateways of all terminal sessions, joined by their callbacks: whatever the interleaving
  of the terminals, the app-servers, the replies from Lark, the time limits and the failures of all outside
  calls, the orchestrator makes a run of its own event loop, so that what holds of its runs holds here; and no
  gateway has more than one response to a request in force.
\<close>

theorem terminal_sessions_refine:
  assumes "world_run c gc st w"
  shows "orch_run c st (w_orc w) \<and>
    count_list (g_log (w_gateways w sid)) (SentResponse i) \<le> count_list (g_log (w_gateways w sid)) (FailedResponse i) + 1"
proof -
  obtain ts where run: "(loop (world_start c gc) world_environment)\<^sup>*\<^sup>* (new_world st, []) (w, ts)"
    using assms unfolding world_run_def by blast
  have "orch_run c st (w_orc w)"
    using run by (rule in_world.run_inside) (simp add: new_world_def)
  moreover have "gateway_inv (w_gateways w sid)"
    using gateways_in_world.reachable_inv [OF run new_world_ok] by (rule gateways_ok_gateway)
  ultimately show ?thesis
    using gateway_inv_sends by simp
qed

theorem terminal_sessions_refine_ex:
  "orch_run ex_config empty_store (w_orc ex_world) \<and>
    count_list (g_log (w_gateways ex_world ''s1'')) (SentResponse (IdInt 7)) \<le>
    count_list (g_log (w_gateways ex_world ''s1'')) (FailedResponse (IdInt 7)) + 1"
  by (rule terminal_sessions_refine [OF ex_world_run])

subsection \<open>From a decision to the app-server\<close>

lemma respond_through_start:
  "respond_through sid i result err w = (w, Await (GatewayCall sid GLock) (\<lambda>r w1.
     (case map_prod id (plain_gateway sid) ((\<lambda>lock. case lock of
          Inl e \<Rightarrow> finish (raise e)
        | Inr _ \<Rightarrow>
            run_then (mark_responded i) (\<lambda>won.
              if \<not> won then finish (return False)
              else run_then (modify (\<lambda>g. g\<lparr>g_answers := g_answers g @
                  [(i, case err of Some e \<Rightarrow> [(''error'', e)] | None \<Rightarrow> [(''result'', result)])]\<rparr>)) (\<lambda>_.
                send_upstream (response_text i (case err of Some e \<Rightarrow> [(''error'', e)] | None \<Rightarrow> [(''result'', result)])) (\<lambda>reply.
                  case reply of
                    Inl e \<Rightarrow> run_then (unmark_responded i) (\<lambda>_. finish (raise e))
                  | Inr _ \<Rightarrow> finish (return True))))) (no_value r) (w_gateways w1 sid)) of (g, f) \<Rightarrow> f (set_gateway sid g w1))))"
  by (simp add: in_gateway_def respond_upstream_def respond_with_payload_def gawait_def set_gateway_def)

text \<open>What a called coroutine does up to a suspension, the caller does.\<close>

lemma feed_bind_task:
  "feed rs (s, t) = (s', Await q k) \<Longrightarrow> \<exists>k'. feed rs (bind_task h t s) = (s', Await q k')"
proof (induction rs arbitrary: s t)
  case Nil
  then show ?case
    by (cases t) auto
next
  case (Cons r rs)
  show ?case
  proof (cases t)
    case (Done x)
    then show ?thesis
      using Cons.prems by simp
  next
    case (Await p k1)
    then have "feed rs (fst (k1 r s), snd (k1 r s)) = (s', Await q k)"
      using Cons.prems by simp
    then show ?thesis
      using Cons.IH Await by (simp add: case_prod_unfold)
  qed
qed

lemma feed_call_then: "feed rs (f s) = (s', Await q k) \<Longrightarrow> \<exists>k'. feed rs (call_then f h s) = (s', Await q k')"
  by (cases "f s") (simp add: call_then_def feed_bind_task)

text \<open>A request that has its response gets no other one.\<close>

lemma responded_refuses:
  assumes "i \<in> g_responded (w_gateways w sid)"
  shows "feed [Inr []] (respond_through sid i result err w) = (w, Done (Inr False))"
  using assms
  by (simp add: respond_through_start run_then_def mark_responded_def bnd_def sync_defs finish_def set_gateway_def)

lemma open_request_responds:
  assumes "g_upstream (w_gateways w sid)" "i \<in> g_intercepted (w_gateways w sid)" "i \<notin> g_responded (w_gateways w sid)"
  shows "\<exists>w' k. feed [Inr []] (call_then (respond_through sid i result None) h w) =
      (w', Await (GatewayCall sid (GSend (response_text i [(''result'', result)]))) k) \<and>
    w_orc w' = w_orc w \<and> i \<in> g_responded (w_gateways w' sid) \<and>
    g_calls (w_gateways w' sid) = g_calls (w_gateways w sid) @ [response_text i [(''result'', result)]]"
  using assms
  by (simp add: call_then_def respond_through_start run_then_def run_try_def mark_responded_def log_it_def bnd_def sync_defs
      send_upstream_def gawait_def)

text \<open>
  C15. An answer given in Lark to the pending question of a terminal session goes upstream: the decision is recorded in
  the store, the response with that payload is what the gateway of the session sends to its app-server for
  that request, and from then on the gateway refuses every other response to it.
\<close>

theorem lark_answer_goes_upstream:
  assumes "guarded_reachable st" "world_run c gc st w" "started (w_orc w)" "\<not> store_closed (orc_store (w_orc w))"
    "i \<in> set (interactions (orc_store (w_orc w)))" "is_pending i" "map_of (live (w_orc w)) (i_id i) = Some l"
    "l_responder l = Some sid" "request_id = q_id (l_request l)"
    "resolution (i_kind i) (q_params (l_request l)) allow answers = Inr (response, d)"
    "g_upstream (w_gateways w sid)" "request_id \<in> g_intercepted (w_gateways w sid)" "request_id \<notin> g_responded (w_gateways w sid)"
  shows "\<exists>w' k e. feed [Inr []] (world_start c gc (WOrchestrator (HResolve (i_id i) actor allow answers)) w) =
      (w', Await (GatewayCall sid (GSend (response_text request_id [(''result'', response)]))) k) \<and>
    normalize_decision (i_kind i) d = Inr e \<and>
    decide_row I_RESOLVED e actor (c_now c (clock_reads (w_orc w))) i \<in> set (interactions (orc_store (w_orc w'))) \<and>
    (\<forall>result err. feed [Inr []] (respond_through sid request_id result err w') = (w', Done (Inr False)))"
proof -
  have "orch_run c st (w_orc w)"
    using in_world.run_inside assms(2) unfolding world_run_def by (fastforce simp: new_world_def)
  then have inv: "orch_inv c False (w_orc w)"
    using orch_run_inv assms(1) by blast
  obtain s' k e where res: "resolve_interaction c (i_id i) actor allow answers (w_orc w) = (s', Await (CallAnswer l response) k)"
    "normalize_decision (i_kind i) d = Inr e"
    "decide_row I_RESOLVED e actor (c_now c (clock_reads (w_orc w))) i \<in> set (interactions (orc_store s'))"
    using resolve_pending_sends [OF inv assms(3-7,10), of actor] by blast
  define w1 where "w1 = w\<lparr>w_orc := s'\<rparr>"
  have gw: "g_upstream (w_gateways w1 sid)" "request_id \<in> g_intercepted (w_gateways w1 sid)" "request_id \<notin> g_responded (w_gateways w1 sid)"
    using assms(11-13) by (simp_all add: w1_def)
  obtain w2 k2 where w2: "feed [Inr []] (in_orchestrator (resolve_interaction c (i_id i) actor allow answers) w) =
      (w2, Await (GatewayCall sid (GSend (response_text request_id [(''result'', response)]))) k2)"
    "w_orc w2 = w_orc w1" "request_id \<in> g_responded (w_gateways w2 sid)"
    using open_request_responds [OF gw, of response] res(1) assms(8,9)
    by (simp add: in_orchestrator_def w1_def) blast
  obtain k3 where "feed [Inr []] (world_start c gc (WOrchestrator (HResolve (i_id i) actor allow answers)) w) =
      (w2, Await (GatewayCall sid (GSend (response_text request_id [(''result'', response)]))) k3)"
    using feed_call_then [of "[Inr []]" "in_orchestrator (resolve_interaction c (i_id i) actor allow answers)" w, OF w2(1)] by auto
  then show ?thesis
    using res w2(2,3) responded_refuses by (fastforce simp: w1_def)
qed

theorem lark_answer_goes_upstream_ex:
  "\<exists>w' k. feed [Inr []] (world_start ex_config (\<lambda>_. ex_terminal_gateway) (WOrchestrator (HResolve ''i1'' ''ou_1'' (Some True) None)) ex_world) =
     (w', Await (GatewayCall ''s1'' (GSend (response_text (IdInt 7) [(''result'', JObj [(''decision'', JStr ''accept'')])]))) k)"
proof -
  obtain i where i: "interactions (orc_store (w_orc ex_world)) = [i]" "i_id i = ''i1''" "is_pending i" "i_kind i = EXEC_APPROVAL"
    using ex_world_facts by auto
  obtain l where l: "live (w_orc ex_world) = [(''i1'', l)]" "l_responder l = Some ''s1''" "q_id (l_request l) = IdInt 7"
    using ex_world_facts by auto
  have r: "resolution (i_kind i) (q_params (l_request l)) (Some True) None =
      Inr (JObj [(''decision'', JStr ''accept'')], ''approved'')"
    by (simp add: i(4) resolution_def command_approval_response_def)
  show ?thesis
    using lark_answer_goes_upstream [OF guarded_reachable.fresh ex_world_run, of i l "''s1''" "IdInt 7" "Some True" None
        "JObj [(''decision'', JStr ''accept'')]" "''approved''" "''ou_1''"] i l r ex_world_facts ex_world_gateway
    by auto
qed

text \<open>
  The orchestrator looks for the request of a terminal's answer by its identifier alone, and identifiers are unique
  only within one app-server. When the live entry for the identifier is of another session, the answer
  given in one terminal goes to the app-server of the other.
\<close>

lemma terminal_answer_reaches_other_session:
  assumes "find (\<lambda>l. i_request_id (l_interaction l) = canonical_request_id i) (map snd (live (w_orc w))) = Some l"
    and "l_responder l = Some other"
    and "terminal_decision (i_kind (l_interaction l)) (q_params (l_request l)) result = Inr d"
    and "store_resolve_interaction_and_refresh_session (i_id (l_interaction l)) d ''terminal'' (c_now c (clock_reads (w_orc w)))
      I_RESOLVED (orc_store (w_orc w)) = Inr (True, st)"
  shows "\<exists>w' k. gateway_callback c sid (GOnTerminalResponse i [(''result'', result)]) h w = (w', Await (GatewayCall other GLock) k) \<and>
    calls (w_orc w') = calls (w_orc w) @ [CallAnswer l result]"
  using assms decide_run [OF assms(4)]
  by (simp add: on_terminal_response_def has_key_def jget_def in_orchestrator_def resolve_terminal_request_def run_then_def
      find_live_by_request_id_def gets_def from_outcome_def await_call_def call_then_def respond_through_start)

end
