(* ===== verification/Traced_Answers.thy ===== *)
theory Traced_Answers
  imports Orchestrator_Calls Gateway_Answers Terminal_Sessions
begin

text \<open>
  Every answer a gateway sends to its app-server, traced back over all interleavings of the terminal sessions: it is an
  error, or the orchestrator made it for this gateway and this request. What the orchestrator has recorded only grows,
  and the coroutines of both sides rely on that while they are suspended.
\<close>

subsection \<open>Authorised answers\<close>

definition authorised :: "call set \<Rightarrow> string \<Rightarrow> rpc_id \<times> json_object \<Rightarrow> bool" where
  "authorised C sid answer \<longleftrightarrow>
     (\<exists>e. snd answer = [(''error'', e)]) \<or>
     (\<exists>l x. snd answer = [(''result'', x)] \<and> CallAnswer l x \<in> C \<and> l_responder l = Some sid \<and> q_id (l_request l) = fst answer)"

definition answers_traced :: "world \<Rightarrow> bool" where
  "answers_traced w \<longleftrightarrow> (\<forall>sid. \<forall>answer\<in>set (g_answers (w_gateways w sid)). authorised (set (calls (w_orc w))) sid answer)"

definition recorded :: "world \<Rightarrow> call set" where
  "recorded w = set (calls (w_orc w))"

lemma authorised_mono: "authorised C sid answer \<Longrightarrow> C \<subseteq> D \<Longrightarrow> authorised D sid answer"
  unfolding authorised_def by blast

lemma traced_set_gateway:
  assumes "answers_traced w" and "set (g_answers g) \<subseteq> S \<union> set (g_answers (w_gateways w sid))"
    and "\<And>answer. answer \<in> S \<Longrightarrow> authorised (recorded w) sid answer"
  shows "answers_traced (set_gateway sid g w)"
  using assms unfolding answers_traced_def recorded_def by auto

lemma traced_set_orchestrator:
  assumes "answers_traced w" and "set (calls (w_orc w)) \<subseteq> set (calls s)"
  shows "answers_traced (w\<lparr>w_orc := s\<rparr>)"
  using assms authorised_mono unfolding answers_traced_def by fastforce

interpretation traced: relying answers_traced recorded .

subsection \<open>Inside a gateway\<close>

lemma steady_in_gateway:
  fixes run :: "gtask \<Rightarrow> 'a wsegment"
  assumes "\<And>g. set (g_answers (fst (f g))) \<subseteq> S \<union> set (g_answers g) \<and> traced.segment_steady C (run (snd (f g)))"
    and "\<And>answer. answer \<in> S \<Longrightarrow> authorised C sid answer"
  shows "traced.segment_steady C (in_gateway run sid f)"
proof (rule traced.segment_steadyI)
  fix w assume w: "answers_traced w" "C \<subseteq> recorded w"
  obtain g t where f: "f (w_gateways w sid) = (g, t)"
    by (cases "f (w_gateways w sid)")
  then have g: "set (g_answers g) \<subseteq> S \<union> set (g_answers (w_gateways w sid))" "traced.segment_steady C (run t)"
    using assms(1) [of "w_gateways w sid"] by simp_all
  have "answers_traced (set_gateway sid g w)"
    by (rule traced_set_gateway [OF w(1) g(1)]) (use assms(2) w(2) authorised_mono in blast)
  moreover have "recorded (set_gateway sid g w) = recorded w"
    by (simp add: recorded_def)
  ultimately show "answers_traced (fst (in_gateway run sid f w)) \<and> recorded w \<subseteq> recorded (fst (in_gateway run sid f w)) \<and>
      traced.steady (recorded (fst (in_gateway run sid f w))) (snd (in_gateway run sid f w))"
    using traced.segment_steadyD [OF g(2), of "set_gateway sid g w"] w(2) by (simp add: in_gateway_def f)
qed

lemma steady_done: "traced.segment_steady C (\<lambda>w. (w, Done r))"
  by (rule traced.segment_steady_pure) simp

lemma gateway_turn:
  "(\<lambda>w. case map_prod id run (k (w_gateways w sid)) of (g, f) \<Rightarrow> f (set_gateway sid g w)) = in_gateway run sid k"
  by (rule ext) (simp add: in_gateway_def case_prod_unfold)

lemma steady_plain:
  assumes "\<And>answer. answer \<in> S \<Longrightarrow> authorised C sid answer"
  shows "answering.stays S g t \<Longrightarrow> traced.segment_steady C (plain_gateway sid t)"
proof (induction rule: answering.stays.induct)
  case (stays_await g q k)
  then have "traced.segment_steady C (in_gateway (plain_gateway sid) sid (k r))" for r
    by (intro steady_in_gateway [of _ S] assms) simp_all
  then show ?case
    by (simp add: gateway_turn traced.segment_steady_await)
qed (simp add: steady_done)

lemma steady_singleton: "authorised C sid x \<Longrightarrow> answer \<in> {x} \<Longrightarrow> authorised C sid answer"
  by simp

lemma steady_respond:
  assumes "authorised C sid (i, case err of Some e \<Rightarrow> [(''error'', e)] | None \<Rightarrow> [(''result'', result)])"
  shows "traced.segment_steady C (respond_through sid i result err)"
proof (rule steady_in_gateway [OF _ steady_singleton [OF assms]])
  fix g
  show "set (g_answers (fst (respond_upstream i result err g))) \<subseteq>
      {(i, case err of Some e \<Rightarrow> [(''error'', e)] | None \<Rightarrow> [(''result'', result)])} \<union> set (g_answers g) \<and>
      traced.segment_steady C (plain_gateway sid (snd (respond_upstream i result err g)))"
    using answering.segment_staysD [OF answers_respond] steady_plain [OF steady_singleton [OF assms]] by blast
qed

subsection \<open>Inside the orchestrator\<close>

lemma steady_orchestrator_call:
  assumes "is_answer q \<Longrightarrow> q \<in> C" and "\<And>r. traced.segment_steady C (h r)"
  shows "traced.segment_steady C (orchestrator_call q h)"
proof (cases "(q, h)" rule: orchestrator_call.cases)
  case (1 l response h')
  show ?thesis
  proof (cases "l_responder l")
    case (Some sid)
    have "authorised C sid (q_id (l_request l), [(''result'', response)])"
      using assms(1) 1 Some by (auto simp: authorised_def)
    then show ?thesis
      using 1 Some assms(2) by (simp add: traced.segment_steady_call_then steady_respond)
  qed (use 1 assms(2) in \<open>simp add: traced.segment_steady_await\<close>)
next
  case (2 sid i code message h')
  have "authorised C sid (i, [(''error'', error_object code message)])"
    by (simp add: authorised_def)
  then show ?thesis
    using 2 assms(2) by (simp add: traced.segment_steady_call_then steady_respond)
qed (use assms(2) in \<open>simp_all add: traced.segment_steady_await\<close>)

lemma steady_orchestrator_turn:
  assumes "\<And>s. set (calls s) \<subseteq> set (calls (fst (f s))) \<and>
      traced.segment_steady (set (calls (fst (f s)))) (run_orchestrator (snd (f s)))"
  shows "traced.segment_steady C (in_orchestrator f)"
proof (rule traced.segment_steadyI)
  fix w assume w: "answers_traced w" "C \<subseteq> recorded w"
  obtain s t where f: "f (w_orc w) = (s, t)"
    by (cases "f (w_orc w)")
  then have s: "set (calls (w_orc w)) \<subseteq> set (calls s)" "traced.segment_steady (set (calls s)) (run_orchestrator t)"
    using assms [of "w_orc w"] by simp_all
  show "answers_traced (fst (in_orchestrator f w)) \<and> recorded w \<subseteq> recorded (fst (in_orchestrator f w)) \<and>
      traced.steady (recorded (fst (in_orchestrator f w))) (snd (in_orchestrator f w))"
    using traced.segment_steadyD [OF s(2) traced_set_orchestrator [OF w(1) s(1)]] s(1)
    by (auto simp: in_orchestrator_def f recorded_def)
qed

lemma orchestrator_turn:
  "(\<lambda>w. case map_prod id run_orchestrator (k (w_orc w)) of (s, f) \<Rightarrow> f (w\<lparr>w_orc := s\<rparr>)) = in_orchestrator k"
  by (rule ext) (simp add: in_orchestrator_def case_prod_unfold)

lemma steady_run_orchestrator: "asked.stays s t \<Longrightarrow> traced.segment_steady (set (calls s)) (run_orchestrator t)"
proof (induction rule: asked.stays.induct)
  case (stays_await s q k)
  then have "traced.segment_steady C (in_orchestrator (k r))" for C r
    by (intro steady_orchestrator_turn) (simp add: advances_def)
  then show ?case
    using stays_await.hyps(1) unfolding run_orchestrator.simps orchestrator_turn by (intro steady_orchestrator_call) simp_all
qed (simp add: steady_done)

lemma steady_in_orchestrator: "records f \<Longrightarrow> traced.segment_steady C (in_orchestrator f)"
  using asked.segment_staysD steady_run_orchestrator unfolding advances_def by (intro steady_orchestrator_turn) blast

subsection \<open>The callbacks and the event loop\<close>

lemma records_callbacks:
  "records (on_server_request c sid request)"
  "records (finish (bnd (on_upstream_response c sid method params payload) (\<lambda>_. return RNone)))"
  "records (finish (bnd (on_notification c n) (\<lambda>_. return RNone)))"
  unfolding on_server_request_def on_upstream_response_def on_notification_def by (intro call_rules)+

lemma steady_callback:
  assumes "\<And>r. traced.segment_steady C (h r)"
  shows "traced.segment_steady C (gateway_callback c sid q h)"
proof (cases q)
  case (GOnTerminalResponse i payload)
  show ?thesis
  proof (cases "on_terminal_response i payload")
    case (AnswerError j e)
    have "authorised C sid (j, [(''error'', e)])"
      by (simp add: authorised_def)
    then show ?thesis
      using GOnTerminalResponse AnswerError assms by (simp add: traced.segment_steady_call_then steady_respond)
  next
    case (ResolveTerminal j result)
    then show ?thesis
      using GOnTerminalResponse assms by (simp add: traced.segment_steady_call_then steady_in_orchestrator records_answers)
  qed
qed (use assms in \<open>simp_all add: traced.segment_steady_call_then traced.segment_steady_await steady_in_orchestrator records_callbacks\<close>)

lemma steady_run_gateway: "answering.stays {} g t \<Longrightarrow> traced.segment_steady C (run_gateway c sid t)"
proof (induction rule: answering.stays.induct)
  case (stays_await g q k)
  then have "traced.segment_steady C (in_gateway (run_gateway c sid) sid (k r))" for r
    by (intro steady_in_gateway [of _ "{}"]) simp_all
  then show ?case
    by (simp add: gateway_turn steady_callback)
qed (simp add: steady_done)

lemma steady_finish: "traced.segment_steady C (finish (from_outcome r))" "traced.segment_steady C (finish (return x))"
  by (rule traced.segment_steady_pure; simp add: finish_def sync_defs)+

lemma steady_world_start: "traced.segment_steady {} (world_start c gc h)"
proof (cases h)
  case (WGateway sid gh)
  show ?thesis
  proof (cases "answers_itself gh")
    case False
    have "traced.segment_steady {} (in_gateway (run_gateway c sid) sid (gateway_entry (gc sid) gh))"
      using answering.segment_staysD [OF answers_entry [OF False]] steady_run_gateway
      by (intro steady_in_gateway [of _ "{}"]) blast+
    then show ?thesis
      by (simp add: WGateway False)
  qed (simp add: WGateway steady_finish)
next
  case (WOrchestrator oh)
  then show ?thesis
    by (simp add: traced.segment_steady_call_then steady_in_orchestrator records_handler steady_finish)
qed

lemma environment_calls: "environment s s' \<Longrightarrow> calls s' = calls s"
  by (cases rule: environment.cases) auto

lemma world_environment_traced:
  "answers_traced w \<Longrightarrow> world_environment w w' \<Longrightarrow> answers_traced w' \<and> recorded w \<subseteq> recorded w'"
  using environment_calls by (auto simp: recorded_def intro: traced_set_orchestrator elim!: world_environment.cases)

interpretation traced_loop: relying_loop answers_traced recorded "world_start c gc" world_environment for c gc
  by unfold_locales (rule steady_world_start, rule world_environment_traced)

lemma new_world_traced: "answers_traced (new_world st)"
  by (simp add: answers_traced_def new_world_def new_gateway_def)



text \<open>The example of \<open>Terminal_Sessions\<close>, once its question is answered in Lark.\<close>

definition ex_told :: world where
  "ex_told = perform (world_start ex_config (\<lambda>_. ex_terminal_gateway))
     [(WOrchestrator (HResolve ''i1'' ''ou_1'' (Some True) None), [Inr [], Inr []])] ex_world"

lemma ex_told_run: "world_run ex_config (\<lambda>_. ex_terminal_gateway) empty_store ex_told"
  unfolding world_run_def ex_told_def ex_world_def perform_append [symmetric] by (rule perform_loop)

lemma ex_told_answer: "g_answers (w_gateways ex_told ''s1'') = [(IdInt 7, [(''result'', JObj [(''decision'', JStr ''accept'')])])]"
  by code_simp

lemma ex_told_rows: "map i_decision (interactions (orc_store (w_orc ex_told))) = [Some APPROVED]"
  by code_simp


end
