(* ===== verification/Hook_Delivery.thy ===== *)
theory Hook_Delivery
  imports Orchestrator_Calls Daemon_Worker
begin

text \<open>
  The store over the runs of a program that contains the orchestrator: from any state of a run to every later one it
  changes by its own methods. What the store promises of a sequence of its methods then holds of the daemon; here, that a
  hook event is queued once, whichever way it comes.
\<close>

context orchestrator_inside
begin

lemma runs_inside:
  assumes "(loop start env)\<^sup>*\<^sup>* x y" and "related (snd x) ts"
  shows "\<exists>ts'. (orc_loop c)\<^sup>*\<^sup>* (p (fst x), ts) (p (fst y), ts') \<and> related (snd y) ts'"
  using assms
proof (induction rule: rtranclp_induct)
  case (step y z)
  then show ?case
    using step_inside by (meson rtranclp_trans)
qed auto

lemma run_advances:
  assumes "(loop start env)\<^sup>*\<^sup>* (s0, []) x" and "(loop start env)\<^sup>*\<^sup>* x y"
  shows "advances (p (fst x)) (p (fst y))"
proof -
  have "related [] []"
    by (auto simp: related_def)
  then obtain ts where ts: "(orc_loop c)\<^sup>*\<^sup>* (p s0, []) (p (fst x), ts)" "related (snd x) ts"
    using runs_inside [OF assms(1), of "[]"] by auto
  obtain ts' where "(orc_loop c)\<^sup>*\<^sup>* (p (fst x), ts) (p (fst y), ts')"
    using runs_inside [OF assms(2) ts(2)] by blast
  from asked_loop.run_moves [OF ts(1) this] show ?thesis
    by simp
qed

end

subsection \<open>Events that were seen\<close>

definition seen_events :: "runtime \<Rightarrow> string set" where
  "seen_events s = fst ` set (event_dedupe (orc_store (rt_orc s)))"

lemma event_ids_steps: "store_step\<^sup>*\<^sup>* st st' \<Longrightarrow> fst ` set (event_dedupe st) \<subseteq> fst ` set (event_dedupe st')"
proof (induction rule: rtranclp_induct)
  case (step st1 st2)
  then show ?case
    using event_ids_step [of st1 st2] by blast
qed simp

lemma in_daemon_events_stay:
  assumes "(loop (daemon_start d) daemon_environment)\<^sup>*\<^sup>* (new_runtime (initial st) spool, []) (s, ts)"
    and "(loop (daemon_start d) daemon_environment)\<^sup>*\<^sup>* (s, ts) (s', ts')"
  shows "seen_events s \<subseteq> seen_events s'"
  using in_daemon.run_advances [OF assms] event_ids_steps by (simp add: advances_def seen_events_def)

abbreviation hook_id :: "json_object \<Rightarrow> string option" where
  "hook_id kvs \<equiv> nonempty_str (jget kvs ''event_id'')"

abbreviation queue :: "runtime \<Rightarrow> outbox_item list" where
  "queue s \<equiv> outbox (orc_store (rt_orc s))"

lemma dwrite_run:
  "dwrite f s = (case f (orc_store (rt_orc s)) of Inl e \<Rightarrow> (Inl e, s)
     | Inr (x, st) \<Rightarrow> (Inr x, s\<lparr>rt_orc := (rt_orc s)\<lparr>orc_store := st\<rparr>\<rparr>))"
  by (auto simp: dwrite_def on_orc_def write_store_def split: sum.split prod.split)

lemmas hook_runs = accept_hook_def enqueue_daemon_notification_def bnd_def runtime_now_def dwrite_run return_def
  store_record_event_once_def store_enqueue_outbox_def references_ok_def with_connection_def Let_def

lemma accepted_event_queued:
  assumes "accept_hook d name kvs s = (Inr True, s')" and "hook_id kvs = Some e"
  shows "''hook:'' @ e \<in> seen_events s' \<and>
    (\<exists>item. queue s' = queue s @ [item] \<and> o_notification_type item = ''hook:'' @ name \<and> o_sent_at item = None)"
  using assms by (auto simp: hook_runs seen_events_def split: if_splits)

lemma seen_event_refused:
  assumes "''hook:'' @ e \<in> seen_events s" and "hook_id kvs = Some e"
  shows "queue (snd (accept_hook d name kvs s)) = queue s \<and> fst (accept_hook d name kvs s) \<noteq> Inr True"
  using assms by (auto simp: hook_runs seen_events_def)

subsection \<open>The two ways in\<close>

lemma read_chunks_concat: "read_chunks n b chunks = Some body \<Longrightarrow> body = b @ concat chunks"
  by (induction n b chunks rule: read_chunks.induct) (auto split: if_splits)

lemma read_body_concat: "read_bounded_body n cl chunks = Inr (Inr body) \<Longrightarrow> body = concat chunks"
  by (auto simp: read_bounded_body_def Let_def split: option.splits if_splits sum.splits dest: read_chunks_concat)

lemma hook_request_cases:
  assumes "dm_loads d (concat chunks) = Inr (JObj kvs)"
  obtains (refused) "fst (ingest_hook d header cl chunks s) = s"
      "snd (ingest_hook d header cl chunks s) \<noteq> Done (Inr (VResponse (Ok 202 (BodyAccepted b))))"
  | (taken) name where "ingest_hook d header cl chunks s =
      run_then (accept_hook d name kvs) (\<lambda>fresh. respond (Ok 202 (BodyAccepted (\<not> fresh)))) s"
proof (cases "authenticate (dm_token d) header")
  case None
  show thesis
  proof (cases "read_bounded_body MAX_HOOK_BYTES cl chunks")
    case (Inr body)
    show thesis
    proof (cases body)
      case (Inr bytes)
      then have "bytes = concat chunks"
        using \<open>read_bounded_body MAX_HOOK_BYTES cl chunks = Inr body\<close> by (simp add: read_body_concat)
      then have ingest: "ingest_hook d header cl chunks = (case hook_name kvs of
            None \<Rightarrow> respond (Refused 422 ''unsupported hook event'')
          | Some name \<Rightarrow> if name \<notin> set HOOK_EVENTS then respond (Refused 422 ''unsupported hook event'')
              else run_then (accept_hook d name kvs) (\<lambda>fresh. respond (Ok 202 (BodyAccepted (\<not> fresh)))))"
        using None \<open>read_bounded_body MAX_HOOK_BYTES cl chunks = Inr body\<close> Inr assms
        by (intro ext) (simp add: ingest_hook_def with_auth_def run_then_def from_outcome_def)
      have refuse: "respond (Refused 422 ''unsupported hook event'') s = (s, Done (Inr (VResponse (Refused 422 ''unsupported hook event''))))"
        by (simp add: respond_def finish_def return_def)
      show thesis
      proof (cases "\<exists>name. hook_name kvs = Some name \<and> name \<in> set HOOK_EVENTS")
        case True
        then obtain name where "hook_name kvs = Some name" "name \<in> set HOOK_EVENTS"
          by blast
        then show thesis
          by (intro that(2) [of name]) (simp add: ingest)
      next
        case False
        then show thesis
          by (intro that(1)) (auto simp: ingest refuse split: option.split)
      qed
    qed (use None Inr that(1) in \<open>auto simp: ingest_hook_def with_auth_def run_then_def from_outcome_def respond_def
        finish_def return_def read_bounded_body_def Let_def too_large_def split: option.splits if_splits sum.splits\<close>)
  qed (use None that(1) in \<open>simp add: ingest_hook_def with_auth_def run_then_def from_outcome_def\<close>)
qed (use that(1) in \<open>auto simp: ingest_hook_def with_auth_def finish_def from_outcome_def authenticate_def
    split: prod.splits if_splits\<close>)

lemma spooled_file_cases:
  assumes "sf_text f = Inr t" and "dm_loads d t = Inr (JObj kvs)"
  obtains (ignored) "snd (drain_file d f s) = s" | (taken) name where "drain_file d f s = bnd (accept_hook d name kvs) (\<lambda>_. unlink f) s"
proof (cases "\<exists>name. jget kvs ''hook_event_name'' = JStr name \<and> name \<in> set HOOK_EVENTS \<and> \<not> (sf_symlink f \<or> MAX_HOOK_BYTES < sf_size f)")
  case True
  then obtain name where "jget kvs ''hook_event_name'' = JStr name" "name \<in> set HOOK_EVENTS" "\<not> sf_symlink f"
    "\<not> MAX_HOOK_BYTES < sf_size f"
    by blast
  then show thesis
    using assms by (intro that(2) [of name]) (simp add: drain_file_def bnd_def from_outcome_def)
next
  case False
  then show thesis
    using assms by (intro that(1))
      (cases "jget kvs ''hook_event_name''"; auto simp: drain_file_def bnd_def from_outcome_def return_def raise_def)
qed

text \<open>What both ways do with an event that was seen.\<close>

lemma seen_hook_not_queued:
  assumes "''hook:'' @ e \<in> seen_events s" and "hook_id kvs = Some e"
  shows "dm_loads d (concat chunks) = Inr (JObj kvs) \<Longrightarrow> queue (fst (ingest_hook d header cl chunks s)) = queue s \<and>
      snd (ingest_hook d header cl chunks s) \<noteq> Done (Inr (VResponse (Ok 202 (BodyAccepted False))))"
    and "sf_text f = Inr t \<Longrightarrow> dm_loads d t = Inr (JObj kvs) \<Longrightarrow> queue (snd (drain_file d f s)) = queue s"
proof -
  have seen: "queue (snd (accept_hook d name kvs s)) = queue s" "fst (accept_hook d name kvs s) \<noteq> Inr True" for name
    using seen_event_refused [OF assms] by blast+
  show "queue (fst (ingest_hook d header cl chunks s)) = queue s \<and>
      snd (ingest_hook d header cl chunks s) \<noteq> Done (Inr (VResponse (Ok 202 (BodyAccepted False))))"
    if "dm_loads d (concat chunks) = Inr (JObj kvs)"
  proof (cases rule: hook_request_cases [OF that, where header = header and cl = cl and s = s and b = False])
    case (2 name)
    then show ?thesis
      using seen [of name]
      by (auto simp: run_then_def respond_def finish_def return_def split: prod.split sum.split)
  qed simp
  show "queue (snd (drain_file d f s)) = queue s" if "sf_text f = Inr t" "dm_loads d t = Inr (JObj kvs)"
  proof (cases rule: spooled_file_cases [OF that, where s = s])
    case (2 name)
    have "queue (snd (unlink f s')) = queue s'" for s'
      by (auto simp: unlink_def bnd_def from_outcome_def modify_def split: sum.split)
    then show ?thesis
      using seen(1) [of name] 2 by (auto simp: bnd_def split: prod.split sum.split)
  qed simp
qed

text \<open>
  C28. A hook event that has an identifier is queued once. The request that brings it first puts one unsent line of its
  kind in the outbox; after that, whatever the daemon does in between, the same event coming again, in a request of
  any client or as a file of the spool, puts nothing there and is not reported as accepted.
\<close>

theorem hook_event_queued_once:
  assumes before: "(loop (daemon_start d) daemon_environment)\<^sup>*\<^sup>* (new_runtime (initial st) spool, []) (s, ts)"
    and first: "daemon_start d (DHook header cl chunks) s = (s1, t1)" "t1 = Done (Inr (VResponse (Ok 202 (BodyAccepted False))))"
    and event: "dm_loads d (concat chunks) = Inr (JObj kvs)" "hook_id kvs = Some e"
    and after: "(loop (daemon_start d) daemon_environment)\<^sup>*\<^sup>* (s1, ts @ [t1]) (s2, us)"
    and again: "hook_id kvs' = Some e"
  shows "(\<exists>item. queue s1 = queue s @ [item] \<and> o_sent_at item = None) \<and>
    (dm_loads d (concat chunks') = Inr (JObj kvs') \<longrightarrow>
      queue (fst (daemon_start d (DHook header' cl' chunks') s2)) = queue s2 \<and>
      snd (daemon_start d (DHook header' cl' chunks') s2) \<noteq> Done (Inr (VResponse (Ok 202 (BodyAccepted False))))) \<and>
    (sf_text f = Inr t \<longrightarrow> dm_loads d t = Inr (JObj kvs') \<longrightarrow> queue (snd (drain_file d f s2)) = queue s2)"
proof -
  obtain name where "accept_hook d name kvs s = (Inr True, s1)"
    using first by (cases rule: hook_request_cases [OF event(1), where header = header and cl = cl and s = s and b = False])
      (auto simp: run_then_def respond_def finish_def return_def split: prod.splits sum.splits)
  then have queued: "''hook:'' @ e \<in> seen_events s1" "\<exists>item. queue s1 = queue s @ [item] \<and> o_sent_at item = None"
    using accepted_event_queued event(2) by blast+
  have "loop (daemon_start d) daemon_environment (s, ts) (s1, ts @ [t1])"
    using first(1) by (rule loop.spawn)
  then have "(loop (daemon_start d) daemon_environment)\<^sup>*\<^sup>* (new_runtime (initial st) spool, []) (s1, ts @ [t1])"
    using before by (rule rtranclp.rtrancl_into_rtrancl [rotated])
  then have "''hook:'' @ e \<in> seen_events s2"
    using queued(1) in_daemon_events_stay after by blast
  then show ?thesis
    using queued(2) seen_hook_not_queued [OF _ again] by simp
qed


text \<open>The end of a turn, posted and then found in the spool as well.\<close>

definition ex_hooks :: daemon_config where
  "ex_hooks = ex_daemon\<lparr>dm_loads := (\<lambda>_. Inr (JObj [(''hook_event_name'', JStr ''Stop''), (''event_id'', JStr ''u1'')]))\<rparr>"

definition ex_hook_file :: spool_file where
  "ex_hook_file = \<lparr>sf_name = ''hook-1.json'', sf_symlink = False, sf_size = 2, sf_text = Inr ''{}'', sf_unlink = Inr ()\<rparr>"

definition ex_hooked :: runtime where
  "ex_hooked = fst (daemon_start ex_hooks (DHook (Some ''Bearer secret'') None [''{}'']) (new_runtime (initial empty_store) []))"

lemma ex_hook_accepted: "daemon_start ex_hooks (DHook (Some ''Bearer secret'') None [''{}'']) (new_runtime (initial empty_store) []) =
    (ex_hooked, Done (Inr (VResponse (Ok 202 (BodyAccepted False)))))"
proof -
  have "authenticate (dm_token ex_hooks) (Some ''Bearer secret'') = None"
    by code_simp
  then have "snd (daemon_start ex_hooks (DHook (Some ''Bearer secret'') None [''{}'']) (new_runtime (initial empty_store) [])) =
      Done (Inr (VResponse (Ok 202 (BodyAccepted False))))"
    by (simp add: ingest_hook_def with_auth_def run_then_def from_outcome_def read_bounded_body_def MAX_HOOK_BYTES_def ex_hooks_def
        hook_name_def List.map_filter_def jget_def HOOK_EVENTS_def respond_def finish_def hook_runs new_runtime_def initial_def empty_store_def)
  then show ?thesis
    unfolding ex_hooked_def by (simp add: prod_eq_iff)
qed

theorem hook_event_queued_once_ex:
  "(\<exists>item. queue ex_hooked = [item] \<and> o_sent_at item = None) \<and>
   queue (fst (daemon_start ex_hooks (DHook (Some ''Bearer secret'') None [''{ }'']) ex_hooked)) = queue ex_hooked \<and>
   queue (snd (drain_file ex_hooks ex_hook_file ex_hooked)) = queue ex_hooked"
proof -
  let ?kvs = "[(''hook_event_name'', JStr ''Stop''), (''event_id'', JStr ''u1'')]"
  have event: "hook_id ?kvs = Some ''u1''" "dm_loads ex_hooks t = Inr (JObj ?kvs)" for t
    by (simp_all add: ex_hooks_def jget_def)
  have "queue (new_runtime (initial empty_store) []) = []" "sf_text ex_hook_file = Inr ''{}''"
    by (simp_all add: new_runtime_def initial_def empty_store_def ex_hook_file_def)
  then show ?thesis
    using hook_event_queued_once [OF rtranclp.rtrancl_refl ex_hook_accepted refl event(2,1) rtranclp.rtrancl_refl event(1),
        of "[''{ }'']" "Some ''Bearer secret''" None ex_hook_file "''{}''"] event(2)
    by simp
qed

end
