(* ===== verification/Columns.thy ===== *)
theory Columns
  imports Timestamp Codex_Store
begin

text \<open>
  The rows of the tables as they are stored: \<^verbatim>\<open>modules/codex/codex_mapper.py\<close> turns the columns of a row into a record
  of the data model and back. An enumeration is stored as its text, a time as the text \<^verbatim>\<open>serialize_datetime\<close> prints, which
  \<^verbatim>\<open>datetime.fromisoformat\<close> reads again. The theory of the store keeps the records; here they are shown to be what is
  read back from the columns, and the queries that compare and sort the printed times to be the queries of that theory.
\<close>

subsection \<open>Reading a time\<close>

text \<open>The number of days before a date, as \<^verbatim>\<open>datetime.toordinal\<close> counts them, from 0.\<close>

definition days_before_year :: "nat \<Rightarrow> nat" where
  "days_before_year y = (let p = y - 1 in p * 365 + p div 4 - p div 100 + p div 400)"

definition days_before_month :: "nat \<Rightarrow> nat \<Rightarrow> nat" where
  "days_before_month y m = sum_list (map (days_in_month y) [1..<m])"

definition ordinal :: "nat \<times> nat \<times> nat \<Rightarrow> nat" where
  "ordinal = (\<lambda>(y, m, d). days_before_year y + days_before_month y m + (d - 1))"

definition read_digits :: "nat \<Rightarrow> string \<Rightarrow> (nat \<times> string) option" where
  "read_digits w s =
     (if w \<le> length s \<and> list_all is_ascii_digit (take w s) then Some (digits_value (take w s), drop w s) else None)"

definition read_char :: "char \<Rightarrow> string \<Rightarrow> string option" where
  "read_char c s = (case s of [] \<Rightarrow> None | x # rest \<Rightarrow> if x = c then Some rest else None)"

definition read_date :: "string \<Rightarrow> ((nat \<times> nat \<times> nat) \<times> string) option" where
  "read_date s =
     Option.bind (read_digits 4 s) (\<lambda>(y, s). Option.bind (read_char (CHR ''-'') s) (\<lambda>s.
     Option.bind (read_digits 2 s) (\<lambda>(m, s). Option.bind (read_char (CHR ''-'') s) (\<lambda>s.
     Option.bind (read_digits 2 s) (\<lambda>(d, s).
     if 1 \<le> y \<and> 1 \<le> m \<and> m \<le> 12 \<and> 1 \<le> d \<and> d \<le> days_in_month y m then Some ((y, m, d), s) else None)))))"

text \<open>A fraction of a second: at least one digit, those after the sixth are dropped.\<close>

definition read_fraction :: "string \<Rightarrow> (int \<times> string) option" where
  "read_fraction s =
     (case read_char (CHR ''.'') s of
        None \<Rightarrow> Some (0, s)
      | Some r \<Rightarrow> (let ds = takeWhile is_ascii_digit r in
          if ds = [] then None
          else Some (int (digits_value (take 6 (ds @ replicate 6 (CHR ''0'')))), dropWhile is_ascii_digit r)))"

definition read_clock :: "string \<Rightarrow> (int \<times> string) option" where
  "read_clock s =
     Option.bind (read_digits 2 s) (\<lambda>(h, s). Option.bind (read_char (CHR '':'') s) (\<lambda>s.
     Option.bind (read_digits 2 s) (\<lambda>(m, s). Option.bind (read_char (CHR '':'') s) (\<lambda>s.
     Option.bind (read_digits 2 s) (\<lambda>(sec, s). Option.bind (read_fraction s) (\<lambda>(us, s).
     if h < 24 \<and> m < 60 \<and> sec < 60 then Some (((int h * 60 + int m) * 60 + int sec) * 1000000 + us, s) else None))))))"

definition read_offset :: "string \<Rightarrow> int option option" where
  "read_offset s =
     (case s of
        [] \<Rightarrow> Some None
      | c # rest \<Rightarrow>
          if c = CHR ''Z'' \<and> rest = [] then Some (Some 0)
          else if c \<noteq> CHR ''+'' \<and> c \<noteq> CHR ''-'' then None
          else Option.bind (read_digits 2 rest) (\<lambda>(h, r). Option.bind (read_char (CHR '':'') r) (\<lambda>r.
            Option.bind (read_digits 2 r) (\<lambda>(m, r).
            if r = [] \<and> h < 24 \<and> m < 60
            then Some (Some ((if c = CHR ''-'' then -1 else 1) * ((int h * 60 + int m) * 60000000))) else None))))"

definition read_datetime :: "string \<Rightarrow> datetime option" where
  "read_datetime s =
     Option.bind (read_date s) (\<lambda>(date, s). case s of
        [] \<Rightarrow> Some \<lparr>dt_wall = int (ordinal date) * DAY, dt_offset = None\<rparr>
      | _ # r \<Rightarrow> Option.bind (read_clock r) (\<lambda>(clock, r). Option.bind (read_offset r) (\<lambda>off.
          Some \<lparr>dt_wall = int (ordinal date) * DAY + clock, dt_offset = off\<rparr>)))"

text \<open>
  \<^verbatim>\<open>datetime.fromisoformat\<close>: the texts of \<^verbatim>\<open>isoformat\<close>, which are what the columns hold. (The other spellings of
  ISO 8601 Python reads as well, without separators, with a week or a shortened time, no statement writes.)
\<close>

definition fromisoformat :: "string \<Rightarrow> datetime outcome" where
  "fromisoformat s = (case read_datetime s of None \<Rightarrow> value_error (''Invalid isoformat string: '' @ s) | Some d \<Rightarrow> Inr d)"

text \<open>
  \<^verbatim>\<open>_as_utc\<close>, the validator of every time of the data model. A record keeps the instant, in microseconds since 1970;
  \<open>EPOCH\<close> is the wall clock of that day.
\<close>

definition EPOCH :: int where
  "EPOCH = 719162 * DAY"

definition as_utc :: "datetime \<Rightarrow> instant outcome" where
  "as_utc d =
     (if dt_offset d = None \<or> in_range (instant_of d) then Inr (instant_of d - EPOCH)
      else Inl (Exn ''OverflowError'' ''date value out of range''))"

definition utc_datetime :: "instant \<Rightarrow> datetime" where
  "utc_datetime t = \<lparr>dt_wall = t + EPOCH, dt_offset = Some 0\<rparr>"

definition time_column :: "instant \<Rightarrow> string outcome" where
  "time_column t = serialize_datetime (utc_datetime t)"

definition optional_time_column :: "instant option \<Rightarrow> string option outcome" where
  "optional_time_column v = serialize_optional_datetime (map_option utc_datetime v)"

definition read_time :: "string \<Rightarrow> instant outcome" where
  "read_time s = (case fromisoformat s of Inl e \<Rightarrow> Inl e | Inr d \<Rightarrow> as_utc d)"

definition read_optional_time :: "string option \<Rightarrow> instant option outcome" where
  "read_optional_time v = (case v of None \<Rightarrow> Inr None | Some s \<Rightarrow> map_sum id Some (read_time s))"

subsection \<open>What is printed is read back\<close>

lemma civil_is_date:
  "case civil n of (y, m, d) \<Rightarrow> 1 \<le> y \<and> 1 \<le> m \<and> m \<le> 12 \<and> 1 \<le> d \<and> d \<le> days_in_month y m"
  by (induction n) (auto simp: days_in_month_def split: prod.splits if_splits)

lemma leap_days:
  "Suc p div 4 - Suc p div 100 + Suc p div 400 = p div 4 - p div 100 + p div 400 + (if leap_year (Suc p) then 1 else 0)"
proof -
  have "Suc p mod 400 = 0 \<Longrightarrow> Suc p mod 100 = 0" "Suc p mod 100 = 0 \<Longrightarrow> Suc p mod 4 = 0"
    by presburger+
  moreover have "p div 100 \<le> p div 4"
    by (simp add: div_le_mono2)
  ultimately show ?thesis
    by (auto simp: leap_year_def div_Suc Suc_diff_le)
qed

lemma next_year: "1 \<le> y \<Longrightarrow> days_before_year (Suc y) = days_before_year y + 365 + (if leap_year y then 1 else 0)"
proof -
  assume "1 \<le> y"
  then obtain p where y: "y = Suc p"
    by (cases y) simp_all
  have regroup: "a + 365 + q' - c' + f' = a + q - c + f + 365 + l"
    if "c \<le> q" "c' \<le> q'" "q' - c' + f' = q - c + f + l" for a q c f l q' c' f' :: nat
    using that by linarith
  have "p * 365 + 365 + Suc p div 4 - Suc p div 100 + Suc p div 400 =
      p * 365 + p div 4 - p div 100 + p div 400 + 365 + (if leap_year (Suc p) then 1 else 0)"
    by (rule regroup [OF _ _ leap_days]) (simp_all add: div_le_mono2)
  moreover have "Suc p * 365 = p * 365 + 365"
    by simp
  ultimately show ?thesis
    unfolding y days_before_year_def Let_def diff_Suc_1 by (simp only:)
qed

lemma months_of_year: "days_before_month y 12 = 334 + (if leap_year y then 1 else 0)"
  by (simp add: days_before_month_def days_in_month_def upt_rec)

lemma ordinal_next_day:
  assumes "1 \<le> y" "1 \<le> m" "m \<le> 12" "1 \<le> d" "d \<le> days_in_month y m"
  shows "ordinal (next_day (y, m, d)) = Suc (ordinal (y, m, d))"
proof (cases "d < days_in_month y m \<or> m < 12")
  case True
  then show ?thesis
    using assms by (auto simp: ordinal_def days_before_month_def)
next
  case False
  then have "m = 12" "d = 31"
    using assms by (auto simp: days_in_month_def)
  then show ?thesis
    using assms next_year [of y] months_of_year [of y]
    by (simp add: ordinal_def days_in_month_def) (simp add: days_before_month_def)
qed

lemma ordinal_civil [simp]: "ordinal (civil n) = n"
proof (induction n)
  case 0
  show ?case
    by (simp add: ordinal_def days_before_year_def days_before_month_def)
next
  case (Suc n)
  then show ?case
    using ordinal_next_day civil_is_date [of n] by (cases "civil n") (simp del: next_day.simps)
qed

text \<open>Digits.\<close>

lemma digit_is_digit [simp]: "n < 10 \<Longrightarrow> is_ascii_digit (digit n)"
  by (simp add: is_ascii_digit_def of_char_digit)

lemma digit_value [simp]: "n < 10 \<Longrightarrow> ord (digit n) - 48 = n"
  by (simp add: of_char_digit)

lemma pad_digits [simp]: "list_all is_ascii_digit (pad w n)"
  by (induction w arbitrary: n) simp_all

lemma pad_value: "n < 10 ^ w \<Longrightarrow> digits_value (pad w n) = n"
proof (induction w arbitrary: n)
  case (Suc w)
  then have "n div 10 < 10 ^ w"
    by (simp add: less_mult_imp_div_less mult.commute)
  then show ?case
    using Suc.IH by (simp add: digits_value_def)
qed (simp add: digits_value_def)

lemma read_pad: "n < 10 ^ w \<Longrightarrow> read_digits w (pad w n @ s) = Some (n, s)"
  by (simp add: read_digits_def pad_value)

lemmas read_pad_2 = read_pad [where w = 2, simplified]
lemmas read_pad_4 = read_pad [where w = 4, simplified]

lemma read_date_text:
  assumes "fst (civil n) \<le> 9999"
  shows "read_date (date_text (civil n) @ s) = Some (civil n, s)"
proof -
  obtain y m d where c: "civil n = (y, m, d)"
    by (cases "civil n")
  then have "1 \<le> y" "y < 10000" "1 \<le> m" "m \<le> 12" "1 \<le> d" "d \<le> days_in_month y m" "m < 100" "d < 100"
    using civil_is_date [of n] civil_valid [of n] assms by simp_all
  then show ?thesis
    by (simp add: c date_text_def read_date_def read_pad_4 read_pad_2 read_char_def)
qed

lemma takeWhile_digits: "takeWhile is_ascii_digit (pad w n @ CHR ''+'' # s) = pad w n"
  "dropWhile is_ascii_digit (pad w n @ CHR ''+'' # s) = CHR ''+'' # s"
  using pad_digits [of w n] by (simp_all add: takeWhile_append2 dropWhile_append2 list_all_iff is_ascii_digit_def)

lemma read_fraction_text:
  assumes "0 \<le> us" and "us < 1000000"
  shows "read_fraction (fraction_text us) = Some (us, ''+00:00'')"
proof (cases "us = 0")
  case True
  then show ?thesis
    by (simp add: fraction_text_def read_fraction_def read_char_def)
next
  case False
  have "pad 6 (nat us) \<noteq> []"
    using length_pad [of 6 "nat us"] by force
  then show ?thesis
    using False assms pad_value [of "nat us" 6]
    by (simp add: fraction_text_def read_fraction_def read_char_def takeWhile_digits nat_less_iff)
qed

lemma nat_below: "(x :: int) < numeral k \<Longrightarrow> nat x < numeral k"
  using nat_mono_iff [of "numeral k" x] by simp

lemma mixed_radix:
  assumes "r = h * 3600000000 + a" "a = m * 60000000 + b" "b = s * 1000000 + us" "0 \<le> h" "0 \<le> m" "0 \<le> s"
  shows "((int (nat h) * 60 + int (nat m)) * 60 + int (nat s)) * 1000000 + us = r"
  using assms by simp

lemma clock_parts:
  assumes "0 \<le> r" and "r < DAY"
  obtains h m sec where "clock_text r = pad 2 h @ '':'' @ pad 2 m @ '':'' @ pad 2 sec @ fraction_text (r mod 1000000)"
    "h < 24" "m < 60" "sec < 60" "((int h * 60 + int m) * 60 + int sec) * 1000000 + r mod 1000000 = r"
proof (rule that)
  show "clock_text r = pad 2 (nat (r div 3600000000)) @ '':'' @ pad 2 (nat (r mod 3600000000 div 60000000)) @ '':'' @
      pad 2 (nat (r mod 60000000 div 1000000)) @ fraction_text (r mod 1000000)"
    by (rule clock_text_def)
  have "r div 3600000000 < 24" "r mod 3600000000 div 60000000 < 60" "r mod 60000000 div 1000000 < 60"
    "0 \<le> r div 3600000000" "0 \<le> r mod 3600000000 div 60000000" "0 \<le> r mod 60000000 div 1000000"
    using assms pos_mod_bound [of 3600000000 r] pos_mod_bound [of 60000000 r]
    unfolding DAY_def by (auto simp: pos_imp_zdiv_nonneg_iff)
  note bounds = this
  have parts: "r = r div 3600000000 * 3600000000 + r mod 3600000000"
    "r mod 3600000000 = r mod 3600000000 div 60000000 * 60000000 + r mod 60000000"
    "r mod 60000000 = r mod 60000000 div 1000000 * 1000000 + r mod 1000000"
    using div_mult_mod_eq [of "r mod 3600000000" 60000000] div_mult_mod_eq [of "r mod 60000000" 1000000]
    by (simp_all add: mod_mod_cancel)
  show "nat (r div 3600000000) < 24" "nat (r mod 3600000000 div 60000000) < 60" "nat (r mod 60000000 div 1000000) < 60"
    by (rule nat_below [OF bounds(1)], rule nat_below [OF bounds(2)], rule nat_below [OF bounds(3)])
  show "((int (nat (r div 3600000000)) * 60 + int (nat (r mod 3600000000 div 60000000))) * 60 +
      int (nat (r mod 60000000 div 1000000))) * 1000000 + r mod 1000000 = r"
    by (rule mixed_radix [OF parts bounds(4-6)])
qed

lemma read_clock_text:
  assumes "0 \<le> r" and "r < DAY"
  shows "read_clock (clock_text r) = Some (r, ''+00:00'')"
proof -
  obtain h m sec where clock: "clock_text r = pad 2 h @ '':'' @ pad 2 m @ '':'' @ pad 2 sec @ fraction_text (r mod 1000000)"
    and parts: "h < 24" "m < 60" "sec < 60" "((int h * 60 + int m) * 60 + int sec) * 1000000 + r mod 1000000 = r"
    using clock_parts [OF assms] by blast
  have "read_fraction (fraction_text (r mod 1000000)) = Some (r mod 1000000, ''+00:00'')"
    by (rule read_fraction_text) simp_all
  then show ?thesis
    using parts(1-3) unfolding clock by (simp add: read_clock_def read_pad_2 read_char_def parts(4) [simplified])
qed

lemma read_utc_offset: "read_offset ''+00:00'' = Some (Some 0)"
  by (simp add: read_offset_def read_digits_def read_char_def is_ascii_digit_def digits_value_def)

lemma read_isoformat:
  assumes "in_range t"
  shows "read_datetime (isoformat_utc t) = Some \<lparr>dt_wall = t, dt_offset = Some 0\<rparr>"
proof -
  have "0 \<le> t mod DAY" "t mod DAY < DAY" "0 \<le> t div DAY"
    using assms by (simp_all add: DAY_def in_range_def pos_imp_zdiv_nonneg_iff)
  then show ?thesis
    using assms by (simp add: in_range_def isoformat_utc_def read_datetime_def read_date_text read_clock_text read_utc_offset)
qed

text \<open>A time comes back as the instant it was.\<close>

lemma time_column_read: "time_column t = Inr s \<Longrightarrow> read_time s = Inr t"
  by (auto simp: time_column_def utc_datetime_def serialize_datetime_def read_time_def fromisoformat_def read_isoformat
      instant_of_def as_utc_def split: if_splits)

lemma optional_time_column_read: "optional_time_column v = Inr s \<Longrightarrow> read_optional_time s = Inr v"
  using time_column_read
  by (auto simp: optional_time_column_def serialize_optional_datetime_def read_optional_time_def time_column_def
      split: option.splits sum.splits)

lemma optional_time_column_None: "optional_time_column v = Inr s \<Longrightarrow> (s = None) = (v = None)"
  by (auto simp: optional_time_column_def serialize_optional_datetime_def split: option.splits sum.splits)

subsection \<open>Rows as columns\<close>

record session_columns =
  sc_id :: string
  sc_thread_id :: "string option"
  sc_turn_id :: "string option"
  sc_name :: string
  sc_cwd :: string
  sc_model :: "string option"
  sc_sandbox :: string
  sc_status :: string
  sc_summary :: string
  sc_created_at :: string
  sc_updated_at :: string

record interaction_columns =
  ic_id :: string
  ic_session_id :: string
  ic_request_id :: string
  ic_kind :: string
  ic_status :: string
  ic_lark_message_id :: "string option"
  ic_payload_summary :: string
  ic_requested_at :: string
  ic_resolved_at :: "string option"
  ic_expires_at :: string
  ic_actor_id :: "string option"
  ic_decision :: "string option"

record outbox_columns =
  oc_id :: int
  oc_session_id :: "string option"
  oc_agent :: "string option"
  oc_session_name :: "string option"
  oc_interaction_id :: "string option"
  oc_notification_type :: string
  oc_payload_summary :: string
  oc_attempt_count :: int
  oc_next_attempt_at :: string
  oc_sent_at :: "string option"
  oc_last_error :: "string option"
  oc_created_at :: string

record audit_columns =
  ac_id :: int
  ac_session_id :: "string option"
  ac_interaction_id :: "string option"
  ac_event_type :: string
  ac_actor_id :: "string option"
  ac_detail_summary :: string
  ac_created_at :: string

fun interaction_status_value :: "interaction_status \<Rightarrow> string" where
  "interaction_status_value I_PENDING = ''pending''"
| "interaction_status_value I_RESOLVED = ''resolved''"
| "interaction_status_value I_EXPIRED = ''expired''"
| "interaction_status_value I_CANCELLED = ''cancelled''"

definition interaction_status_of :: "string \<Rightarrow> interaction_status option" where
  "interaction_status_of s = find (\<lambda>v. interaction_status_value v = s) [I_PENDING, I_RESOLVED, I_EXPIRED, I_CANCELLED]"

definition kind_of :: "string \<Rightarrow> interaction_kind option" where
  "kind_of s = find (\<lambda>k. kind_value k = s) [EXEC_APPROVAL, FILE_CHANGE_APPROVAL, PERMISSION_REQUEST, USER_INPUT]"

lemma interaction_status_of_value [simp]: "interaction_status_of (interaction_status_value s) = Some s"
  by (cases s) (simp_all add: interaction_status_of_def)

lemma kind_of_value [simp]: "kind_of (kind_value k) = Some k"
  by (cases k) (simp_all add: kind_of_def)

text \<open>A model refuses a text that is no member of the enumeration of its field.\<close>

definition enum_member :: "string \<Rightarrow> 'e option \<Rightarrow> 'e outcome" where
  "enum_member field_name e = (case e of None \<Rightarrow> Inl (Exn ''ValidationError'' field_name) | Some v \<Rightarrow> Inr v)"

definition optional_decision :: "string option \<Rightarrow> interaction_decision option outcome" where
  "optional_decision d = (case d of None \<Rightarrow> Inr None | Some s \<Rightarrow> map_sum id Some (enum_member ''decision'' (decision_of s)))"

definition and_then :: "'a outcome \<Rightarrow> ('a \<Rightarrow> 'b outcome) \<Rightarrow> 'b outcome" where
  "and_then v f = (case v of Inl e \<Rightarrow> Inl e | Inr x \<Rightarrow> f x)"

text \<open>The columns of a record that is stored, in the order of the statement.\<close>

definition session_columns_of :: "codex_session \<Rightarrow> session_columns outcome" where
  "session_columns_of s =
     and_then (time_column (s_created_at s)) (\<lambda>created. and_then (time_column (s_updated_at s)) (\<lambda>updated.
     Inr \<lparr>sc_id = s_id s, sc_thread_id = s_thread_id s, sc_turn_id = s_turn_id s, sc_name = s_name s, sc_cwd = s_cwd s,
       sc_model = s_model s, sc_sandbox = s_sandbox s, sc_status = session_status_value (s_status s),
       sc_summary = s_summary s, sc_created_at = created, sc_updated_at = updated\<rparr>))"

definition session_values :: "codex_session \<Rightarrow> session_columns outcome" where
  "session_values s = session_columns_of (s\<lparr>s_summary := safe_summary (s_summary s)\<rparr>)"

definition interaction_columns_of :: "pending_interaction \<Rightarrow> interaction_columns outcome" where
  "interaction_columns_of i =
     and_then (time_column (i_requested_at i)) (\<lambda>requested.
     and_then (optional_time_column (i_resolved_at i)) (\<lambda>resolved.
     and_then (time_column (i_expires_at i)) (\<lambda>expires.
     Inr \<lparr>ic_id = i_id i, ic_session_id = i_session_id i, ic_request_id = i_request_id i, ic_kind = kind_value (i_kind i),
       ic_status = interaction_status_value (i_status i), ic_lark_message_id = i_lark_message_id i,
       ic_payload_summary = i_payload_summary i, ic_requested_at = requested, ic_resolved_at = resolved,
       ic_expires_at = expires, ic_actor_id = i_actor_id i, ic_decision = map_option decision_value (i_decision i)\<rparr>)))"

definition interaction_values :: "pending_interaction \<Rightarrow> interaction_columns outcome" where
  "interaction_values i = interaction_columns_of (i\<lparr>i_payload_summary := safe_summary (i_payload_summary i)\<rparr>)"

definition outbox_columns_of :: "outbox_item \<Rightarrow> outbox_columns outcome" where
  "outbox_columns_of r =
     and_then (time_column (o_next_attempt_at r)) (\<lambda>due.
     and_then (optional_time_column (o_sent_at r)) (\<lambda>sent.
     and_then (time_column (o_created_at r)) (\<lambda>created.
     Inr \<lparr>oc_id = o_id r, oc_session_id = o_session_id r, oc_agent = o_agent r, oc_session_name = o_session_name r,
       oc_interaction_id = o_interaction_id r, oc_notification_type = o_notification_type r,
       oc_payload_summary = o_payload_summary r, oc_attempt_count = o_attempt_count r, oc_next_attempt_at = due,
       oc_sent_at = sent, oc_last_error = o_last_error r, oc_created_at = created\<rparr>)))"

definition audit_columns_of :: "audit_entry \<Rightarrow> audit_columns outcome" where
  "audit_columns_of a =
     and_then (time_column (a_created_at a)) (\<lambda>created.
     Inr \<lparr>ac_id = a_id a, ac_session_id = a_session_id a, ac_interaction_id = a_interaction_id a,
       ac_event_type = a_event_type a, ac_actor_id = a_actor_id a, ac_detail_summary = a_detail_summary a,
       ac_created_at = created\<rparr>)"

text \<open>The four readers of the mapper. The texts are parsed first, then the model is built, which puts the times into UTC.\<close>

definition optional_fromisoformat :: "string option \<Rightarrow> datetime option outcome" where
  "optional_fromisoformat v = (case v of None \<Rightarrow> Inr None | Some s \<Rightarrow> map_sum id Some (fromisoformat s))"

definition optional_as_utc :: "datetime option \<Rightarrow> instant option outcome" where
  "optional_as_utc v = (case v of None \<Rightarrow> Inr None | Some d \<Rightarrow> map_sum id Some (as_utc d))"

definition session_of_columns :: "session_columns \<Rightarrow> codex_session outcome" where
  "session_of_columns r =
     and_then (fromisoformat (sc_created_at r)) (\<lambda>created. and_then (fromisoformat (sc_updated_at r)) (\<lambda>updated.
     and_then (as_utc created) (\<lambda>created. and_then (as_utc updated) (\<lambda>updated.
     and_then (enum_member ''status'' (session_status_of (sc_status r))) (\<lambda>status.
     Inr \<lparr>s_id = sc_id r, s_thread_id = sc_thread_id r, s_turn_id = sc_turn_id r, s_name = sc_name r, s_cwd = sc_cwd r,
       s_model = sc_model r, s_sandbox = sc_sandbox r, s_status = status, s_summary = sc_summary r,
       s_created_at = created, s_updated_at = updated\<rparr>)))))"

definition interaction_of_columns :: "interaction_columns \<Rightarrow> pending_interaction outcome" where
  "interaction_of_columns r =
     and_then (fromisoformat (ic_requested_at r)) (\<lambda>requested. and_then (optional_fromisoformat (ic_resolved_at r)) (\<lambda>resolved.
     and_then (fromisoformat (ic_expires_at r)) (\<lambda>expires.
     and_then (as_utc requested) (\<lambda>requested. and_then (optional_as_utc resolved) (\<lambda>resolved. and_then (as_utc expires) (\<lambda>expires.
     and_then (enum_member ''kind'' (kind_of (ic_kind r))) (\<lambda>kind.
     and_then (enum_member ''status'' (interaction_status_of (ic_status r))) (\<lambda>status.
     and_then (optional_decision (ic_decision r)) (\<lambda>decision.
     interaction_from_row \<lparr>i_id = ic_id r, i_session_id = ic_session_id r, i_request_id = ic_request_id r, i_kind = kind,
       i_status = status, i_lark_message_id = ic_lark_message_id r, i_payload_summary = ic_payload_summary r,
       i_requested_at = requested, i_resolved_at = resolved, i_expires_at = expires, i_actor_id = ic_actor_id r,
       i_decision = decision\<rparr>)))))))))"

definition outbox_of_columns :: "outbox_columns \<Rightarrow> outbox_item outcome" where
  "outbox_of_columns r =
     and_then (fromisoformat (oc_next_attempt_at r)) (\<lambda>due. and_then (optional_fromisoformat (oc_sent_at r)) (\<lambda>sent.
     and_then (fromisoformat (oc_created_at r)) (\<lambda>created.
     and_then (as_utc due) (\<lambda>due. and_then (optional_as_utc sent) (\<lambda>sent. and_then (as_utc created) (\<lambda>created.
     outbox_from_row \<lparr>o_id = oc_id r, o_session_id = oc_session_id r, o_agent = oc_agent r, o_session_name = oc_session_name r,
       o_interaction_id = oc_interaction_id r, o_notification_type = oc_notification_type r,
       o_payload_summary = oc_payload_summary r, o_attempt_count = oc_attempt_count r, o_next_attempt_at = due,
       o_sent_at = sent, o_last_error = oc_last_error r, o_created_at = created\<rparr>))))))"

definition audit_of_columns :: "audit_columns \<Rightarrow> audit_entry outcome" where
  "audit_of_columns r =
     and_then (fromisoformat (ac_created_at r)) (\<lambda>created. and_then (as_utc created) (\<lambda>created.
     Inr \<lparr>a_id = ac_id r, a_session_id = ac_session_id r, a_interaction_id = ac_interaction_id r,
       a_event_type = ac_event_type r, a_actor_id = ac_actor_id r, a_detail_summary = ac_detail_summary r,
       a_created_at = created\<rparr>))"

subsection \<open>Records come back from their columns\<close>

lemma and_then_Inr [simp]: "and_then (Inr x) f = f x"
  by (simp add: and_then_def)

lemma and_then_result: "and_then v f = Inr y \<longleftrightarrow> (\<exists>x. v = Inr x \<and> f x = Inr y)"
  by (cases v) (simp_all add: and_then_def)

lemma time_column_parsed:
  assumes "time_column t = Inr s"
  obtains d where "fromisoformat s = Inr d" "as_utc d = Inr t"
  using time_column_read [OF assms] by (auto simp: read_time_def split: sum.splits)

lemma optional_time_column_parsed:
  assumes "optional_time_column v = Inr s"
  obtains d where "optional_fromisoformat s = Inr d" "optional_as_utc d = Inr v"
  using optional_time_column_read [OF assms]
  by (cases s; cases v)
    (auto simp: read_optional_time_def read_time_def optional_fromisoformat_def optional_as_utc_def map_sum_def split: sum.splits)

lemma member_Some [simp]: "enum_member n (Some v) = Inr v"
  by (simp add: enum_member_def)

lemma optional_decision_value [simp]: "optional_decision (map_option decision_value d) = Inr d"
  by (cases d) (simp_all add: optional_decision_def)

lemma session_from_columns: "session_columns_of s = Inr r \<Longrightarrow> session_of_columns r = Inr s"
  by (auto simp: session_columns_of_def session_of_columns_def and_then_result elim!: time_column_parsed)

lemma interaction_from_columns: "interaction_columns_of i = Inr r \<Longrightarrow> interaction_of_columns r = interaction_from_row i"
  by (cases i) (auto simp: interaction_columns_of_def interaction_of_columns_def and_then_result
      elim!: time_column_parsed optional_time_column_parsed)

lemma outbox_from_columns: "outbox_columns_of item = Inr r \<Longrightarrow> outbox_of_columns r = outbox_from_row item"
  by (cases item) (auto simp: outbox_columns_of_def outbox_of_columns_def and_then_result
      elim!: time_column_parsed optional_time_column_parsed)

lemma audit_from_columns: "audit_columns_of a = Inr r \<Longrightarrow> audit_of_columns r = Inr a"
  by (auto simp: audit_columns_of_def audit_of_columns_def and_then_result elim!: time_column_parsed)

text \<open>
  C37. What is written into the columns of a row is read back as it was written, the summary shortened and cleaned of
  secrets, for all four tables: the times as the same instants, the enumerations as the same members. An interaction
  row comes back exactly when the validator of the model accepts it, a message row when its agent is a known one.
\<close>

theorem columns_round_trip:
  assumes "session_values s = Inr sr" and "interaction_values i = Inr ir"
    and "outbox_columns_of r = Inr oc" and "audit_columns_of a = Inr ar"
  shows "session_of_columns sr = Inr (s\<lparr>s_summary := safe_summary (s_summary s)\<rparr>) \<and>
    interaction_of_columns ir = (if interaction_valid i then Inr (i\<lparr>i_payload_summary := safe_summary (i_payload_summary i)\<rparr>)
      else Inl (Exn ''ValidationError'' ''pending interaction cannot contain resolution metadata'')) \<and>
    outbox_of_columns oc = (case o_agent r of None \<Rightarrow> Inr r
      | Some g \<Rightarrow> if agent_of g = None then Inl (Exn ''ValidationError'' ''agent'') else Inr r) \<and>
    audit_of_columns ar = Inr a"
  using assms session_from_columns interaction_from_columns outbox_from_columns audit_from_columns
  by (simp add: session_values_def interaction_values_def interaction_from_row_def interaction_valid_def outbox_from_row_def)

text \<open>A time the zero of the model's calendar can reach: one and a half seconds after it began.\<close>

definition ex_stamp :: instant where
  "ex_stamp = 1500000 - EPOCH"

lemma ex_stamp_column [simp]: "time_column ex_stamp = Inr ''0001-01-01T00:00:01.500000+00:00''"
  by (simp add: ex_stamp_def time_column_def utc_datetime_def serialize_datetime_def instant_of_def in_range_def isoformat_utc_def
      date_text_def clock_text_def fraction_text_def DAY_def digit_def pad_numeral char_of_def bit_0)

definition ex_stored_session :: codex_session where
  "ex_stored_session = \<lparr>s_id = ''s1'', s_thread_id = None, s_turn_id = None, s_name = ''n'', s_cwd = ''/'', s_model = None,
     s_sandbox = ''read-only'', s_status = S_RUNNING, s_summary = [], s_created_at = ex_stamp, s_updated_at = ex_stamp\<rparr>"

definition ex_stored_interaction :: pending_interaction where
  "ex_stored_interaction = \<lparr>i_id = ''i1'', i_session_id = ''s1'', i_request_id = ''q1'', i_kind = EXEC_APPROVAL,
     i_status = I_PENDING, i_lark_message_id = None, i_payload_summary = [], i_requested_at = ex_stamp,
     i_resolved_at = None, i_expires_at = ex_stamp, i_actor_id = None, i_decision = None\<rparr>"

definition ex_stored_item :: outbox_item where
  "ex_stored_item = \<lparr>o_id = 1, o_session_id = None, o_agent = Some ''codex'', o_session_name = None, o_interaction_id = None,
     o_notification_type = ''t'', o_payload_summary = [], o_attempt_count = 0, o_next_attempt_at = ex_stamp,
     o_sent_at = Some ex_stamp, o_last_error = None, o_created_at = ex_stamp\<rparr>"

definition ex_stored_audit :: audit_entry where
  "ex_stored_audit = \<lparr>a_id = 1, a_session_id = None, a_interaction_id = None, a_event_type = ''e'', a_actor_id = None,
     a_detail_summary = [], a_created_at = ex_stamp\<rparr>"

lemma columns_round_trip_ex:
  "\<exists>sr ir oc ar. session_values ex_stored_session = Inr sr \<and> interaction_values ex_stored_interaction = Inr ir \<and>
     outbox_columns_of ex_stored_item = Inr oc \<and> audit_columns_of ex_stored_audit = Inr ar \<and>
     session_of_columns sr = Inr (ex_stored_session\<lparr>s_summary := safe_summary []\<rparr>) \<and>
     interaction_of_columns ir = Inr (ex_stored_interaction\<lparr>i_payload_summary := safe_summary []\<rparr>) \<and>
     outbox_of_columns oc = Inr ex_stored_item \<and> audit_of_columns ar = Inr ex_stored_audit"
proof -
  let ?t = "''0001-01-01T00:00:01.500000+00:00''"
  have none: "optional_time_column None = Inr None"
    by (simp add: optional_time_column_def serialize_optional_datetime_def)
  have some: "optional_time_column (Some ex_stamp) = Inr (Some ?t)"
    using ex_stamp_column unfolding optional_time_column_def serialize_optional_datetime_def time_column_def by simp
  obtain sr where sr: "session_values ex_stored_session = Inr sr"
    by (simp add: session_values_def session_columns_of_def ex_stored_session_def)
  obtain ir where ir: "interaction_values ex_stored_interaction = Inr ir"
    by (simp add: interaction_values_def interaction_columns_of_def ex_stored_interaction_def none)
  obtain oc where oc: "outbox_columns_of ex_stored_item = Inr oc"
    by (simp add: outbox_columns_of_def ex_stored_item_def some)
  obtain ar where ar: "audit_columns_of ex_stored_audit = Inr ar"
    by (simp add: audit_columns_of_def ex_stored_audit_def)
  have "interaction_valid ex_stored_interaction" "agent_of ''codex'' = Some CODEX" "o_agent ex_stored_item = Some ''codex''"
    "s_summary ex_stored_session = []" "i_payload_summary ex_stored_interaction = []"
    by (simp_all add: interaction_valid_def ex_stored_interaction_def ex_stored_item_def ex_stored_session_def agent_of_def all_agents_def)
  then show ?thesis
    using columns_round_trip [OF sr ir oc ar] sr ir oc ar by simp
qed

subsection \<open>Queries over the columns\<close>

text \<open>
  \<^verbatim>\<open>list_sessions\<close>, \<^verbatim>\<open>list_due_outbox\<close> and \<^verbatim>\<open>list_audit\<close> as SQLite runs them: the conditions and the
  orders are those of the printed texts. Texts are compared by the codes of their characters.
\<close>

definition column_list_sessions :: "session_status option \<Rightarrow> session_columns list \<Rightarrow> codex_session list outcome" where
  "column_list_sessions status rows =
     map_outcome session_of_columns (sort_key (\<lambda>r. (sc_created_at r, sc_id r))
       (case status of None \<Rightarrow> rows | Some v \<Rightarrow> filter (\<lambda>r. sc_status r = session_status_value v) rows))"

definition column_list_due_outbox :: "instant \<Rightarrow> int \<Rightarrow> outbox_columns list \<Rightarrow> outbox_item list outcome" where
  "column_list_due_outbox t limit rows =
     and_then (time_column t) (\<lambda>now. map_outcome outbox_of_columns
       (limit_rows limit (sort_key (\<lambda>r. (oc_next_attempt_at r, oc_id r))
         (filter (\<lambda>r. oc_sent_at r = None \<and> oc_next_attempt_at r \<le> now) rows))))"

definition column_list_audit :: "string option \<Rightarrow> audit_columns list \<Rightarrow> audit_entry list outcome" where
  "column_list_audit session_id rows =
     map_outcome audit_of_columns (sort_key (\<lambda>r. (ac_created_at r, ac_id r))
       (case session_id of None \<Rightarrow> rows | Some s \<Rightarrow> filter (\<lambda>r. ac_session_id r = Some s) rows))"

text \<open>The order of the texts is the order of the instants.\<close>

lemma text_less_is_less: "text_less s t \<longleftrightarrow> s < t"
  by (induction s t rule: text_less.induct) (simp_all add: less_char_def)

lemma time_column_less:
  "time_column a = Inr s \<Longrightarrow> time_column b = Inr t \<Longrightarrow> s < t \<longleftrightarrow> a < b"
  using isoformat_less [of "a + EPOCH" "b + EPOCH"]
  by (auto simp: time_column_def utc_datetime_def serialize_datetime_def instant_of_def text_less_is_less split: if_splits)

lemma time_column_le:
  assumes "time_column a = Inr s" and "time_column b = Inr t"
  shows "s \<le> t \<longleftrightarrow> a \<le> b"
  using time_column_less [OF assms(2,1)] by (simp add: linorder_not_less [symmetric])

lemma time_column_key:
  "time_column a = Inr s \<Longrightarrow> time_column b = Inr t \<Longrightarrow> (s, x) \<le> (t, y) \<longleftrightarrow> (a, x) \<le> (b, y :: 'k :: linorder)"
  using time_column_less time_column_le by (simp add: less_eq_prod_def)

text \<open>Sorting, filtering and reading related lists keeps them related.\<close>

lemma related_insort:
  assumes "list_all2 R xs ys" and "R x y"
    and keys: "\<And>x y x' y'. R x y \<Longrightarrow> R x' y' \<Longrightarrow> f x \<le> f x' \<longleftrightarrow> g y \<le> g y'"
  shows "list_all2 R (insort_key f x xs) (insort_key g y ys)"
  using assms(1,2) by (induction xs ys rule: list_all2_induct) (simp_all add: keys)

lemma related_sort:
  assumes "list_all2 R xs ys" and keys: "\<And>x y x' y'. R x y \<Longrightarrow> R x' y' \<Longrightarrow> f x \<le> f x' \<longleftrightarrow> g y \<le> g y'"
  shows "list_all2 R (sort_key f xs) (sort_key g ys)"
  using assms(1)
proof (induction xs ys rule: list_all2_induct)
  case (Cons x xs y ys)
  then show ?case
    using related_insort [OF Cons.IH Cons.hyps(1) keys] by simp
qed simp

lemma related_filter:
  assumes "list_all2 R xs ys" and "\<And>x y. R x y \<Longrightarrow> p x = q y"
  shows "list_all2 R (filter p xs) (filter q ys)"
  using assms(1) by (induction xs ys rule: list_all2_induct) (simp_all add: assms(2))

lemma related_limit: "list_all2 R xs ys \<Longrightarrow> list_all2 R (limit_rows n xs) (limit_rows n ys)"
  by (simp add: limit_rows_def list_all2_takeI)

lemma related_map_outcome:
  assumes "list_all2 R xs ys" and "\<And>x y. R x y \<Longrightarrow> f x = g y"
  shows "map_outcome f xs = map_outcome g ys"
  using assms(1) by (induction xs ys rule: list_all2_induct) (simp_all add: assms(2) split: sum.split)

text \<open>
  A database stands for a store of the model when the rows of its tables are, one by one, the columns of the records.
\<close>

record column_tables =
  tab_sessions :: "session_columns list"
  tab_outbox :: "outbox_columns list"
  tab_audit :: "audit_columns list"

definition stands_for :: "column_tables \<Rightarrow> codex_store \<Rightarrow> bool" where
  "stands_for db st \<longleftrightarrow>
     list_all2 (\<lambda>r s. session_columns_of s = Inr r) (tab_sessions db) (sessions st) \<and>
     list_all2 (\<lambda>r item. outbox_columns_of item = Inr r) (tab_outbox db) (outbox st) \<and>
     list_all2 (\<lambda>r a. audit_columns_of a = Inr r) (tab_audit db) (audit st)"

lemma session_columns_fields:
  assumes "session_columns_of s = Inr r"
  shows "sc_id r = s_id s" "sc_status r = session_status_value (s_status s)" "time_column (s_created_at s) = Inr (sc_created_at r)"
  using assms by (auto simp: session_columns_of_def and_then_result)

lemma outbox_columns_fields:
  assumes "outbox_columns_of item = Inr r"
  shows "oc_id r = o_id item" "oc_sent_at r = None \<longleftrightarrow> o_sent_at item = None"
    "time_column (o_next_attempt_at item) = Inr (oc_next_attempt_at r)"
  using assms optional_time_column_None by (auto simp: outbox_columns_of_def and_then_result)

lemma audit_columns_fields:
  assumes "audit_columns_of a = Inr r"
  shows "ac_id r = a_id a" "ac_session_id r = a_session_id a" "time_column (a_created_at a) = Inr (ac_created_at r)"
  using assms by (auto simp: audit_columns_of_def and_then_result)

lemmas created_before = time_column_key [OF session_columns_fields(3) session_columns_fields(3)]
lemmas due_before = time_column_key [OF outbox_columns_fields(3) outbox_columns_fields(3)]
lemmas audited_before = time_column_key [OF audit_columns_fields(3) audit_columns_fields(3)]

lemma session_status_value_inj: "session_status_value a = session_status_value b \<longleftrightarrow> a = b"
  by (metis session_status_of_value option.inject)

lemma map_outcome_Inr [simp]: "map_outcome Inr xs = Inr xs"
  by (induction xs) simp_all

lemma list_sessions_columns:
  assumes "list_all2 (\<lambda>r s. session_columns_of s = Inr r) rows ss"
  shows "column_list_sessions status rows =
    Inr (sort_key (\<lambda>s. (s_created_at s, s_id s)) (case status of None \<Rightarrow> ss | Some v \<Rightarrow> filter (\<lambda>s. s_status s = v) ss))"
proof -
  let ?R = "\<lambda>r s. session_columns_of s = Inr r"
  have "list_all2 ?R (case status of None \<Rightarrow> rows | Some v \<Rightarrow> filter (\<lambda>r. sc_status r = session_status_value v) rows)
      (case status of None \<Rightarrow> ss | Some v \<Rightarrow> filter (\<lambda>s. s_status s = v) ss)"
    using assms by (auto split: option.split intro!: related_filter simp: session_columns_fields session_status_value_inj)
  then have "list_all2 ?R (sort_key (\<lambda>r. (sc_created_at r, sc_id r))
        (case status of None \<Rightarrow> rows | Some v \<Rightarrow> filter (\<lambda>r. sc_status r = session_status_value v) rows))
      (sort_key (\<lambda>s. (s_created_at s, s_id s)) (case status of None \<Rightarrow> ss | Some v \<Rightarrow> filter (\<lambda>s. s_status s = v) ss))"
    by (rule related_sort) (simp only: session_columns_fields(1) created_before)
  from related_map_outcome [OF this, of session_of_columns Inr] show ?thesis
    by (simp add: column_list_sessions_def session_from_columns)
qed

lemma list_due_columns:
  assumes "list_all2 (\<lambda>r item. outbox_columns_of item = Inr r) rows items" and "time_column t = Inr now"
  shows "column_list_due_outbox t limit rows = map_outcome outbox_from_row
    (limit_rows limit (sort_key (\<lambda>r. (o_next_attempt_at r, o_id r)) (filter (is_due t) items)))"
proof -
  let ?R = "\<lambda>r item. outbox_columns_of item = Inr r"
  have "(oc_sent_at r = None \<and> oc_next_attempt_at r \<le> now) = is_due t item" if "?R r item" for r item
    using time_column_le [OF outbox_columns_fields(3) [OF that] assms(2)] outbox_columns_fields(2) [OF that]
    by (simp add: is_due_def)
  then have "list_all2 ?R (filter (\<lambda>r. oc_sent_at r = None \<and> oc_next_attempt_at r \<le> now) rows) (filter (is_due t) items)"
    by (intro related_filter [OF assms(1)])
  then have "list_all2 ?R (sort_key (\<lambda>r. (oc_next_attempt_at r, oc_id r))
        (filter (\<lambda>r. oc_sent_at r = None \<and> oc_next_attempt_at r \<le> now) rows))
      (sort_key (\<lambda>r. (o_next_attempt_at r, o_id r)) (filter (is_due t) items))"
    by (rule related_sort) (simp only: outbox_columns_fields(1) due_before)
  from related_map_outcome [OF related_limit [OF this, of limit], of outbox_of_columns outbox_from_row] show ?thesis
    by (simp add: column_list_due_outbox_def assms(2) outbox_from_columns)
qed

lemma list_audit_columns:
  assumes "list_all2 (\<lambda>r a. audit_columns_of a = Inr r) rows entries"
  shows "column_list_audit session_id rows = Inr (sort_key (\<lambda>a. (a_created_at a, a_id a))
    (case session_id of None \<Rightarrow> entries | Some s \<Rightarrow> filter (\<lambda>a. a_session_id a = Some s) entries))"
proof -
  let ?R = "\<lambda>r a. audit_columns_of a = Inr r"
  have "list_all2 ?R (case session_id of None \<Rightarrow> rows | Some s \<Rightarrow> filter (\<lambda>r. ac_session_id r = Some s) rows)
      (case session_id of None \<Rightarrow> entries | Some s \<Rightarrow> filter (\<lambda>a. a_session_id a = Some s) entries)"
    using assms by (auto split: option.split intro!: related_filter simp: audit_columns_fields)
  then have "list_all2 ?R (sort_key (\<lambda>r. (ac_created_at r, ac_id r))
        (case session_id of None \<Rightarrow> rows | Some s \<Rightarrow> filter (\<lambda>r. ac_session_id r = Some s) rows))
      (sort_key (\<lambda>a. (a_created_at a, a_id a))
        (case session_id of None \<Rightarrow> entries | Some s \<Rightarrow> filter (\<lambda>a. a_session_id a = Some s) entries))"
    by (rule related_sort) (simp only: audit_columns_fields(1) audited_before)
  from related_map_outcome [OF this, of audit_of_columns Inr] show ?thesis
    by (simp add: column_list_audit_def audit_from_columns)
qed

text \<open>
  C38. The queries that order and compare printed times answer over the columns what the store of the model answers over
  its records: the sessions in the order they were made, the messages that are due and not yet sent, the earliest first
  and as many as asked for, and the audit log, with what the readers of the rows raise.
\<close>

theorem column_queries_refine:
  assumes "stands_for db st" and "\<not> store_closed st" and "time_column t = Inr now"
  shows "column_list_sessions status (tab_sessions db) = store_list_sessions status st \<and>
    column_list_due_outbox t limit (tab_outbox db) = store_list_due_outbox (Some t) limit nw st \<and>
    column_list_audit session_id (tab_audit db) = store_list_audit session_id st"
  using assms list_sessions_columns [of "tab_sessions db" "sessions st" status]
    list_due_columns [of "tab_outbox db" "outbox st" t now limit] list_audit_columns [of "tab_audit db" "audit st" session_id]
  by (simp add: stands_for_def store_list_sessions_def store_list_due_outbox_def store_list_audit_def with_connection_def)

text \<open>A message due half a second after another, which is already sent, is found a full second later.\<close>

definition ex_late :: outbox_item where
  "ex_late = ex_stored_item\<lparr>o_id := 2, o_sent_at := None\<rparr>"

definition ex_columns_store :: codex_store where
  "ex_columns_store = empty_store\<lparr>outbox := [ex_stored_item, ex_late]\<rparr>"

lemma column_queries_refine_ex:
  "\<exists>db. stands_for db ex_columns_store \<and> length (tab_outbox db) = 2 \<and>
     column_list_due_outbox ex_stamp 10 (tab_outbox db) = Inr [ex_late]"
proof -
  have opt: "optional_time_column None = Inr None" "\<exists>c. optional_time_column (Some ex_stamp) = Inr (Some c)"
    using ex_stamp_column unfolding optional_time_column_def serialize_optional_datetime_def time_column_def by simp_all
  obtain a where a: "outbox_columns_of ex_stored_item = Inr a"
    using opt(2) by (auto simp: outbox_columns_of_def ex_stored_item_def)
  obtain b where b: "outbox_columns_of ex_late = Inr b"
    using opt(1) by (simp add: outbox_columns_of_def ex_late_def ex_stored_item_def)
  let ?db = "\<lparr>tab_sessions = [], tab_outbox = [a, b], tab_audit = []\<rparr>"
  have db: "stands_for ?db ex_columns_store"
    using a b by (simp add: stands_for_def ex_columns_store_def empty_store_def)
  have "store_list_due_outbox (Some ex_stamp) 10 0 ex_columns_store = Inr [ex_late]"
    by (simp add: store_list_due_outbox_def with_connection_def ex_columns_store_def empty_store_def is_due_def ex_late_def
        ex_stored_item_def limit_rows_def outbox_from_row_def agent_of_def all_agents_def)
  then show ?thesis
    using column_queries_refine [OF db _ ex_stamp_column, of None 10 0 None] db
    by (intro exI [of _ ?db]) (simp add: ex_columns_store_def empty_store_def)
qed

end
