(* ===== verification/Connections.thy ===== *)
theory Connections
  imports Prelude
begin

text \<open>
  The connections of \<^verbatim>\<open>SQLiteCodexStore\<close>: a store in memory keeps one connection until it is closed, a store in a file opens
  one for every group of statements and closes it again. The database is any value \<open>'d\<close> and the statements of a method
  a function on it; \<^verbatim>\<open>with connection:\<close> commits what they did or takes it back. What SQLite answers is a parameter. The
  theory of the store rests on what is shown here: a method either has its whole effect, or raises and has none.
\<close>

record sqlite =
  sq_mkdir :: "unit outcome"
  sq_connect :: "nat \<Rightarrow> unit outcome"
  sq_pragmas :: "nat \<Rightarrow> unit outcome"
  sq_commit :: "nat \<Rightarrow> unit outcome"

record connections =
  co_database :: string
  co_closed :: bool
  co_memory :: "nat option"
  co_live :: "nat set"
  co_made :: nat

type_synonym 'd database_state = "connections \<times> 'd"

definition close_connection :: "nat \<Rightarrow> connections \<Rightarrow> connections" where
  "close_connection c s = s\<lparr>co_live := co_live s - {c}\<rparr>"

text \<open>\<^verbatim>\<open>_new_connection\<close>: a connection whose two pragmas fail is not closed.\<close>

definition sqlite_connection :: "sqlite \<Rightarrow> connections \<Rightarrow> nat outcome \<times> connections" where
  "sqlite_connection w s =
     (let c = co_made s in
      case sq_connect w c of
        Inl e \<Rightarrow> (Inl e, s)
      | Inr _ \<Rightarrow> (let s1 = s\<lparr>co_live := insert c (co_live s), co_made := c + 1\<rparr> in
          case sq_pragmas w c of Inl e \<Rightarrow> (Inl e, s1) | Inr _ \<Rightarrow> (Inr c, s1)))"

text \<open>\<^verbatim>\<open>with connection:\<close> around the statements of a method.\<close>

definition transaction :: "sqlite \<Rightarrow> nat \<Rightarrow> ('d \<Rightarrow> 'a outcome \<times> 'd) \<Rightarrow> 'd \<Rightarrow> 'a outcome \<times> 'd" where
  "transaction w c body d =
     (case body d of
        (Inl e, _) \<Rightarrow> (Inl e, d)
      | (Inr v, d') \<Rightarrow> (case sq_commit w c of Inl e \<Rightarrow> (Inl e, d) | Inr _ \<Rightarrow> (Inr v, d')))"

definition connection_scope ::
  "sqlite \<Rightarrow> ('d \<Rightarrow> 'a outcome \<times> 'd) \<Rightarrow> 'd database_state \<Rightarrow> 'a outcome \<times> 'd database_state" where
  "connection_scope w body = (\<lambda>(s, d).
     if co_closed s then (runtime_error ''SQLiteCodexStore is closed'', (s, d))
     else (case co_memory s of
         Some c \<Rightarrow> (case transaction w c body d of (r, d') \<Rightarrow> (r, (s, d')))
       | None \<Rightarrow> (case sqlite_connection w s of
             (Inl e, s1) \<Rightarrow> (Inl e, (s1, d))
           | (Inr c, s1) \<Rightarrow> (case transaction w c body d of (r, d') \<Rightarrow> (r, (close_connection c s1, d'))))))"

text \<open>\<^verbatim>\<open>__init__\<close>: the schema is made in a first scope.\<close>

definition open_store ::
  "sqlite \<Rightarrow> ('d \<Rightarrow> unit outcome \<times> 'd) \<Rightarrow> string \<Rightarrow> 'd \<Rightarrow> unit outcome \<times> 'd database_state" where
  "open_store w initialize path d =
     (let s0 = \<lparr>co_database = path, co_closed = False, co_memory = None, co_live = {}, co_made = 0\<rparr> in
      case (if path = '':memory:''
            then (case sqlite_connection w s0 of (Inl e, s1) \<Rightarrow> (Inl e, s1) | (Inr c, s1) \<Rightarrow> (Inr (), s1\<lparr>co_memory := Some c\<rparr>))
            else (sq_mkdir w, s0)) of
        (Inl e, s) \<Rightarrow> (Inl e, (s, d))
      | (Inr _, s) \<Rightarrow> connection_scope w initialize (s, d))"

definition close_store :: "connections \<Rightarrow> connections" where
  "close_store s =
     (if co_closed s then s
      else (case co_memory s of
          None \<Rightarrow> s\<lparr>co_closed := True\<rparr>
        | Some c \<Rightarrow> (close_connection c s)\<lparr>co_closed := True, co_memory := None\<rparr>))"

text \<open>\<^verbatim>\<open>with store:\<close> closes it whatever the block does.\<close>

definition with_store :: "('d database_state \<Rightarrow> 'a outcome \<times> 'd database_state) \<Rightarrow> 'd database_state \<Rightarrow> 'a outcome \<times> 'd database_state" where
  "with_store body = (\<lambda>(s, d).
     if co_closed s then (runtime_error ''SQLiteCodexStore is closed'', (s, d))
     else (case body (s, d) of (r, (s', d')) \<Rightarrow> (r, (close_store s', d'))))"

subsection \<open>Every connection is accounted for\<close>

text \<open>Nothing is open but the connection of a store in memory, and every open connection was made.\<close>

definition connections_ok :: "connections \<Rightarrow> bool" where
  "connections_ok s \<longleftrightarrow>
     co_live s = (case co_memory s of None \<Rightarrow> {} | Some c \<Rightarrow> {c}) \<and> (\<forall>c\<in>co_live s. c < co_made s) \<and>
     (co_closed s \<longrightarrow> co_memory s = None)"

lemma transaction_all_or_nothing: "transaction w c body d = (Inl e, d') \<Longrightarrow> d' = d"
  by (auto simp: transaction_def split: prod.splits sum.splits)

lemma transaction_effect: "transaction w c body d = (Inr v, d') \<Longrightarrow> body d = (Inr v, d')"
  by (auto simp: transaction_def split: prod.splits sum.splits)

lemma scope_connections:
  assumes "connections_ok s" and "\<And>c. sq_pragmas w c = Inr ()" and "connection_scope w body (s, d) = (r, (s', d'))"
  shows "connections_ok s' \<and> co_live s' = co_live s \<and> co_memory s' = co_memory s \<and> co_closed s' = co_closed s"
  using assms
  by (auto simp: connection_scope_def connections_ok_def sqlite_connection_def close_connection_def Let_def
      split: if_splits option.splits prod.splits sum.splits)

text \<open>
  C39. The statements of a method take effect as a whole or not at all: when it returns, the database is what they made
  of it; when it raises, in a statement, at the commit or because the store is closed or cannot be opened, the database
  is the one before. Either way no connection is left open but the one of a store in memory, and after the store is
  closed there is none.
\<close>

theorem statements_are_atomic:
  assumes "connections_ok s" and pragmas: "\<And>c. sq_pragmas w c = Inr ()"
    and "connection_scope w body (s, d) = (r, (s', d'))"
  shows "(case r of Inr v \<Rightarrow> body d = (Inr v, d') \<and> \<not> co_closed s | Inl e \<Rightarrow> d' = d) \<and>
    connections_ok s' \<and> co_live s' = co_live s \<and> co_live (close_store s') = {} \<and> connections_ok (close_store s')"
proof -
  have "case r of Inr v \<Rightarrow> body d = (Inr v, d') \<and> \<not> co_closed s | Inl e \<Rightarrow> d' = d"
    using assms(3) transaction_all_or_nothing transaction_effect
    by (fastforce simp: connection_scope_def split: if_splits option.splits prod.splits sum.splits)
  moreover have "co_live (close_store t) = {} \<and> connections_ok (close_store t)" if "connections_ok t" for t
    using that by (auto simp: close_store_def connections_ok_def close_connection_def split: option.splits)
  ultimately show ?thesis
    using scope_connections [OF assms] by blast
qed

text \<open>A store in a file whose second statement fails after its first: nothing is written, nothing stays open.\<close>

definition ex_sqlite :: sqlite where
  "ex_sqlite = \<lparr>sq_mkdir = Inr (), sq_connect = (\<lambda>_. Inr ()), sq_pragmas = (\<lambda>_. Inr ()), sq_commit = (\<lambda>_. Inr ())\<rparr>"

definition ex_connections :: connections where
  "ex_connections = \<lparr>co_database = ''/tmp/db'', co_closed = False, co_memory = None, co_live = {}, co_made = 3\<rparr>"

lemma statements_are_atomic_ex:
  "\<exists>s'. connection_scope ex_sqlite (\<lambda>rows. (Inl (Exn ''IntegrityError'' []), rows @ [7 :: int])) (ex_connections, [1]) =
       (Inl (Exn ''IntegrityError'' []) :: unit outcome, (s', [1])) \<and> co_live s' = {} \<and> co_live (close_store s') = {}"
proof -
  let ?body = "\<lambda>rows. (Inl (Exn ''IntegrityError'' []) :: unit outcome, rows @ [7 :: int])"
  obtain r s' d' where run: "connection_scope ex_sqlite ?body (ex_connections, [1]) = (r, (s', d'))"
    by (metis prod.collapse)
  then have "r = Inl (Exn ''IntegrityError'' [])"
    by (simp add: connection_scope_def ex_sqlite_def ex_connections_def sqlite_connection_def transaction_def Let_def)
  moreover have "connections_ok ex_connections" "\<And>c. sq_pragmas ex_sqlite c = Inr ()" "co_live ex_connections = {}"
    by (simp_all add: connections_ok_def ex_connections_def ex_sqlite_def)
  ultimately show ?thesis
    using statements_are_atomic [OF _ _ run] run by auto
qed

text \<open>A store that is opened starts with its connections in order, and one used in a block is closed after it.\<close>

lemma opened_store_ok:
  assumes "\<And>c. sq_pragmas w c = Inr ()" and "open_store w initialize path d = (Inr (), (s, d'))"
  shows "connections_ok s \<and> \<not> co_closed s \<and> (co_memory s \<noteq> None \<longleftrightarrow> path = '':memory:'') \<and> initialize d = (Inr (), d')"
proof -
  define s1 where "s1 = (if path = '':memory:'' then \<lparr>co_database = path, co_closed = False, co_memory = Some 0, co_live = {0}, co_made = 1\<rparr>
    else \<lparr>co_database = path, co_closed = False, co_memory = None, co_live = {}, co_made = 0\<rparr>)"
  have s1: "connections_ok s1" "\<not> co_closed s1" "co_memory s1 \<noteq> None \<longleftrightarrow> path = '':memory:''"
    by (simp_all add: s1_def connections_ok_def)
  have scope: "connection_scope w initialize (s1, d) = (Inr (), (s, d'))"
    using assms
    by (auto simp: open_store_def sqlite_connection_def s1_def Let_def split: if_splits sum.splits prod.splits)
  from scope_connections [OF s1(1) assms(1) scope] show ?thesis
    using s1 scope transaction_effect
    by (fastforce simp: connection_scope_def split: if_splits option.splits prod.splits sum.splits)
qed

lemma block_closes_store:
  assumes "with_store body (s, d) = (r, (s', d'))" and "\<not> co_closed s"
  shows "co_closed s'"
  using assms by (auto simp: with_store_def close_store_def split: prod.splits option.splits if_splits)

end
