(* ===== verification/Callback_Server.thy ===== *)
theory Callback_Server
  imports Notification
begin

text \<open>
  The callback server of \<^verbatim>\<open>server/app.py\<close> with its routes \<^verbatim>\<open>server/lark_events.py\<close> and
  \<^verbatim>\<open>server/agent_events.py\<close>, and the store of \<^verbatim>\<open>storage/redis.py\<close>, which cannot be made. FastAPI decodes a body and
  validates an event: both are parameters. A route that raises is answered by the framework with an internal error.
\<close>

text \<open>What a route finds in the state of the application. \<^verbatim>\<open>create_app\<close> puts nothing there.\<close>

record callback_app =
  app_store :: "notification_store option"
  app_notifier :: "(notification_request \<Rightarrow> unit outcome) option"
  app_cooldown :: "int option"

definition create_app :: callback_app where
  "create_app = \<lparr>app_store = None, app_notifier = None, app_cooldown = None\<rparr>"

text \<open>\<^verbatim>\<open>RedisNotificationStore.__init__\<close>.\<close>

definition redis_store :: "notification_store outcome" where
  "redis_store = Inl (Exn ''NotImplementedError'' ''Redis storage is reserved for a later release.'')"

text \<open>
  The test \<^verbatim>\<open>in\<close> on a decoded body: the key of an object, an element of a list, a part of a text; a number, a
  Boolean or null is no container. Only an object has a value for the key.
\<close>

fun contains_text :: "string \<Rightarrow> string \<Rightarrow> bool" where
  "contains_text t [] = (t = [])"
| "contains_text t (c # cs) = (prefix t (c # cs) \<or> contains_text t cs)"

fun json_contains :: "string \<Rightarrow> json \<Rightarrow> bool outcome" where
  "json_contains k (JObj d) = Inr (has_key d k)"
| "json_contains k (JArr xs) = Inr (JStr k \<in> set xs)"
| "json_contains k (JStr s) = Inr (contains_text k s)"
| "json_contains k _ = type_error ''argument is not iterable''"

fun json_item :: "string \<Rightarrow> json \<Rightarrow> json outcome" where
  "json_item k (JObj d) = (if has_key d k then Inr (jget d k) else Inl (Exn ''KeyError'' k))"
| "json_item k _ = type_error ''indices must be integers''"

definition lark_events :: "json outcome \<Rightarrow> json outcome" where
  "lark_events body =
     (case body of
        Inl e \<Rightarrow> Inl e
      | Inr payload \<Rightarrow> (case json_contains ''challenge'' payload of
            Inl e \<Rightarrow> Inl e
          | Inr True \<Rightarrow> map_sum id (\<lambda>c. JObj [(''challenge'', c)]) (json_item ''challenge'' payload)
          | Inr False \<Rightarrow> Inr (JObj [(''ok'', JBool True), (''handled'', JBool False)])))"

definition health :: json where
  "health = JObj [(''status'', JStr ''ok'')]"

definition posted_json :: "posted \<Rightarrow> json" where
  "posted_json p =
     (case p of
        PostedCooldown \<Rightarrow> JObj [(''ok'', JBool True), (''sent'', JBool False), (''reason'', JStr ''cooldown'')]
      | PostedNoNotifier \<Rightarrow> JObj [(''ok'', JBool True), (''sent'', JBool False), (''reason'', JStr ''notifier_not_configured'')]
      | PostedSent status \<Rightarrow> JObj [(''ok'', JBool True), (''sent'', JBool True), (''status'', JStr status)])"

text \<open>The routes, in the order they are registered; \<open>None\<close> is left to the framework (404, 405 and 422).\<close>

datatype callback_route = Health | LarkEvents "json outcome" | AgentEvents agent_event

definition serve_route ::
  "instant \<Rightarrow> instant \<Rightarrow> callback_route \<Rightarrow> callback_app \<Rightarrow> json outcome \<times> callback_app" where
  "serve_route now later r app =
     (case r of
        Health \<Rightarrow> (Inr health, app)
      | LarkEvents body \<Rightarrow> (lark_events body, app)
      | AgentEvents e \<Rightarrow>
          (case agent_events (opt_or (app_cooldown app) 300) now later
              (map_option (\<lambda>send. send (event_to_notification e)) (app_notifier app)) e (app_store app) of
             (result, st) \<Rightarrow> (map_sum id posted_json result, app\<lparr>app_store := st\<rparr>)))"

definition callback_request ::
  "(string \<Rightarrow> json outcome) \<Rightarrow> (string \<Rightarrow> agent_event option) \<Rightarrow> string \<Rightarrow> string \<Rightarrow> string \<Rightarrow> callback_route option" where
  "callback_request loads parse_event request_method path body =
     (if request_method = ''GET'' \<and> path = ''/health'' then Some Health
      else if request_method = ''POST'' \<and> path = ''/lark/events'' then Some (LarkEvents (loads body))
      else if request_method = ''POST'' \<and> path = ''/agent/events'' then map_option AgentEvents (parse_event body)
      else None)"

subsection \<open>What the server does\<close>

text \<open>Lark's verification of the address: the challenge comes back, whatever else the object holds.\<close>

lemma challenge_echoed:
  "has_key d ''challenge'' \<Longrightarrow> lark_events (Inr (JObj d)) = Inr (JObj [(''challenge'', jget d ''challenge'')])"
  by (simp add: lark_events_def)

lemma other_event_not_handled:
  "\<not> has_key d ''challenge'' \<Longrightarrow> lark_events (Inr (JObj d)) = Inr (JObj [(''ok'', JBool True), (''handled'', JBool False)])"
  by (simp add: lark_events_def)

text \<open>A text that contains the word, or a list with it, passes the test and then has no such item.\<close>

lemma challenge_text_raises: "lark_events (Inr (JStr ''a challenge'')) = type_error ''indices must be integers''"
  by (simp add: lark_events_def)

text \<open>
  The server as \<^verbatim>\<open>create_app\<close> makes it, and \<^verbatim>\<open>lark-bot serve\<close> runs it, has no notifier: it answers every event
  an agent posts with success and sends none of them, and that stays so after any number of requests.
\<close>

primrec serve_all :: "(instant \<times> instant \<times> callback_route) list \<Rightarrow> callback_app \<Rightarrow> callback_app" where
  "serve_all [] app = app"
| "serve_all (r # rs) app = (case r of (now, later, route) \<Rightarrow> serve_all rs (snd (serve_route now later route app)))"

lemma created_app_unchanged: "snd (serve_route now later r create_app) = create_app"
  by (simp add: serve_route_def create_app_def agent_events_def Let_def split: callback_route.split)

lemma served_app_unchanged: "serve_all rs create_app = create_app"
  by (induction rs) (simp_all add: created_app_unchanged split: prod.split)

lemma served_events_never_sent:
  "fst (serve_route now later (AgentEvents e) (serve_all rs create_app)) =
    Inr (JObj [(''ok'', JBool True), (''sent'', JBool False), (''reason'', JStr ''notifier_not_configured'')])"
  unfolding served_app_unchanged by (simp add: serve_route_def create_app_def agent_events_def posted_json_def Let_def)

text \<open>With a notifier and a store in the state, an event is sent at most once within a cooldown.\<close>

lemma configured_app_sends:
  assumes "app_notifier app = Some send" and "send (event_to_notification e) = Inr ()" and "app_store app = Some st"
  shows "fst (serve_route now later (AgentEvents e) app) =
    Inr (if should_send (dedupe_key (event_to_notification e)) (opt_or (app_cooldown app) 300) now st
         then JObj [(''ok'', JBool True), (''sent'', JBool True),
           (''status'', JStr (task_status_value (det_status (nr_detection (event_to_notification e)))))]
         else JObj [(''ok'', JBool True), (''sent'', JBool False), (''reason'', JStr ''cooldown'')])"
  using assms by (simp add: serve_route_def agent_events_def posted_json_def Let_def)

end
