(* ===== verification/Command_Line.thy ===== *)
theory Command_Line
  imports Commands Config
begin

text \<open>
  What \<^verbatim>\<open>commands/app.py\<close> does around the commands of the theory of the commands: the group that hands unknown
  subcommands to the native program, the text of an event from a file or from the input, the test message, the default
  settings, the commands that start a server, and the hook commands that print what they did. typer has parsed the
  options; uvicorn and the building of the runtime are parameters.
\<close>

subsection \<open>The codex group\<close>

datatype codex_group_command = JobGroup "string list" | HooksGroup "string list" | Native "string list"

text \<open>
  \<^verbatim>\<open>_CodexFallbackGroup.get_command\<close> and \<^verbatim>\<open>codex_command\<close>: without an argument, and for a first argument that is no
  subcommand of the group, the arguments go to the native program as they are.
\<close>

definition codex_group :: "string list \<Rightarrow> codex_group_command" where
  "codex_group args =
     (case args of
        [] \<Rightarrow> Native []
      | a # rest \<Rightarrow> if a = ''job'' then JobGroup rest else if a = ''hooks'' then HooksGroup rest else Native (a # rest))"

definition codex_native :: "command_world \<Rightarrow> string list \<Rightarrow> bool \<Rightarrow> unit cmd option" where
  "codex_native w args no_lark =
     (case codex_group args of Native native_args \<Rightarrow> Some (run_codex_tui w native_args no_lark) | _ \<Rightarrow> None)"

lemma native_arguments_unchanged: "codex_group args = Native native_args \<Longrightarrow> native_args = args"
  by (cases args) (auto simp: codex_group_def split: if_splits)

subsection \<open>Settings and notifications\<close>

definition default_settings :: settings where
  "default_settings = \<lparr>lark_app_id = [], lark_app_secret = [], lark_receive_id_type = ''chat_id'', lark_receive_id = [],
     sqlite_path = ''.lark-bot/lark_bot.sqlite3'', cooldown_seconds = 300, output_tail_lines = 40, http_timeout_seconds = 10,
     log_level = ''INFO'', lark_base_url = ''https://open.feishu.cn'', daemon_host = ''127.0.0.1'', daemon_port = 8787,
     daemon_token_path = ''.lark-bot/daemon.token'', codex_path = ''codex'', interaction_timeout_seconds = 1800,
     interaction_expiry_poll_seconds = 1, outbox_poll_seconds = 1 / 2, notification_delay_seconds = 0,
     lark_event_queue_capacity = 100, message_format_name = ''card''\<rparr>"

lemma default_settings_valid: "settings_valid default_settings"
  by (simp add: settings_valid_def default_settings_def)

definition lark_settings_of :: "settings \<Rightarrow> lark_settings" where
  "lark_settings_of s = \<lparr>ls_app_id = lark_app_id s, ls_app_secret = lark_app_secret s, ls_receive_id = lark_receive_id s,
     ls_cooldown = cooldown_seconds s\<rparr>"

text \<open>The default settings name the three that are missing.\<close>

lemma default_settings_refused:
  "validate_lark_settings (lark_settings_of default_settings) = Inl (Exn ''BadParameter''
     ''Missing required Lark settings: LARK_BOT_LARK_APP_ID, LARK_BOT_LARK_APP_SECRET, LARK_BOT_LARK_RECEIVE_ID'')"
  by (simp add: validate_lark_settings_def missing_settings_def lark_settings_of_def default_settings_def)

text \<open>\<open>send\<close> delivers in the format of the settings it is given.\<close>

definition send_test ::
  "settings \<Rightarrow> instant \<Rightarrow> instant \<Rightarrow> (settings \<Rightarrow> notification_request \<Rightarrow> unit outcome) \<Rightarrow> string \<Rightarrow> string option \<Rightarrow>
   (notification_store, delivery) sync" where
  "send_test s now later send message requested =
     bnd (from_outcome (test_format requested (message_format_name s))) (\<lambda>format.
       let request = test_request message
       in send_with_dedupe (lark_settings_of s) now later (send (s\<lparr>message_format_name := format\<rparr>) request) request)"

text \<open>The payload of an event: the text of a file, or the whole input. Reading it is outside the \<^verbatim>\<open>try\<close>.\<close>

definition event_payload :: "string outcome option \<Rightarrow> string outcome \<Rightarrow> string outcome" where
  "event_payload file_text stdin = (case file_text of Some t \<Rightarrow> t | None \<Rightarrow> stdin)"

definition build_codex_notification_from_json ::
  "(string \<Rightarrow> json option) \<Rightarrow> (json_object \<Rightarrow> codex_event outcome) \<Rightarrow> string \<Rightarrow> notification_request outcome" where
  "build_codex_notification_from_json loads validate payload =
     (case parse_event_payload loads validate ''Codex'' payload of
        Inl e \<Rightarrow> Inl e
      | Inr event \<Rightarrow> codex_event_to_notification event)"

definition codex_event_command ::
  "settings \<Rightarrow> (string \<Rightarrow> json option) \<Rightarrow> (json_object \<Rightarrow> codex_event outcome) \<Rightarrow> string outcome option \<Rightarrow> string outcome \<Rightarrow>
   instant \<Rightarrow> instant \<Rightarrow> (notification_request \<Rightarrow> unit outcome) \<Rightarrow> (notification_store, delivery) sync" where
  "codex_event_command s loads validate file_text stdin now later send =
     bnd (from_outcome (event_payload file_text stdin)) (\<lambda>payload.
       event_command (lark_settings_of s) (build_codex_notification_from_json loads validate payload) now later send)"

text \<open>A payload that is refused ends the command as a wrong argument and sends nothing.\<close>

lemma refused_payload_sends_nothing:
  assumes "event_payload file_text stdin = Inr payload" and "loads payload = None"
  shows "codex_event_command s loads validate file_text stdin now later send st =
    (Inl (bad_parameter ''Codex event payload must be valid JSON.''), st)"
  using assms
  by (simp add: codex_event_command_def bnd_def sync_defs event_command_def build_codex_notification_from_json_def
      parse_event_payload_def is_value_error_def)

subsection \<open>The servers\<close>

datatype server_run = ServerRun string int

definition serve_command :: "string \<Rightarrow> int \<Rightarrow> server_run" where
  "serve_command host port = ServerRun host port"

text \<open>
  \<^verbatim>\<open>lark-bot daemon\<close>: the token is read or made before anything is built, and the runtime built before anything listens.
\<close>

definition daemon_command ::
  "settings \<Rightarrow> token_world \<Rightarrow> (settings \<Rightarrow> 'r outcome) \<Rightarrow> string option \<Rightarrow> int option \<Rightarrow>
   (token_file option, 'r \<times> string \<times> server_run) sync" where
  "daemon_command s w build host port =
     bnd (ensure_daemon_token w) (\<lambda>token.
     bnd (from_outcome (build s)) (\<lambda>runtime.
     return (runtime, token, ServerRun
       (case host of None \<Rightarrow> daemon_host s | Some h \<Rightarrow> if h = [] then daemon_host s else h)
       (case port of None \<Rightarrow> daemon_port s | Some p \<Rightarrow> if p = 0 then daemon_port s else p))))"

lemma daemon_needs_token:
  assumes "fst (ensure_daemon_token w f) = Inl e"
  shows "fst (daemon_command s w build host port f) = Inl e"
  using assms by (cases "ensure_daemon_token w f") (simp add: daemon_command_def bnd_def)

subsection \<open>The hook commands\<close>

definition hooks_install_command :: "string \<Rightarrow> unit outcome \<Rightarrow> (fragment_file \<times> unit outcome) option \<Rightarrow> (fragment_file, string) sync" where
  "hooks_install_command path mkdir write_failure =
     bnd (install_hooks mkdir write_failure) (\<lambda>_. return (''installed: '' @ path))"

definition hooks_uninstall_command :: "string \<Rightarrow> unit outcome \<Rightarrow> (fragment_file, string) sync" where
  "hooks_uninstall_command path unlinked =
     bnd (uninstall_hooks unlinked) (\<lambda>_. return (''uninstalled: '' @ path))"

end
