(* ===== verification/Assembly.thy ===== *)
theory Assembly
  imports Daemon_Worker Interactive App_Server_Client Lark_Client Agent_Sessions Command_Line
begin

text \<open>
  \<^verbatim>\<open>build_runtime\<close> of \<^verbatim>\<open>server/daemon/app.py\<close>: how the settings become the parts of the daemon. The other theories
  take the configuration of their component as given; here it is the one the program makes, and what they assume of it
  is shown to follow from the validation of the settings. SQLite, the clock, the identifiers, HTTP and the parsers are
  the \<open>world\<close> the parts are connected to.
\<close>

record runtime_world =
  rw_open_store :: "string \<Rightarrow> codex_store outcome"
  rw_now :: "nat \<Rightarrow> instant"
  rw_new_id :: "nat \<Rightarrow> string"
  rw_microseconds :: "rat \<Rightarrow> int"
  rw_post :: "nat \<Rightarrow> api_request \<Rightarrow> api_response outcome"
  rw_http_error :: "exn \<Rightarrow> bool"
  rw_int_of :: "json \<Rightarrow> int outcome"
  rw_loads :: "string \<Rightarrow> json outcome"
  rw_decode :: "string \<Rightarrow> string"
  rw_which :: "string \<Rightarrow> string option"
  rw_endpoint :: "nat \<Rightarrow> string"
  rw_loopback :: "string \<Rightarrow> unit outcome"
  rw_gateway :: "string \<Rightarrow> string \<times> string"
  rw_spool :: "spool_file list"

datatype agent_adapter = CodexAdapter | ClaudeAdapter

record built_runtime =
  br_client_config :: client_config
  br_client :: client
  br_daemon :: daemon_config
  br_runtime :: runtime
  br_lark :: lark_client_config
  br_connection :: connection
  br_manager :: manager_config
  br_registry :: "agent_adapter registry"

definition format_of :: "string \<Rightarrow> message_format" where
  "format_of s = (if s = ''text'' then FText else FCard)"

text \<open>The arguments of the constructors, with their defaults.\<close>

definition orchestrator_settings :: "runtime_world \<Rightarrow> settings \<Rightarrow> orchestrator_config" where
  "orchestrator_settings w s = \<lparr>c_timeout_seconds = interaction_timeout_seconds s, c_queue_capacity = 100,
     c_delay = rw_microseconds w (notification_delay_seconds s), c_now = rw_now w, c_new_id = rw_new_id w\<rparr>"

definition client_settings :: "runtime_world \<Rightarrow> settings \<Rightarrow> client_config" where
  "client_settings w s = \<lparr>a_codex_path = codex_path s, a_version = ''0.1.0'', a_max_line = 1048576, a_tail_lines = 50,
     a_request_capacity = 100, a_notification_capacity = 100, a_loads = rw_loads w, a_decode = rw_decode w\<rparr>"

definition lark_client_settings :: "runtime_world \<Rightarrow> settings \<Rightarrow> lark_client_config" where
  "lark_client_settings w s = \<lparr>lc_app_id = lark_app_id s, lc_app_secret = lark_app_secret s,
     lc_receive_id = lark_receive_id s, lc_receive_id_type = lark_receive_id_type s, lc_base_url = lark_base_url s,
     lc_format = format_of (message_format_name s), lc_tail_lines = nat (output_tail_lines s), lc_post = rw_post w,
     lc_http_error = rw_http_error w, lc_int_of = rw_int_of w, lc_time = rw_now w\<rparr>"

definition daemon_settings :: "runtime_world \<Rightarrow> settings \<Rightarrow> daemon_config" where
  "daemon_settings w s = \<lparr>dm_orc = orchestrator_settings w s, dm_poll = nat (rw_microseconds w (outbox_poll_seconds s)),
     dm_delay = rw_microseconds w (notification_delay_seconds s), dm_format = format_of (message_format_name s),
     dm_now = rw_now w, dm_token = [], dm_manager = True, dm_loads = rw_loads w\<rparr>"

definition manager_settings :: "runtime_world \<Rightarrow> settings \<Rightarrow> manager_config" where
  "manager_settings w s = \<lparr>m_codex_path = codex_path s, m_which = rw_which w, m_endpoint = rw_endpoint w,
     m_loopback = rw_loopback w, m_gateway = rw_gateway w\<rparr>"

definition register_adapters :: "(agent_adapter registry, unit) sync" where
  "register_adapters = bnd (registry_register CODEX CodexAdapter) (\<lambda>_. registry_register CLAUDE ClaudeAdapter)"

definition build_runtime :: "runtime_world \<Rightarrow> settings \<Rightarrow> built_runtime outcome" where
  "build_runtime w s =
     (case rw_open_store w (sqlite_path s) of Inl e \<Rightarrow> Inl e | Inr store \<Rightarrow>
     (case client_init 1048576 50 100 100 2 of Inl e \<Rightarrow> Inl e | Inr client \<Rightarrow>
     (case new_orchestrator (orchestrator_settings w s) store of Inl e \<Rightarrow> Inl e | Inr orc \<Rightarrow>
     (case new_connection (lark_event_queue_capacity s) of Inl e \<Rightarrow> Inl e | Inr conn \<Rightarrow>
     (case register_adapters [] of
        (Inl e, _) \<Rightarrow> Inl e
      | (Inr _, registry) \<Rightarrow> Inr \<lparr>br_client_config = client_settings w s, br_client = client,
          br_daemon = daemon_settings w s, br_runtime = new_runtime orc (rw_spool w),
          br_lark = lark_client_settings w s, br_connection = conn, br_manager = manager_settings w s,
          br_registry = registry\<rparr>)))))"

text \<open>The application checks every request against the token the command read.\<close>

definition create_daemon_app :: "built_runtime \<Rightarrow> string \<Rightarrow> daemon_config" where
  "create_daemon_app r token = (br_daemon r)\<lparr>dm_token := token\<rparr>"

subsection \<open>Valid settings make a runtime\<close>

text \<open>\<^verbatim>\<open>timedelta(seconds=x)\<close> rounds to the nearest microsecond.\<close>

definition rounds :: "(rat \<Rightarrow> int) \<Rightarrow> bool" where
  "rounds m \<longleftrightarrow> (\<forall>x. 2 * \<bar>of_int (m x) - x * 1000000\<bar> \<le> 1)"

lemma rounded_near:
  assumes "rounds m"
  shows "x * 1000000 \<le> of_int (m x) + 1 / 2"
proof -
  define y :: rat where "y = of_int (m x) - x * 1000000"
  have "2 * \<bar>y\<bar> \<le> 1"
    using assms by (simp add: rounds_def y_def)
  then have "- y \<le> 1 / 2"
    using abs_ge_minus_self [of y] by simp
  then show ?thesis
    by (simp add: y_def algebra_simps)
qed

lemma rounded_above:
  assumes "rounds m" and "of_int k \<le> x * 1000000"
  shows "k \<le> m x"
proof -
  have "(of_int k :: rat) < of_int (m x) + 1"
    using rounded_near [OF assms(1), of x] assms(2) by linarith
  then have "(of_int k :: rat) < of_int (m x + 1)"
    by simp
  then show ?thesis
    unfolding of_int_less_iff by simp
qed

lemma round_rounds: "rounds (\<lambda>x. round (x * 1000000))"
  unfolding rounds_def
proof
  fix x :: rat
  show "2 * \<bar>of_int (round (x * 1000000)) - x * 1000000\<bar> \<le> 1"
    using of_int_round_abs_le [of "x * 1000000"] by simp
qed

text \<open>
  C40. Settings that pass the validation make a runtime: no constructor raises. The orchestrator starts empty over the
  store that was opened, with a positive time limit and queue and no negative delay; the workers are not started, the
  connection to Lark is new, the agents are Codex and then Claude; the interval of the outbox, of a microsecond or
  more, is positive, as the worker's rescheduling needs; and what the application checks is the token it was given.
\<close>

theorem valid_settings_make_runtime:
  assumes "settings_valid s" and "rounds (rw_microseconds w)" and "rw_open_store w (sqlite_path s) = Inr st"
  shows "\<exists>r. build_runtime w s = Inr r \<and> br_runtime r = new_runtime (initial st) (rw_spool w) \<and>
    dm_orc (br_daemon r) = orchestrator_settings w s \<and>
    0 < c_timeout_seconds (orchestrator_settings w s) \<and> 0 < c_queue_capacity (orchestrator_settings w s) \<and>
    0 \<le> c_delay (orchestrator_settings w s) \<and> \<not> k_started (br_connection r) \<and>
    registry_registered (br_registry r) = [CODEX, CLAUDE] \<and>
    (1 \<le> outbox_poll_seconds s * 1000000 \<longrightarrow> 0 < dm_poll (br_daemon r)) \<and>
    dm_token (create_daemon_app r token) = token"
proof -
  have limits: "0 < interaction_timeout_seconds s" "0 < lark_event_queue_capacity s" "0 \<le> notification_delay_seconds s"
    using assms(1) by (simp_all add: settings_valid_def)
  have delay: "0 \<le> rw_microseconds w (notification_delay_seconds s)"
    using rounded_above [OF assms(2), of 0] limits(3) by simp
  have orc: "new_orchestrator (orchestrator_settings w s) st = Inr (initial st)"
    using limits(1) delay by (simp add: new_orchestrator_def orchestrator_settings_def)
  obtain conn where conn: "new_connection (lark_event_queue_capacity s) = Inr conn" "\<not> k_started conn"
    using limits(2) by (simp add: new_connection_def)
  obtain registry where registry: "register_adapters [] = (Inr (), registry)" "registry_registered registry = [CODEX, CLAUDE]"
    by (simp add: register_adapters_def registry_register_def registry_registered_def bnd_def)
  have poll: "1 \<le> outbox_poll_seconds s * 1000000 \<longrightarrow> 0 < nat (rw_microseconds w (outbox_poll_seconds s))"
    using rounded_above [OF assms(2), of 1] by force
  show ?thesis
    using limits delay poll
    by (simp add: build_runtime_def assms(3) client_init_def orc conn registry create_daemon_app_def daemon_settings_def)
      (simp add: orchestrator_settings_def)
qed

definition ex_world :: runtime_world where
  "ex_world = \<lparr>rw_open_store = (\<lambda>_. Inr empty_store), rw_now = int, rw_new_id = (\<lambda>_. ''id''),
     rw_microseconds = (\<lambda>x. round (x * 1000000)), rw_post = (\<lambda>_ _. Inl (Exn ''ConnectError'' [])), rw_http_error = (\<lambda>_. True),
     rw_int_of = (\<lambda>_. Inr 0), rw_loads = (\<lambda>_. Inr JNull), rw_decode = id, rw_which = (\<lambda>_. None), rw_endpoint = (\<lambda>_. []),
     rw_loopback = (\<lambda>_. Inr ()), rw_gateway = (\<lambda>_. ([], [])), rw_spool = []\<rparr>"

text \<open>The default settings: a runtime whose outbox is read every half second.\<close>

lemma valid_settings_make_runtime_ex:
  "\<exists>r. build_runtime ex_world default_settings = Inr r \<and> br_runtime r = new_runtime (initial empty_store) [] \<and>
     registry_registered (br_registry r) = [CODEX, CLAUDE] \<and> 0 < dm_poll (br_daemon r)"
proof -
  have "rounds (rw_microseconds ex_world)"
    using round_rounds by (simp add: ex_world_def)
  moreover have "rw_open_store ex_world (sqlite_path default_settings) = Inr empty_store" "rw_spool ex_world = []"
      "1 \<le> outbox_poll_seconds default_settings * 1000000"
    by (simp_all add: ex_world_def default_settings_def)
  ultimately show ?thesis
    using valid_settings_make_runtime [OF default_settings_valid, of ex_world empty_store "[]"] by auto
qed

end
