(* ===== verification/Spec2Isabelle.thy ===== *)
theory Spec2Isabelle
  imports Store_Properties Interactive App_Server_Client Lark_Control Notification Lark_Render_Properties Hooks Agent_Sessions Commands
    Codex_Probe Schema Config Endpoint Timestamp Traced_Answers Hook_Delivery Columns Connections Callback_Server Command_Line Assembly
begin

text \<open>
  A model of \<^verbatim>\<open>lark_bot\<close> (\<^verbatim>\<open>src/src/lark_bot\<close>). A local daemon starts Codex sessions, or stands between a native
  Codex terminal and its app-server; it writes what happens to a SQLite file, sends questions and results to
  a chat in Lark, and takes the replies there as answers. Command line programs start it, talk to it, run a
  job and report how it ended, and serve as hooks of Codex and Claude Code.

  \<^bold>\<open>How a question travels.\<close> The app-server asks on its pipe (\<open>App_Server_Client\<close>) or on the socket of a terminal
  session (\<open>Gateway\<close>, \<open>Interactive\<close>); the orchestrator (\<open>Orchestrator\<close>) records it in the store (\<open>Codex_Store\<close>) and
  emits an event; a worker of the daemon (\<open>Daemon\<close>) puts a line in the outbox and sends it (\<open>Lark_Render\<close>,
  \<open>Lark_Client\<close>). A reply comes in over the long connection, is routed and read (\<open>Lark_Control\<close>), turned into a
  response and a decision (\<open>Codex_Resolution\<close>), recorded, and sent to the party that asked. The terminal may
  answer first, and the time limit may pass: one of the three wins.

  \<^bold>\<open>Foundations.\<close>
  \<^item> \<open>Prelude\<close>: outcomes (an exception or a value), instants, tables as lists of rows, dictionaries, bounded queues.
  \<^item> \<open>Py_String\<close>, \<open>Py_Json\<close>: what the code uses of Python's strings (in the Latin-1 range) and of JSON. The text of
    cards is over all code points, in \<open>Lark_Render\<close>.
  \<^item> \<open>Async\<close>: straight-line code on a state, coroutines as tasks that suspend at an outside call, and an event
    loop that resumes any task with any reply, or starts one. Every theorem about interleavings is over it.
  \<^item> \<open>Guarantee\<close>: the locales of what a coroutine guarantees in each of its pieces, and of what it may rely on while it is
    suspended; interpreted for the orchestrator, the gateways and the loop of both.
  \<^item> \<open>Contracts\<close>: the locale of an attempt that at most one party wins; interpreted for the store and the gateway.

  \<^bold>\<open>The store.\<close>
  \<^item> \<open>Redaction\<close>, \<open>Codex_Model\<close>, \<open>Codex_Store\<close>: \<^verbatim>\<open>core/redaction.py\<close>, \<^verbatim>\<open>codex_model.py\<close> with \<^verbatim>\<open>agent_model.py\<close>,
    \<^verbatim>\<open>codex_store.py\<close>: one definition for each method, on tables of rows.
  \<^item> \<open>Store_Invariant\<close>, \<open>Store_Contract\<close>, \<open>Store_Coherence\<close>, \<open>Store_Properties\<close>: well-formed tables, final rows, the
    agreement of a session with its questions, and what each method promises.
  \<^item> \<open>Timestamp\<close>: the printing of times in \<^verbatim>\<open>codex_mapper.py\<close>; the texts the SQL statements compare sort as the
    instants the other theories compare.
  \<^item> \<open>Columns\<close>: \<^verbatim>\<open>codex_mapper.py\<close>; the columns of a row, which are read back as the record they were written for, and
    the queries over columns, which are those of \<open>Codex_Store\<close> over records.
  \<^item> \<open>Connections\<close>: the connections and transactions of the store; a method has its whole effect or none.
  \<^item> \<open>Schema\<close>: \<^verbatim>\<open>codex_schema.py\<close>; the file of an older program becomes the file of today's, without losing a row.

  \<^bold>\<open>Sessions.\<close>
  \<^item> \<open>Codex_Resolution\<close>: \<^verbatim>\<open>app_server_response.py\<close>, \<^verbatim>\<open>orchestration_interaction.py\<close>, \<^verbatim>\<open>orchestration_summary.py\<close>.
  \<^item> \<open>Orchestrator\<close>, \<open>Orchestrator_Invariant\<close>, \<open>Orchestrator_Properties\<close>: \<^verbatim>\<open>codex_orchestrator.py\<close>; the invariant over
    all interleavings, answers at most once and as decided, live entries for what is pending.
  \<^item> \<open>App_Server_Client\<close>: \<^verbatim>\<open>app_server_client.py\<close>; requests and their responses, the lifecycle, the error output.
  \<^item> \<open>Gateway\<close>, \<open>Interactive\<close>, \<open>Endpoint\<close>: \<^verbatim>\<open>codex_gateway.py\<close>, \<^verbatim>\<open>codex_interactive.py\<close>; one response to a request,
    messages forwarded unchanged, what is given back when a creation fails, the bounded wait for the listener.
  \<^item> \<open>Terminal_Sessions\<close>: the orchestrator and the gateways of all sessions in one event loop, joined by the callbacks of
    the session manager; each part makes a run of its own, and a decision of Lark reaches the app-server.
  \<^item> \<open>Orchestrator_Calls\<close>, \<open>Gateway_Answers\<close>, \<open>Traced_Answers\<close>: the calls of the orchestrator only grow and its store changes by
    its own methods, a gateway answers only what it is told to, and so every answer that goes upstream is an error or a decision the store holds.
  \<^item> \<open>Agent_Sessions\<close>: \<^verbatim>\<open>agent_service.py\<close> and the facades; the locks of the sessions as a step relation.
  \<^item> \<open>Codex_Probe\<close>: \<^verbatim>\<open>codex_probe.py\<close>; what the report claims, and that what was acquired is released.

  \<^bold>\<open>Lark and the daemon.\<close>
  \<^item> \<open>Lark_Control\<close>: \<^verbatim>\<open>lark_event.py\<close>, \<^verbatim>\<open>lark_connection.py\<close>, \<^verbatim>\<open>lark_router.py\<close>; from a reply to the answer.
  \<^item> \<open>Notification\<close>: \<^verbatim>\<open>modules/task\<close>, \<^verbatim>\<open>modules/notification\<close>, the event adapters, \<^verbatim>\<open>storage/sqlite.py\<close>.
  \<^item> \<open>Lark_Render\<close>, \<open>Lark_Render_Properties\<close>: \<^verbatim>\<open>lark_render.py\<close>, \<^verbatim>\<open>lark_message.py\<close>; limits, fences, mentions.
  \<^item> \<open>Lark_Client\<close>: \<^verbatim>\<open>lark_client.py\<close>; the cached token is used in time.
  \<^item> \<open>Daemon\<close>, \<open>Daemon_Properties\<close>, \<open>Daemon_Worker\<close>: \<^verbatim>\<open>server/daemon/app.py\<close>; the daemon refines the event loop of the
    orchestrator, a round of the outbox settles what is due, closing reaches every part.
  \<^item> \<open>Hook_Delivery\<close>: over the runs of the daemon the store changes by its own methods, so that a hook event is queued once.

  \<^bold>\<open>Programs.\<close>
  \<^item> \<open>Hooks\<close>: \<^verbatim>\<open>agent_hook.py\<close>, \<^verbatim>\<open>codex_hook_adapter.py\<close>, \<^verbatim>\<open>codex_hook.py\<close>, \<^verbatim>\<open>claude_hook.py\<close>.
  \<^item> \<open>Launcher\<close>: \<^verbatim>\<open>codex_args.py\<close>, \<^verbatim>\<open>codex_tui.py\<close>, \<^verbatim>\<open>server/daemon/auth.py\<close>; the refused picker, the token.
  \<^item> \<open>Commands\<close>, \<open>Command_Line\<close>, \<open>Config\<close>: \<^verbatim>\<open>commands/app.py\<close>, \<^verbatim>\<open>commands/common.py\<close>, \<^verbatim>\<open>core/config.py\<close>.
  \<^item> \<open>Callback_Server\<close>: \<^verbatim>\<open>server/app.py\<close> with its routes, and \<^verbatim>\<open>storage/redis.py\<close>.
  \<^item> \<open>Assembly\<close>: \<^verbatim>\<open>build_runtime\<close>; valid settings make the parts of the daemon, with the limits their theorems assume.

  \<^bold>\<open>Bounds and fuel.\<close> Loops of the code are structural recursions, over the messages, lines, rows or observations
  they consume; the event loop is a relation and has no bound. \<open>drive\<close> in \<open>Daemon_Worker\<close> runs one task against a
  given environment: fifty calls are enough for a round of the outbox, because the due list is cut to fifty and
  each item is one call, and six for closing, one for each part. \<open>wait_for_listener_ends\<close> needs a hundred and
  two rounds: five seconds in steps of fifty milliseconds. A time between 0001 and 9999 is what \<^verbatim>\<open>datetime\<close> holds.

  \<^bold>\<open>Parameters.\<close> SQLite is modelled as far as the statements use it, as are asyncio's tasks, locks, futures and
  queues. The Lark SDK, httpx, websockets, pydantic's parsing, typer and uvicorn, subprocesses, the file
  system, \<^verbatim>\<open>json.loads\<close>, \<^verbatim>\<open>urlsplit\<close> and the clock are arguments of the definitions, or calls whose replies are
  arbitrary.

  \<^bold>\<open>Not modelled.\<close> The declarations of the options, the process of the Lark SDK itself, logging, the interfaces of the
  stores, and the modules that only re-export names: none of them has a state or a decision of its own. The types
  and defaults of columns are not kept, and \<^verbatim>\<open>datetime.fromisoformat\<close> reads here what \<^verbatim>\<open>isoformat\<close> prints, which is all that
  is written. The release of a subprocess after a second time limit, which the operating system decides, is one
  event of the model. Of the threads of the Lark SDK only what they put in the queue is modelled.
\<close>

end
